(* ===== verification/Prelude.thy ===== *)
theory Prelude imports Main "HOL-Library.AList" begin

text \<open>
  Shared vocabulary of the development.

  A Go function that returns \<open>(T, error)\<close> is a value of type \<open>'a res\<close>: \<open>Ok\<close> is a nil error,
  \<open>Err\<close> a non-nil one, and \<open>Panic\<close> is a run-time panic (nil dereference, failed type assertion,
  index out of range), which no \<open>if err != nil\<close> of the source intercepts.  A Go function with
  effects is a state transformer \<open>('s, 'a) go\<close> over such results; a state is never rolled back,
  so the effects before an error stay.

  The locale \<open>step_relation\<close> is the interface between such programs and the relations their runs
  respect (what they append to the trace of API calls, what they leave unchanged): any reflexive
  and transitive relation lifts through sequencing, error handling and loops.
\<close>

section \<open>Errors and results\<close>

text \<open>
  The reasons the source asks for with \<open>errors.IsNotFound\<close>, \<open>IsAlreadyExists\<close> and \<open>IsInvalid\<close>;
  every other \<open>metav1.StatusReason\<close> is \<open>OtherReason\<close>.
\<close>

datatype reason = NotFound | AlreadyExists | Invalid | OtherReason

text \<open>
  \<open>APIError\<close> is a \<open>StatusError\<close> of the API machinery, \<open>PlainError\<close> an error made by
  \<open>fmt.Errorf\<close> without wrapping, \<open>WrapError\<close> one made with \<open>%w\<close>.
\<close>

datatype go_error = APIError reason string | PlainError string | WrapError string go_error

text \<open>The method \<open>Error()\<close> of an error value.\<close>

fun Error_string :: "go_error \<Rightarrow> string" where
  "Error_string (APIError r msg) = msg"
| "Error_string (PlainError msg) = msg"
| "Error_string (WrapError msg e) = msg @ '': '' @ Error_string e"

text \<open>
  \<open>ReasonForError\<close> switches on the dynamic type of the error and does not unwrap it, so a wrapped
  API error has no reason any more.
\<close>

fun ReasonForError :: "go_error \<Rightarrow> reason" where
  "ReasonForError (APIError r msg) = r"
| "ReasonForError e = OtherReason"

definition IsNotFound :: "go_error \<Rightarrow> bool" where
  "IsNotFound e = (ReasonForError e = NotFound)"

definition IsAlreadyExists :: "go_error \<Rightarrow> bool" where
  "IsAlreadyExists e = (ReasonForError e = AlreadyExists)"

definition IsInvalid :: "go_error \<Rightarrow> bool" where
  "IsInvalid e = (ReasonForError e = Invalid)"

lemmas error_reason_defs = IsNotFound_def IsAlreadyExists_def IsInvalid_def

lemma IsNotFound_simps [simp]:
  "IsNotFound (APIError r m) = (r = NotFound)"
  "\<not> IsNotFound (PlainError m)"
  "\<not> IsNotFound (WrapError m e)"
  by (simp_all add: IsNotFound_def)

lemma IsInvalid_simps [simp]:
  "IsInvalid (APIError r m) = (r = Invalid)"
  "\<not> IsInvalid (PlainError m)"
  "\<not> IsInvalid (WrapError m e)"
  by (simp_all add: IsInvalid_def)

lemma IsAlreadyExists_simps [simp]:
  "IsAlreadyExists (APIError r m) = (r = AlreadyExists)"
  "\<not> IsAlreadyExists (PlainError m)"
  "\<not> IsAlreadyExists (WrapError m e)"
  by (simp_all add: IsAlreadyExists_def)

lemma reason_exclusive: "IsNotFound e \<Longrightarrow> \<not> IsInvalid e \<and> \<not> IsAlreadyExists e"
  by (simp add: error_reason_defs)

datatype 'a res = Ok 'a | Err go_error | Panic string

fun is_ok :: "'a res \<Rightarrow> bool" where
  "is_ok (Ok a) = True"
| "is_ok (Err e) = False"
| "is_ok (Panic p) = False"

lemma is_okE: "is_ok r \<Longrightarrow> (\<And>v. r = Ok v \<Longrightarrow> thesis) \<Longrightarrow> thesis"
  by (cases r) auto

fun is_panic :: "'a res \<Rightarrow> bool" where
  "is_panic (Panic p) = True"
| "is_panic r = False"

text \<open>\<open>if err != nil { return err }\<close> for pure code.\<close>

fun res_bind :: "'a res \<Rightarrow> ('a \<Rightarrow> 'b res) \<Rightarrow> 'b res" where
  "res_bind (Ok a) f = f a"
| "res_bind (Err e) f = Err e"
| "res_bind (Panic p) f = Panic p"

fun res_map :: "('a \<Rightarrow> 'b) \<Rightarrow> 'a res \<Rightarrow> 'b res" where
  "res_map f (Ok a) = Ok (f a)"
| "res_map f (Err e) = Err e"
| "res_map f (Panic p) = Panic p"

lemma res_bind_assoc: "res_bind (res_bind r f) g = res_bind r (\<lambda>a. res_bind (f a) g)"
  by (cases r) auto

lemma res_bind_Ok_right [simp]: "res_bind r Ok = r"
  by (cases r) auto

lemma res_bind_eq_Ok: "res_bind r f = Ok b \<longleftrightarrow> (\<exists>a. r = Ok a \<and> f a = Ok b)"
  by (cases r) auto

lemma res_map_eq_Ok: "res_map f r = Ok b \<longleftrightarrow> (\<exists>a. r = Ok a \<and> b = f a)"
  by (cases r) auto

lemma Ok_eq_res_map: "Ok b = res_map f r \<longleftrightarrow> (\<exists>a. r = Ok a \<and> b = f a)"
  and Ok_eq_res_bind: "Ok b = res_bind r g \<longleftrightarrow> (\<exists>a. r = Ok a \<and> g a = Ok b)"
  by (cases r; auto)+

lemma res_map_eq_Err: "res_map f r = Err e \<longleftrightarrow> r = Err e"
  by (cases r) auto

lemma is_panic_res_map [simp]: "is_panic (res_map f r) = is_panic r"
  by (cases r) auto

text \<open>A result of code outside the repository: it cannot panic the operator.\<close>

fun of_sum :: "go_error + 'a \<Rightarrow> 'a res" where
  "of_sum (Inl e) = Err e"
| "of_sum (Inr a) = Ok a"

lemma of_sum_not_panic [simp]: "of_sum r \<noteq> Panic p" "\<not> is_panic (of_sum r)"
  by (cases r; simp)+

lemma of_sum_eq_Ok [simp]: "of_sum r = Ok a \<longleftrightarrow> r = Inr a"
  by (cases r) auto

text \<open>A loop over a slice with an accumulator, left at the first error.\<close>

fun res_fold :: "('a \<Rightarrow> 'b \<Rightarrow> 'b res) \<Rightarrow> 'a list \<Rightarrow> 'b \<Rightarrow> 'b res" where
  "res_fold f [] b = Ok b"
| "res_fold f (x # xs) b = res_bind (f x b) (res_fold f xs)"

text \<open>A loop that rebuilds every element of a slice, left at the first error.\<close>

fun res_mapM :: "('a \<Rightarrow> 'b res) \<Rightarrow> 'a list \<Rightarrow> 'b list res" where
  "res_mapM f [] = Ok []"
| "res_mapM f (x # xs) = res_bind (f x) (\<lambda>y. res_bind (res_mapM f xs) (\<lambda>ys. Ok (y # ys)))"

lemma res_mapM_Ok_iff:
  "res_mapM f xs = Ok ys \<longleftrightarrow> list_all2 (\<lambda>x y. f x = Ok y) xs ys"
  by (induction xs arbitrary: ys) (auto simp: res_bind_eq_Ok list_all2_Cons1)

lemma res_mapM_append:
  "res_mapM f (xs @ ys) =
     res_bind (res_mapM f xs) (\<lambda>us. res_bind (res_mapM f ys) (\<lambda>vs. Ok (us @ vs)))"
  by (induction xs) (auto simp: res_bind_assoc)

lemma res_fold_append:
  "res_fold f (xs @ ys) b = res_bind (res_fold f xs b) (res_fold f ys)"
proof (induction xs arbitrary: b)
  case (Cons x xs)
  have "res_fold f (xs @ ys) = (\<lambda>b. res_bind (res_fold f xs b) (res_fold f ys))"
    by (rule ext) (rule Cons.IH)
  then show ?case by (simp add: res_bind_assoc)
qed simp

section \<open>Programs with effects\<close>

type_synonym ('s, 'a) go = "'s \<Rightarrow> 'a res \<times> 's"

definition go_return :: "'a \<Rightarrow> ('s, 'a) go" where
  "go_return a = (\<lambda>s. (Ok a, s))"

definition go_fail :: "go_error \<Rightarrow> ('s, 'a) go" where
  "go_fail e = (\<lambda>s. (Err e, s))"

definition go_panic :: "string \<Rightarrow> ('s, 'a) go" where
  "go_panic p = (\<lambda>s. (Panic p, s))"

definition go_lift :: "'a res \<Rightarrow> ('s, 'a) go" where
  "go_lift r = (\<lambda>s. (r, s))"

definition go_get :: "('s \<Rightarrow> 'a) \<Rightarrow> ('s, 'a) go" where
  "go_get f = (\<lambda>s. (Ok (f s), s))"

definition go_modify :: "('s \<Rightarrow> 's) \<Rightarrow> ('s, unit) go" where
  "go_modify f = (\<lambda>s. (Ok (), f s))"

text \<open>
  \<open>x, err := m\<close> followed by an inspection of \<open>err\<close>: \<open>go_catch m h f\<close> runs \<open>h\<close> on an error and
  \<open>f\<close> on a value.  \<open>go_bind\<close> returns the error unchanged.
\<close>

definition go_catch ::
  "('s, 'a) go \<Rightarrow> (go_error \<Rightarrow> ('s, 'b) go) \<Rightarrow> ('a \<Rightarrow> ('s, 'b) go) \<Rightarrow> ('s, 'b) go" where
  "go_catch m h f = (\<lambda>s. case m s of
       (Ok a, s') \<Rightarrow> f a s'
     | (Err e, s') \<Rightarrow> h e s'
     | (Panic p, s') \<Rightarrow> (Panic p, s'))"

definition go_bind :: "('s, 'a) go \<Rightarrow> ('a \<Rightarrow> ('s, 'b) go) \<Rightarrow> ('s, 'b) go" where
  "go_bind m f = go_catch m go_fail f"

text \<open>\<open>_ = m\<close>: the error is dropped.\<close>

definition go_ignore :: "('s, 'a) go \<Rightarrow> ('s, unit) go" where
  "go_ignore m = go_catch m (\<lambda>e. go_return ()) (\<lambda>a. go_return ())"

text \<open>\<open>for _, x := range xs { if err := f(x); err != nil { return err } }\<close>\<close>

fun go_foreach :: "('a \<Rightarrow> ('s, unit) go) \<Rightarrow> 'a list \<Rightarrow> ('s, unit) go" where
  "go_foreach f [] = go_return ()"
| "go_foreach f (x # xs) = go_bind (f x) (\<lambda>u. go_foreach f xs)"

lemmas go_defs =
  go_return_def go_fail_def go_panic_def go_lift_def go_get_def go_modify_def
  go_catch_def go_bind_def go_ignore_def

lemma go_catch_return [simp]: "go_catch (go_return a) h f = f a"
  and go_catch_fail [simp]: "go_catch (go_fail e) h f = h e"
  and go_catch_panic [simp]: "go_catch (go_panic p) h f = go_panic p"
  and go_catch_Ok [simp]: "go_catch (go_lift (Ok a)) h f = f a"
  and go_catch_Err [simp]: "go_catch (go_lift (Err e)) h f = h e"
  and go_catch_Panic [simp]: "go_catch (go_lift (Panic p)) h f = go_panic p"
  by (simp_all add: go_defs)

lemma go_bind_return [simp]: "go_bind (go_return a) f = f a"
  and go_bind_fail [simp]: "go_bind (go_fail e) f = go_fail e"
  and go_bind_panic [simp]: "go_bind (go_panic p) f = go_panic p"
  by (simp_all add: go_bind_def)

lemma go_catch_eq_cases:
  "go_catch m h f s = (case m s of
       (Ok a, s') \<Rightarrow> f a s'
     | (Err e, s') \<Rightarrow> h e s'
     | (Panic p, s') \<Rightarrow> (Panic p, s'))"
  by (simp add: go_catch_def)

lemma go_bind_eq_cases:
  "go_bind m f s = (case m s of
       (Ok a, s') \<Rightarrow> f a s'
     | (Err e, s') \<Rightarrow> (Err e, s')
     | (Panic p, s') \<Rightarrow> (Panic p, s'))"
  by (simp add: go_defs split: prod.split res.split)

lemma go_bind_assoc: "go_bind (go_bind m f) g = go_bind m (\<lambda>a. go_bind (f a) g)"
  by (rule ext) (simp add: go_bind_eq_cases split: prod.split res.split)

text \<open>Running one step of a program on a state where the step's outcome is known.\<close>

lemma go_catch_run_Ok: "m s = (Ok a, s') \<Longrightarrow> go_catch m h f s = f a s'"
  and go_catch_run_Err: "m s = (Err e, s') \<Longrightarrow> go_catch m h f s = h e s'"
  and go_catch_run_Panic: "m s = (Panic p, s') \<Longrightarrow> go_catch m h f s = (Panic p, s')"
  by (simp_all add: go_catch_def)

lemma go_bind_run_Ok: "m s = (Ok a, s') \<Longrightarrow> go_bind m f s = f a s'"
  and go_bind_run_Err: "m s = (Err e, s') \<Longrightarrow> go_bind m f s = (Err e, s')"
  and go_bind_run_Panic: "m s = (Panic p, s') \<Longrightarrow> go_bind m f s = (Panic p, s')"
  by (simp_all add: go_bind_eq_cases)

lemmas go_run = go_catch_run_Ok go_catch_run_Err go_catch_run_Panic
  go_bind_run_Ok go_bind_run_Err go_bind_run_Panic

lemma go_bind_Ok_iff:
  "go_bind m f s = (Ok b, s'') \<longleftrightarrow> (\<exists>a s'. m s = (Ok a, s') \<and> f a s' = (Ok b, s''))"
  by (auto simp: go_bind_eq_cases split: prod.splits res.splits)

text \<open>Every run that does not panic ends with a value for which \<open>P\<close> holds; it never ends with an error.\<close>

definition returns :: "('a \<Rightarrow> bool) \<Rightarrow> ('s, 'a) go \<Rightarrow> bool" where
  "returns P m \<longleftrightarrow> (\<forall>s s'. (\<forall>v. m s = (Ok v, s') \<longrightarrow> P v) \<and> (\<forall>e. m s \<noteq> (Err e, s')))"

lemma returnsD: "returns P m \<Longrightarrow> m s = (Ok v, s') \<Longrightarrow> P v"
  and returns_not_Err: "returns P m \<Longrightarrow> m s \<noteq> (Err e, s')"
  by (auto simp: returns_def)

lemma returns_return: "P v \<Longrightarrow> returns P (go_return v)"
  and returns_get: "(\<And>s. P (f s)) \<Longrightarrow> returns P (go_get f)"
  and returns_modify: "Q () \<Longrightarrow> returns Q (go_modify g)"
  and returns_panic: "returns P (go_panic p)"
  by (simp_all add: returns_def go_defs)

lemma returns_lift: "(\<And>v. r = Ok v \<Longrightarrow> P v) \<Longrightarrow> (\<And>e. r \<noteq> Err e) \<Longrightarrow> returns P (go_lift r)"
  by (auto simp: returns_def go_defs)

lemma returns_catch:
  "(\<And>e. returns P (h e)) \<Longrightarrow> (\<And>a. returns P (f a)) \<Longrightarrow> returns P (go_catch m h f)"
  unfolding returns_def go_catch_def by (auto split: prod.splits res.splits)

lemma returns_bind:
  assumes "returns Q m" and "\<And>a. Q a \<Longrightarrow> returns P (f a)"
  shows "returns P (go_bind m f)"
proof -
  have "P v" if "go_bind m f s = (Ok v, s')" for s v s'
    using that assms by (auto simp: go_bind_Ok_iff dest!: returnsD)
  moreover have "go_bind m f s \<noteq> (Err e, s')" for s e s'
    using assms returnsD [OF assms(1)] returns_not_Err [OF assms(1)] returns_not_Err [OF assms(2)]
    by (cases "m s") (auto simp: go_bind_eq_cases split: res.split)
  ultimately show ?thesis by (simp add: returns_def)
qed

lemma returns_ignore: "returns (\<lambda>u. True) (go_ignore m)"
  unfolding go_ignore_def by (intro returns_catch returns_return TrueI)

lemma returns_weaken: "returns P m \<Longrightarrow> (\<And>v. P v \<Longrightarrow> Q v) \<Longrightarrow> returns Q m"
  by (auto simp: returns_def)

lemma returns_If: "(b \<Longrightarrow> returns P m) \<Longrightarrow> (\<not> b \<Longrightarrow> returns P n) \<Longrightarrow> returns P (if b then m else n)"
  by simp

section \<open>Relations every step of a program respects\<close>

locale step_relation =
  fixes R :: "'s \<Rightarrow> 's \<Rightarrow> bool"
  assumes refl: "R s s"
    and trans: "R s t \<Longrightarrow> R t u \<Longrightarrow> R s u"
begin

definition keeps :: "('s, 'a) go \<Rightarrow> bool" where
  "keeps m \<longleftrightarrow> (\<forall>s. R s (snd (m s)))"

lemma keepsI: "(\<And>s. R s (snd (m s))) \<Longrightarrow> keeps m"
  by (simp add: keeps_def)

lemma keepsD: "keeps m \<Longrightarrow> m s = (r, s') \<Longrightarrow> R s s'"
  by (metis keeps_def snd_conv)

lemma keeps_return: "keeps (go_return a)"
  and keeps_fail: "keeps (go_fail e)"
  and keeps_panic: "keeps (go_panic p)"
  and keeps_lift: "keeps (go_lift r)"
  and keeps_get: "keeps (go_get f)"
  by (simp_all add: keeps_def go_defs refl)

lemma keeps_catch:
  assumes "keeps m" and "\<And>e. keeps (h e)" and "\<And>a. keeps (f a)"
  shows "keeps (go_catch m h f)"
proof (rule keepsI)
  fix s
  obtain r s' where m: "m s = (r, s')" by (cases "m s")
  from assms(1) m have "R s s'" by (rule keepsD)
  moreover have "R s' (snd (go_catch m h f s))"
    using assms(2,3) m by (cases r) (auto simp: go_catch_def keeps_def refl)
  ultimately show "R s (snd (go_catch m h f s))" by (rule trans)
qed

lemma keeps_bind:
  assumes "keeps m" and "\<And>a. keeps (f a)"
  shows "keeps (go_bind m f)"
  unfolding go_bind_def by (intro keeps_catch keeps_fail assms)

lemma keeps_ignore: "keeps m \<Longrightarrow> keeps (go_ignore m)"
  unfolding go_ignore_def by (intro keeps_catch keeps_return)

lemma keeps_foreach:
  assumes "\<And>x. x \<in> set xs \<Longrightarrow> keeps (f x)"
  shows "keeps (go_foreach f xs)"
  using assms by (induction xs) (auto intro: keeps_return keeps_bind)

lemma keeps_If: "(b \<Longrightarrow> keeps m) \<Longrightarrow> (\<not> b \<Longrightarrow> keeps n) \<Longrightarrow> keeps (if b then m else n)"
  by simp

lemmas keeps_intros =
  keeps_return keeps_fail keeps_panic keeps_lift keeps_get
  keeps_catch keeps_bind keeps_ignore keeps_foreach keeps_If

end

section \<open>Association lists as Go maps\<close>

text \<open>
  A Go map is an association list with one entry per key; \<open>map_of\<close> reads it, \<open>AList.update\<close> and
  \<open>AList.delete\<close> write it.  The order of the entries stands for the unspecified iteration order of
  Go, so a statement about a map that is iterated holds for every order of its entries.
\<close>

type_synonym ('k, 'v) gomap = "('k \<times> 'v) list"

definition wf_map :: "('k, 'v) gomap \<Rightarrow> bool" where
  "wf_map m = distinct (map fst m)"

lemma wf_map_update [simp]: "wf_map m \<Longrightarrow> wf_map (AList.update k v m)"
  by (simp add: wf_map_def AList.distinct_update)

lemma wf_map_delete [simp]: "wf_map m \<Longrightarrow> wf_map (AList.delete k m)"
  by (simp add: wf_map_def AList.distinct_delete)

lemma map_of_update [simp]: "map_of (AList.update k v m) = (map_of m)(k \<mapsto> v)"
  by (rule update_conv')

lemma map_of_delete [simp]: "map_of (AList.delete k m) = (map_of m)(k := None)"
  by (rule delete_conv')

lemma update_idem: "map_of m k = Some v \<Longrightarrow> AList.update k v m = m"
  by (induction m) (auto split: if_splits)

lemma set_update_subset: "set (AList.update k v m) \<subseteq> insert (k, v) (set m)"
  by (induction m) auto

lemma update_twice: "AList.update k v (AList.update k w m) = AList.update k v m"
  by (induction m) auto

end
