(* ===== verification/GoStrings.thy ===== *)
theory GoStrings imports Prelude "HOL-Library.Sublist" begin

text \<open>
  The functions of Go's package \<open>strings\<close> the operator calls, on byte strings.  \<open>ToLower\<close> maps the
  ASCII letters; the names, environment variables and kinds it is applied to are ASCII.  \<open>Split\<close>
  and \<open>ReplaceAll\<close> are modelled for the one-byte separators the source uses.
\<close>

definition lower_char :: "char \<Rightarrow> char" where
  "lower_char c = (let n = (of_char c :: nat) in
     if 65 \<le> n \<and> n \<le> 90 then char_of (n + 32) else c)"

definition ToLower :: "string \<Rightarrow> string" where
  "ToLower s = List.map lower_char s"

definition ReplaceAll :: "string \<Rightarrow> char \<Rightarrow> char \<Rightarrow> string" where
  "ReplaceAll s old new = List.map (\<lambda>c. if c = old then new else c) s"

fun Split :: "string \<Rightarrow> char \<Rightarrow> string list" where
  "Split [] sep = [[]]"
| "Split (c # cs) sep =
     (if c = sep then [] # Split cs sep
      else (case Split cs sep of [] \<Rightarrow> [[c]] | w # ws \<Rightarrow> (c # w) # ws))"

fun Join :: "string list \<Rightarrow> string \<Rightarrow> string" where
  "Join [] sep = []"
| "Join [w] sep = w"
| "Join (w # ws) sep = w @ sep @ Join ws sep"

definition HasPrefix :: "string \<Rightarrow> string \<Rightarrow> bool" where
  "HasPrefix s p = prefix p s"

definition TrimPrefix :: "string \<Rightarrow> string \<Rightarrow> string" where
  "TrimPrefix s p = (if prefix p s then drop (length p) s else s)"

definition TrimSuffix :: "string \<Rightarrow> string \<Rightarrow> string" where
  "TrimSuffix s p = (if suffix p s then take (length s - length p) s else s)"

text \<open>The verb \<open>%q\<close> of \<open>fmt\<close> on a text without quotes and control characters.\<close>

definition quoted :: "string \<Rightarrow> string" where
  "quoted s = [CHR 0x22] @ s @ [CHR 0x22]"

section \<open>Case folding and replacement\<close>

lemma of_char_lower_char:
  "(of_char (lower_char c) :: nat) =
     (if 65 \<le> (of_char c :: nat) \<and> (of_char c :: nat) \<le> 90 then of_char c + 32 else of_char c)"
  by (simp add: lower_char_def Let_def)

lemma lower_char_idem [simp]: "lower_char (lower_char c) = lower_char c"
  using of_char_lower_char [of c] by (auto simp: lower_char_def [of "lower_char c"] Let_def)

lemma lower_char_eq_fix:
  assumes "\<not> (97 \<le> (of_char d :: nat) \<and> (of_char d :: nat) \<le> 122)"
    and "\<not> (65 \<le> (of_char d :: nat) \<and> (of_char d :: nat) \<le> 90)"
  shows "lower_char c = d \<longleftrightarrow> c = d"
proof
  assume eq: "lower_char c = d"
  then have "(of_char d :: nat) = of_char (lower_char c)" by simp
  with assms have "\<not> (65 \<le> (of_char c :: nat) \<and> (of_char c :: nat) \<le> 90)"
    unfolding of_char_lower_char by (auto split: if_splits)
  with eq show "c = d" by (simp add: lower_char_def Let_def split: if_splits)
next
  assume "c = d"
  with assms(2) show "lower_char c = d" unfolding lower_char_def Let_def by (metis (full_types))
qed

lemma lower_char_dash [simp]: "lower_char c = CHR ''-'' \<longleftrightarrow> c = CHR ''-''"
  and lower_char_underscore [simp]: "lower_char c = CHR ''_'' \<longleftrightarrow> c = CHR ''_''"
  and lower_char_equals [simp]: "lower_char c = CHR ''='' \<longleftrightarrow> c = CHR ''=''"
  by (simp_all add: lower_char_eq_fix)

lemma ToLower_Nil [simp]: "ToLower [] = []"
  and ToLower_append [simp]: "ToLower (s @ t) = ToLower s @ ToLower t"
  and ToLower_idem [simp]: "ToLower (ToLower s) = ToLower s"
  and length_ToLower [simp]: "length (ToLower s) = length s"
  by (simp_all add: ToLower_def)

lemma ReplaceAll_append: "ReplaceAll (s @ t) a b = ReplaceAll s a b @ ReplaceAll t a b"
  by (simp add: ReplaceAll_def)

lemma ReplaceAll_removes: "a \<noteq> b \<Longrightarrow> a \<notin> set (ReplaceAll s a b)"
  by (auto simp: ReplaceAll_def split: if_splits)

lemma ReplaceAll_id: "a \<notin> set s \<Longrightarrow> ReplaceAll s a b = s"
  unfolding ReplaceAll_def by (rule map_idI) auto

lemma ReplaceAll_idem: "a \<noteq> b \<Longrightarrow> ReplaceAll (ReplaceAll s a b) a b = ReplaceAll s a b"
  by (rule ReplaceAll_id) (rule ReplaceAll_removes)

lemma ToLower_ReplaceAll_dash:
  "ToLower (ReplaceAll s (CHR ''-'') (CHR ''_'')) = ReplaceAll (ToLower s) (CHR ''-'') (CHR ''_'')"
proof -
  have "lower_char (CHR ''_'') = CHR ''_''" by simp
  then show ?thesis by (auto simp: ToLower_def ReplaceAll_def)
qed

section \<open>Splitting\<close>

lemma Split_not_Nil [simp]: "Split s sep \<noteq> []"
  by (induction s) (auto split: list.splits)

lemma Split_no_sep: "sep \<notin> set s \<Longrightarrow> Split s sep = [s]"
  by (induction s) (auto split: list.splits)

lemma Split_append_sep: "sep \<notin> set a \<Longrightarrow> Split (a @ sep # b) sep = a # Split b sep"
  by (induction a) (auto split: list.splits)

lemma Split_parts: "w \<in> set (Split s sep) \<Longrightarrow> sep \<notin> set w"
  by (induction s arbitrary: w) (auto split: list.splits if_splits)

lemma length_Split: "length (Split s sep) = Suc (count_list s sep)"
  by (induction s) (auto split: list.splits)

lemma Join_Cons: "ws \<noteq> [] \<Longrightarrow> Join (w # ws) sep = w @ sep @ Join ws sep"
  by (cases ws) auto

lemma Join_Cons_char: "Join ((c # w) # ws) sep = c # Join (w # ws) sep"
  by (cases ws) auto

lemma Join_Split: "Join (Split s sep) [sep] = s"
proof (induction s)
  case (Cons c cs)
  then show ?case
    by (cases "Split cs sep") (auto simp: Join_Cons Join_Cons_char)
qed simp

lemma Split_two:
  "Split s sep = [a, b] \<longleftrightarrow> s = a @ sep # b \<and> sep \<notin> set a \<and> sep \<notin> set b"
proof
  assume sp: "Split s sep = [a, b]"
  have "s = Join (Split s sep) [sep]" by (simp add: Join_Split)
  with sp have "s = a @ sep # b" by simp
  moreover from sp Split_parts [of _ s sep] have "sep \<notin> set a" "sep \<notin> set b" by auto
  ultimately show "s = a @ sep # b \<and> sep \<notin> set a \<and> sep \<notin> set b" by blast
next
  assume "s = a @ sep # b \<and> sep \<notin> set a \<and> sep \<notin> set b"
  then show "Split s sep = [a, b]" by (simp add: Split_append_sep Split_no_sep)
qed

section \<open>Prefixes and suffixes\<close>

lemma HasPrefix_append [simp]: "HasPrefix (p @ s) p"
  by (simp add: HasPrefix_def)

lemma TrimPrefix_append [simp]: "TrimPrefix (p @ s) p = s"
  by (simp add: TrimPrefix_def)

lemma TrimSuffix_append [simp]: "TrimSuffix (s @ p) p = s"
  by (simp add: TrimSuffix_def suffix_def)

lemma TrimPrefix_restore: "HasPrefix s p \<Longrightarrow> p @ TrimPrefix s p = s"
  by (auto simp: HasPrefix_def TrimPrefix_def prefix_def)

end
