(* ===== verification/Unstructured.thy ===== *)
theory Unstructured imports GoStrings begin

text \<open>
  Kubernetes objects as the operator handles them: the type \<open>unstructured.Unstructured\<close> and the
  accessors of \<open>k8s.io/apimachinery/pkg/apis/meta/v1/unstructured\<close> (helpers.go, unstructured.go)
  that the transformers and the addons generator call.

  A JSON value is a finite tree without sharing: manifests are parsed from YAML or deep copied
  before they are changed, so an update through a reference into an object
  (\<open>NestedFieldNoCopy\<close> followed by an assignment) is \<open>update_at\<close> on the object's tree.  A float is
  carried as its text; no operation reads it.  A nil \<open>Object\<close> does not occur.

  The locale \<open>object_field\<close> is the interface of a field of the object's metadata (or of its kind):
  a getter, a setter and the laws that clients rely on; it is interpreted for every field the
  operator writes.
\<close>

section \<open>JSON values\<close>

datatype json =
    JNull
  | JBool bool
  | JInt int
  | JFloat string
  | JStr string
  | JList "json list"
  | JObj "(string \<times> json) list"

type_synonym obj = "(string \<times> json) list"

fun is_str :: "json \<Rightarrow> bool" where
  "is_str (JStr s) = True"
| "is_str v = False"

definition jsonPath :: "string list \<Rightarrow> string" where
  "jsonPath fields = ''.'' @ Join fields ''.''"

section \<open>Reading nested fields\<close>

text \<open>
  The loop of \<open>NestedFieldNoCopy\<close>: \<open>Ok None\<close> is \<open>(nil, false, nil)\<close>, \<open>Ok (Some v)\<close> is
  \<open>(v, true, nil)\<close>.  The second argument is the part of the path already walked; the value the
  error message prints after the path is left out.
\<close>

fun nested_walk :: "json \<Rightarrow> string list \<Rightarrow> string list \<Rightarrow> json option res" where
  "nested_walk val walked [] = Ok (Some val)"
| "nested_walk val walked (field # fields) = (case val of
     JNull \<Rightarrow> Ok None
   | JObj m \<Rightarrow> (case map_of m field of
       None \<Rightarrow> Ok None
     | Some val' \<Rightarrow> nested_walk val' (walked @ [field]) fields)
   | _ \<Rightarrow> Err (PlainError (jsonPath (walked @ [field]) @ '' accessor error: expected map[string]interface{}'')))"

definition NestedFieldNoCopy :: "obj \<Rightarrow> string list \<Rightarrow> json option res" where
  "NestedFieldNoCopy obj fields = nested_walk (JObj obj) [] fields"

definition accessor_error :: "string list \<Rightarrow> string \<Rightarrow> go_error" where
  "accessor_error fields expected = PlainError (jsonPath fields @ '' accessor error: expected '' @ expected)"

definition NestedString :: "obj \<Rightarrow> string list \<Rightarrow> string option res" where
  "NestedString obj fields = res_bind (NestedFieldNoCopy obj fields) (\<lambda>found. case found of
     None \<Rightarrow> Ok None
   | Some (JStr s) \<Rightarrow> Ok (Some s)
   | Some v \<Rightarrow> Err (accessor_error fields ''string''))"

definition NestedSlice :: "obj \<Rightarrow> string list \<Rightarrow> json list option res" where
  "NestedSlice obj fields = res_bind (NestedFieldNoCopy obj fields) (\<lambda>found. case found of
     None \<Rightarrow> Ok None
   | Some (JList xs) \<Rightarrow> Ok (Some xs)
   | Some v \<Rightarrow> Err (accessor_error fields ''[]interface{}''))"

text \<open>The loop of \<open>NestedStringMap\<close> over the entries of the map.\<close>

fun string_entries :: "obj \<Rightarrow> (string, string) gomap option" where
  "string_entries [] = Some []"
| "string_entries ((k, v) # m) = (case v of
     JStr s \<Rightarrow> map_option (\<lambda>r. (k, s) # r) (string_entries m)
   | _ \<Rightarrow> None)"

definition NestedStringMap :: "obj \<Rightarrow> string list \<Rightarrow> (string, string) gomap option res" where
  "NestedStringMap obj fields = res_bind (NestedFieldNoCopy obj fields) (\<lambda>found. case found of
     None \<Rightarrow> Ok None
   | Some (JObj m) \<Rightarrow> (case string_entries m of
       Some strMap \<Rightarrow> Ok (Some strMap)
     | None \<Rightarrow> Err (accessor_error fields ''string''))
   | Some v \<Rightarrow> Err (accessor_error fields ''map[string]interface{}''))"

definition getNestedString :: "obj \<Rightarrow> string list \<Rightarrow> string" where
  "getNestedString obj fields = (case NestedString obj fields of Ok (Some s) \<Rightarrow> s | _ \<Rightarrow> [])"

section \<open>Writing nested fields\<close>

text \<open>
  \<open>setNestedFieldNoCopy\<close> creates the maps that are missing on the way.  A level that is there and is
  not a map (nil included) is an error, found before anything is written.
\<close>

fun set_nested :: "obj \<Rightarrow> json \<Rightarrow> string list \<Rightarrow> string list \<Rightarrow> obj res" where
  "set_nested m value walked [] = Panic ''slice bounds out of range''"
| "set_nested m value walked [field] = Ok (AList.update field value m)"
| "set_nested m value walked (field # fields) = (case map_of m field of
     Some (JObj valMap) \<Rightarrow>
       res_map (\<lambda>m'. AList.update field (JObj m') m) (set_nested valMap value (walked @ [field]) fields)
   | Some v \<Rightarrow> Err (PlainError (''value cannot be set because '' @ jsonPath (walked @ [field])
                                  @ '' is not a map[string]interface{}''))
   | None \<Rightarrow>
       res_map (\<lambda>m'. AList.update field (JObj m') m) (set_nested [] value (walked @ [field]) fields))"

definition SetNestedField :: "obj \<Rightarrow> json \<Rightarrow> string list \<Rightarrow> obj res" where
  "SetNestedField obj value fields = set_nested obj value [] fields"

definition string_map_json :: "(string, string) gomap \<Rightarrow> json" where
  "string_map_json value = JObj (List.map (\<lambda>(k, v). (k, JStr v)) value)"

definition SetNestedStringMap :: "obj \<Rightarrow> (string, string) gomap \<Rightarrow> string list \<Rightarrow> obj res" where
  "SetNestedStringMap obj value fields = set_nested obj (string_map_json value) [] fields"

fun RemoveNestedField :: "obj \<Rightarrow> string list \<Rightarrow> obj" where
  "RemoveNestedField m [] = m"
| "RemoveNestedField m [field] = AList.delete field m"
| "RemoveNestedField m (field # fields) = (case map_of m field of
     Some (JObj x) \<Rightarrow> AList.update field (JObj (RemoveNestedField x fields)) m
   | _ \<Rightarrow> m)"

text \<open>
  The methods of \<open>Unstructured\<close> that write a field drop the error of \<open>SetNestedField\<close>, so they leave
  the object as it is when its metadata is not a map.
\<close>

definition or_unchanged :: "obj \<Rightarrow> obj res \<Rightarrow> obj" where
  "or_unchanged u r = (case r of Ok u' \<Rightarrow> u' | _ \<Rightarrow> u)"

text \<open>An assignment through a reference that \<open>NestedFieldNoCopy\<close> returned.\<close>

fun map_at :: "(json \<Rightarrow> json) \<Rightarrow> json \<Rightarrow> string list \<Rightarrow> json" where
  "map_at f v [] = f v"
| "map_at f v (k # ks) = (case v of
     JObj m \<Rightarrow> (case map_of m k of
       Some v' \<Rightarrow> JObj (AList.update k (map_at f v' ks) m)
     | None \<Rightarrow> v)
   | _ \<Rightarrow> v)"

definition update_at :: "obj \<Rightarrow> string list \<Rightarrow> (json \<Rightarrow> json) \<Rightarrow> obj" where
  "update_at u fields f = (case map_at f (JObj u) fields of JObj u' \<Rightarrow> u' | _ \<Rightarrow> u)"

section \<open>Laws of the accessors\<close>

text \<open>Two paths that part at some key before either ends.\<close>

fun diverge :: "string list \<Rightarrow> string list \<Rightarrow> bool" where
  "diverge (a # as) (b # bs) = (a \<noteq> b \<or> diverge as bs)"
| "diverge as bs = False"

text \<open>The condition under which \<open>setNestedFieldNoCopy\<close> succeeds.\<close>

fun settable :: "obj \<Rightarrow> string list \<Rightarrow> bool" where
  "settable m [] = False"
| "settable m [field] = True"
| "settable m (field # fields) = (case map_of m field of
     None \<Rightarrow> True
   | Some (JObj x) \<Rightarrow> settable x fields
   | Some v \<Rightarrow> False)"

lemma settable_Nil [simp]: "fields \<noteq> [] \<Longrightarrow> settable [] fields"
  by (cases "([] :: obj, fields)" rule: settable.cases) auto

lemma set_nested_Ok_iff: "(\<exists>m'. set_nested m v walked fields = Ok m') \<longleftrightarrow> settable m fields"
proof (induction m v walked fields rule: set_nested.induct)
  case (3 m v walked field field' fields)
  show ?case
  proof (cases "map_of m field")
    case None
    with 3 show ?thesis by (auto simp: res_map_eq_Ok)
  next
    case (Some w)
    with 3 show ?thesis by (cases w) (auto simp: res_map_eq_Ok)
  qed
qed auto

lemma set_nested_cases:
  assumes "set_nested m v walked (f # g # fs) = Ok m'"
  obtains x x' where "map_of m f = Some (JObj x) \<or> map_of m f = None \<and> x = []"
    and "set_nested x v (walked @ [f]) (g # fs) = Ok x'" and "m' = AList.update f (JObj x') m"
  using assms by (auto simp: res_map_eq_Ok split: option.splits json.splits)

lemma nested_walk_set:
  "set_nested m v walked fields = Ok m' \<Longrightarrow> nested_walk (JObj m') w fields = Ok (Some v)"
proof (induction fields arbitrary: m m' walked w)
  case (Cons f fs)
  show ?case
  proof (cases fs)
    case Nil
    with Cons.prems show ?thesis by auto
  next
    case (Cons g gs)
    with Cons.prems obtain x x' where "set_nested x v (walked @ [f]) fs = Ok x'"
      and "m' = AList.update f (JObj x') m" by (metis set_nested_cases)
    then show ?thesis using Cons.IH by simp
  qed
qed simp

lemma nested_walk_empty: "fields \<noteq> [] \<Longrightarrow> nested_walk (JObj []) w fields = Ok None"
  by (cases fields) auto

lemma nested_walk_set_diverge:
  "set_nested m v walked fields = Ok m' \<Longrightarrow> diverge fields gs \<Longrightarrow>
   nested_walk (JObj m') w gs = nested_walk (JObj m) w gs"
proof (induction fields arbitrary: m m' walked w gs)
  case (Cons f fs)
  from Cons.prems(2) obtain g gs' where gs: "gs = g # gs'" by (cases gs) auto
  show ?case
  proof (cases fs)
    case Nil
    with Cons.prems gs show ?thesis by auto
  next
    case fs: (Cons f2 fs2)
    with Cons.prems(1) obtain x x' where x: "map_of m f = Some (JObj x) \<or> map_of m f = None \<and> x = []"
      and s: "set_nested x v (walked @ [f]) fs = Ok x'" and m': "m' = AList.update f (JObj x') m"
      by (metis set_nested_cases)
    show ?thesis
    proof (cases "f = g")
      case True
      with Cons.prems(2) gs have d: "diverge fs gs'" by simp
      then have "gs' \<noteq> []" by (cases fs) auto
      with Cons.IH [OF s d] x m' gs True show ?thesis by (auto simp: nested_walk_empty)
    next
      case False
      with m' gs show ?thesis by simp
    qed
  qed
qed simp

lemma settable_set_diverge:
  "set_nested m v walked fields = Ok m' \<Longrightarrow> diverge fields gs \<Longrightarrow> settable m' gs = settable m gs"
proof (induction fields arbitrary: m m' walked gs)
  case (Cons f fs)
  from Cons.prems(2) obtain g gs' where gs: "gs = g # gs'" by (cases gs) auto
  show ?case
  proof (cases gs')
    case Nil
    with gs show ?thesis by simp
  next
    case gs': (Cons g2 gs2)
    show ?thesis
    proof (cases fs)
      case Nil
      with Cons.prems gs gs' show ?thesis by auto
    next
      case (Cons f2 fs2)
      with Cons.prems(1) obtain x x' where x: "map_of m f = Some (JObj x) \<or> map_of m f = None \<and> x = []"
        and s: "set_nested x v (walked @ [f]) fs = Ok x'" and m': "m' = AList.update f (JObj x') m"
        by (metis set_nested_cases)
      show ?thesis
      proof (cases "f = g")
        case True
        with Cons.prems(2) gs have "diverge fs gs'" by simp
        from Cons.IH [OF s this] x m' gs gs' True show ?thesis by auto
      next
        case False
        with m' gs gs' show ?thesis by simp
      qed
    qed
  qed
qed simp

lemma set_nested_set:
  "set_nested m v walked fields = Ok m' \<Longrightarrow> set_nested m' u w fields = set_nested m u w fields"
proof (induction fields arbitrary: m m' walked w)
  case (Cons f fs)
  show ?case
  proof (cases fs)
    case Nil
    with Cons.prems show ?thesis by (auto simp: update_twice)
  next
    case fs: (Cons f2 fs2)
    with Cons.prems(1) obtain x x' where x: "map_of m f = Some (JObj x) \<or> map_of m f = None \<and> x = []"
      and s: "set_nested x v (walked @ [f]) fs = Ok x'" and m': "m' = AList.update f (JObj x') m"
      by (metis set_nested_cases)
    from Cons.IH [OF s, of "w @ [f]"] have "set_nested x' u (w @ [f]) fs = set_nested x u (w @ [f]) fs" .
    with x m' fs show ?thesis
      by (cases "set_nested x u (w @ [f]) fs") (auto simp: update_twice)
  qed
qed simp

lemma set_nested_same:
  "nested_walk (JObj m) w fields = Ok (Some v) \<Longrightarrow> fields \<noteq> [] \<Longrightarrow>
   set_nested m v walked fields = Ok m"
proof (induction fields arbitrary: m w walked)
  case (Cons f fs)
  from Cons.prems(1) obtain v' where f: "map_of m f = Some v'"
    and v': "nested_walk v' (w @ [f]) fs = Ok (Some v)" by (auto split: option.splits)
  show ?case
  proof (cases fs)
    case Nil
    with f v' show ?thesis by (simp add: update_idem)
  next
    case fs: (Cons f2 fs2)
    with v' obtain x where x: "v' = JObj x" by (cases v') auto
    with Cons.IH v' fs have "set_nested x v (walked @ [f]) fs = Ok x" by blast
    with f x fs show ?thesis by (simp add: update_idem)
  qed
qed simp

section \<open>The metadata of an object\<close>

definition GetKind :: "obj \<Rightarrow> string" where
  "GetKind u = getNestedString u [''kind'']"

definition GetAPIVersion :: "obj \<Rightarrow> string" where
  "GetAPIVersion u = getNestedString u [''apiVersion'']"

definition GetNamespace :: "obj \<Rightarrow> string" where
  "GetNamespace u = getNestedString u [''metadata'', ''namespace'']"

definition GetName :: "obj \<Rightarrow> string" where
  "GetName u = getNestedString u [''metadata'', ''name'']"

text \<open>\<open>GetLabels\<close> and \<open>GetAnnotations\<close>: \<open>None\<close> is the nil map, also when the entry is malformed.\<close>

definition GetLabels :: "obj \<Rightarrow> (string, string) gomap option" where
  "GetLabels u = (case NestedStringMap u [''metadata'', ''labels''] of Ok m \<Rightarrow> m | _ \<Rightarrow> None)"

definition GetAnnotations :: "obj \<Rightarrow> (string, string) gomap option" where
  "GetAnnotations u = (case NestedStringMap u [''metadata'', ''annotations''] of Ok m \<Rightarrow> m | _ \<Rightarrow> None)"

text \<open>Reading a key of a possibly nil map.\<close>

definition lookup_nil :: "(string, string) gomap option \<Rightarrow> string \<Rightarrow> string option" where
  "lookup_nil m k = (case m of None \<Rightarrow> None | Some kvs \<Rightarrow> map_of kvs k)"

definition SetNamespace :: "string \<Rightarrow> obj \<Rightarrow> obj" where
  "SetNamespace ns u =
     (if ns = [] then RemoveNestedField u [''metadata'', ''namespace'']
      else or_unchanged u (SetNestedField u (JStr ns) [''metadata'', ''namespace'']))"

definition SetName :: "string \<Rightarrow> obj \<Rightarrow> obj" where
  "SetName name u =
     (if name = [] then RemoveNestedField u [''metadata'', ''name'']
      else or_unchanged u (SetNestedField u (JStr name) [''metadata'', ''name'']))"

definition SetLabels :: "(string, string) gomap \<Rightarrow> obj \<Rightarrow> obj" where
  "SetLabels labels u = or_unchanged u (SetNestedStringMap u labels [''metadata'', ''labels''])"

definition SetAnnotations :: "(string, string) gomap \<Rightarrow> obj \<Rightarrow> obj" where
  "SetAnnotations annotations u =
     or_unchanged u (SetNestedStringMap u annotations [''metadata'', ''annotations''])"

lemmas getter_defs = GetKind_def GetAPIVersion_def GetNamespace_def GetName_def GetLabels_def
  GetAnnotations_def getNestedString_def NestedString_def NestedStringMap_def
lemmas setter_defs = SetNamespace_def SetName_def SetLabels_def SetAnnotations_def
  SetNestedField_def SetNestedStringMap_def

text \<open>The metadata is absent or a map: the setters of the metadata fields take effect.\<close>

definition meta_ok :: "obj \<Rightarrow> bool" where
  "meta_ok u = (case map_of u ''metadata'' of
     None \<Rightarrow> True
   | Some (JObj m) \<Rightarrow> True
   | _ \<Rightarrow> False)"

lemma settable_metadata: "settable u [''metadata'', x] = meta_ok u"
  by (auto simp: meta_ok_def split: option.split json.split)

lemma or_unchanged_simps [simp]:
  "or_unchanged u (Ok u') = u'" "or_unchanged u (Err e) = u" "or_unchanged u (Panic p) = u"
  by (simp_all add: or_unchanged_def)

declare set_nested.simps [simp del] settable.simps [simp del]

lemma NestedFieldNoCopy_put_diverge:
  "diverge fields gs \<Longrightarrow>
   NestedFieldNoCopy (or_unchanged u (set_nested u v [] fields)) gs = NestedFieldNoCopy u gs"
  by (cases "set_nested u v [] fields")
    (auto simp: NestedFieldNoCopy_def nested_walk_set_diverge)

lemma NestedFieldNoCopy_put:
  "settable u fields \<Longrightarrow>
   NestedFieldNoCopy (or_unchanged u (set_nested u v [] fields)) fields = Ok (Some v)"
  using set_nested_Ok_iff [of u v "[]" fields]
  by (auto simp: NestedFieldNoCopy_def nested_walk_set)

lemma settable_put_diverge:
  "diverge fields gs \<Longrightarrow>
   settable (or_unchanged u (set_nested u v [] fields)) gs = settable u gs"
  by (cases "set_nested u v [] fields") (auto simp: settable_set_diverge)

lemma meta_ok_put [simp]:
  "meta_ok (or_unchanged u (set_nested u v [] [''metadata'', x])) = meta_ok u"
proof -
  obtain y where "y \<noteq> x" by (cases x) auto
  with settable_put_diverge [of "[''metadata'', x]" "[''metadata'', y]" u v] show ?thesis
    by (simp add: settable_metadata)
qed

lemma put_put:
  "or_unchanged (or_unchanged u (set_nested u v [] fields))
     (set_nested (or_unchanged u (set_nested u v [] fields)) w [] fields)
   = or_unchanged u (set_nested u w [] fields)"
proof (cases "set_nested u v [] fields")
  case (Ok u')
  then have "set_nested u' w [] fields = set_nested u w [] fields" by (rule set_nested_set)
  moreover from Ok have "settable u fields" using set_nested_Ok_iff by blast
  then obtain u'' where "set_nested u w [] fields = Ok u''" using set_nested_Ok_iff by blast
  ultimately show ?thesis using Ok by simp
qed simp_all

lemma put_same:
  "NestedFieldNoCopy u fields = Ok (Some v) \<Longrightarrow> fields \<noteq> [] \<Longrightarrow>
   or_unchanged u (set_nested u v [] fields) = u"
  by (simp add: NestedFieldNoCopy_def set_nested_same)

lemma RemoveNestedField_diverge:
  "diverge fields gs \<Longrightarrow>
   nested_walk (JObj (RemoveNestedField m fields)) w gs = nested_walk (JObj m) w gs"
proof (induction m fields arbitrary: w gs rule: RemoveNestedField.induct)
  case (2 m field)
  then show ?case by (cases gs) auto
next
  case (3 m field field' fields)
  then obtain g gs' where gs: "gs = g # gs'" by (cases gs) auto
  show ?case
  proof (cases "map_of m field")
    case (Some v)
    with 3 gs show ?thesis by (cases v) auto
  qed simp
qed simp

lemma NestedFieldNoCopy_remove_diverge:
  "diverge fields gs \<Longrightarrow>
   NestedFieldNoCopy (RemoveNestedField u fields) gs = NestedFieldNoCopy u gs"
  by (simp add: NestedFieldNoCopy_def RemoveNestedField_diverge)

lemma meta_ok_remove [simp]: "meta_ok (RemoveNestedField u [''metadata'', x]) = meta_ok u"
  by (auto simp: meta_ok_def split: option.splits json.splits)

declare RemoveNestedField.simps [simp del]

text \<open>Every field the setters write leaves every other field as it was.\<close>

lemma GetKind_setters [simp]:
  "GetKind (SetNamespace ns u) = GetKind u" "GetKind (SetName n u) = GetKind u"
  "GetKind (SetLabels l u) = GetKind u" "GetKind (SetAnnotations a u) = GetKind u"
  by (simp_all add: getter_defs setter_defs NestedFieldNoCopy_put_diverge
      NestedFieldNoCopy_remove_diverge)

lemma GetAPIVersion_setters [simp]:
  "GetAPIVersion (SetNamespace ns u) = GetAPIVersion u" "GetAPIVersion (SetName n u) = GetAPIVersion u"
  "GetAPIVersion (SetLabels l u) = GetAPIVersion u"
  "GetAPIVersion (SetAnnotations a u) = GetAPIVersion u"
  by (simp_all add: getter_defs setter_defs NestedFieldNoCopy_put_diverge
      NestedFieldNoCopy_remove_diverge)

lemma GetName_setters [simp]:
  "GetName (SetNamespace ns u) = GetName u"
  "GetName (SetLabels l u) = GetName u" "GetName (SetAnnotations a u) = GetName u"
  by (simp_all add: getter_defs setter_defs NestedFieldNoCopy_put_diverge
      NestedFieldNoCopy_remove_diverge)

lemma GetNamespace_setters [simp]:
  "GetNamespace (SetName n u) = GetNamespace u"
  "GetNamespace (SetLabels l u) = GetNamespace u"
  "GetNamespace (SetAnnotations a u) = GetNamespace u"
  by (simp_all add: getter_defs setter_defs NestedFieldNoCopy_put_diverge
      NestedFieldNoCopy_remove_diverge)

lemma GetLabels_setters [simp]:
  "GetLabels (SetNamespace ns u) = GetLabels u" "GetLabels (SetName n u) = GetLabels u"
  "GetLabels (SetAnnotations a u) = GetLabels u"
  by (simp_all add: getter_defs setter_defs NestedFieldNoCopy_put_diverge
      NestedFieldNoCopy_remove_diverge)

lemma GetAnnotations_setters [simp]:
  "GetAnnotations (SetNamespace ns u) = GetAnnotations u"
  "GetAnnotations (SetName n u) = GetAnnotations u"
  "GetAnnotations (SetLabels l u) = GetAnnotations u"
  by (simp_all add: getter_defs setter_defs NestedFieldNoCopy_put_diverge
      NestedFieldNoCopy_remove_diverge)

lemma meta_ok_setters [simp]:
  "meta_ok (SetNamespace ns u) = meta_ok u" "meta_ok (SetName n u) = meta_ok u"
  "meta_ok (SetLabels l u) = meta_ok u" "meta_ok (SetAnnotations a u) = meta_ok u"
  by (simp_all add: setter_defs)

text \<open>Assignments through a reference.\<close>

lemma map_at_diverge:
  "diverge fields gs \<Longrightarrow> nested_walk (map_at f v fields) w gs = nested_walk v w gs"
proof (induction fields arbitrary: v w gs)
  case (Cons k ks)
  then obtain g gs' where gs: "gs = g # gs'" by (cases gs) auto
  show ?case
  proof (cases v)
    case (JObj m)
    with Cons gs show ?thesis by (cases "map_of m k") auto
  qed (use gs in auto)
qed simp

lemma map_at_same:
  "nested_walk v w fields = Ok (Some old) \<Longrightarrow> nested_walk (map_at f v fields) w fields = Ok (Some (f old))"
proof (induction fields arbitrary: v w)
  case (Cons k ks)
  then show ?case by (cases v) (auto split: option.splits)
qed simp

lemma map_at_id:
  "nested_walk v w fields = Ok (Some old) \<Longrightarrow> f old = old \<Longrightarrow> map_at f v fields = v"
proof (induction fields arbitrary: v w)
  case (Cons k ks)
  then show ?case by (cases v) (auto simp: update_idem split: option.splits)
qed simp

lemma map_at_obj: "fields \<noteq> [] \<Longrightarrow> \<exists>m'. map_at f (JObj m) fields = JObj m'"
  by (cases fields) (auto split: option.splits)

lemma update_at_JObj: "fields \<noteq> [] \<Longrightarrow> JObj (update_at u fields f) = map_at f (JObj u) fields"
  using map_at_obj [of fields f u] by (auto simp: update_at_def)

lemma NestedFieldNoCopy_update_at_diverge [simp]:
  "diverge fields gs \<Longrightarrow> NestedFieldNoCopy (update_at u fields f) gs = NestedFieldNoCopy u gs"
proof -
  assume d: "diverge fields gs"
  then have "fields \<noteq> []" by auto
  with d show ?thesis by (simp add: NestedFieldNoCopy_def update_at_JObj map_at_diverge)
qed

lemma NestedFieldNoCopy_update_at:
  "NestedFieldNoCopy u fields = Ok (Some old) \<Longrightarrow> fields \<noteq> [] \<Longrightarrow>
   NestedFieldNoCopy (update_at u fields f) fields = Ok (Some (f old))"
  by (simp add: NestedFieldNoCopy_def update_at_JObj map_at_same)

lemma update_at_same:
  "NestedFieldNoCopy u fields = Ok (Some old) \<Longrightarrow> fields \<noteq> [] \<Longrightarrow> f old = old \<Longrightarrow>
   update_at u fields f = u"
  using update_at_JObj [of fields u f] map_at_id [of "JObj u" "[]" fields old f]
  by (simp add: NestedFieldNoCopy_def)

text \<open>An object is determined through its getters by the fields they walk to.\<close>

lemma getters_cong:
  "NestedFieldNoCopy u [''kind''] = NestedFieldNoCopy v [''kind''] \<Longrightarrow> GetKind u = GetKind v"
  "NestedFieldNoCopy u [''apiVersion''] = NestedFieldNoCopy v [''apiVersion''] \<Longrightarrow>
   GetAPIVersion u = GetAPIVersion v"
  "NestedFieldNoCopy u [''metadata'', ''namespace''] = NestedFieldNoCopy v [''metadata'', ''namespace''] \<Longrightarrow>
   GetNamespace u = GetNamespace v"
  "NestedFieldNoCopy u [''metadata'', ''name''] = NestedFieldNoCopy v [''metadata'', ''name''] \<Longrightarrow>
   GetName u = GetName v"
  "NestedFieldNoCopy u [''metadata'', ''labels''] = NestedFieldNoCopy v [''metadata'', ''labels''] \<Longrightarrow>
   GetLabels u = GetLabels v"
  "NestedFieldNoCopy u [''metadata'', ''annotations''] = NestedFieldNoCopy v [''metadata'', ''annotations''] \<Longrightarrow>
   GetAnnotations u = GetAnnotations v"
  by (simp_all add: getter_defs)

text \<open>A write through a reference outside the metadata leaves what the getters read.\<close>

lemma getters_update_at [simp]:
  assumes "k \<notin> {''kind'', ''apiVersion'', ''metadata''}"
  shows "GetKind (update_at u (k # ks) f) = GetKind u"
    and "GetAPIVersion (update_at u (k # ks) f) = GetAPIVersion u"
    and "GetNamespace (update_at u (k # ks) f) = GetNamespace u"
    and "GetName (update_at u (k # ks) f) = GetName u"
    and "GetLabels (update_at u (k # ks) f) = GetLabels u"
    and "GetAnnotations (update_at u (k # ks) f) = GetAnnotations u"
  using assms by (auto intro!: getters_cong)

lemma meta_ok_update_at [simp]: "k \<noteq> ''metadata'' \<Longrightarrow> meta_ok (update_at u (k # ks) f) = meta_ok u"
  by (auto simp: meta_ok_def update_at_def split: option.splits json.splits)

section \<open>The interface of a metadata field\<close>

locale object_field =
  fixes get :: "obj \<Rightarrow> 'a" and set :: "'a \<Rightarrow> obj \<Rightarrow> obj"
    and ok :: "obj \<Rightarrow> bool" and valid :: "'a \<Rightarrow> bool"
  assumes get_set: "ok u \<Longrightarrow> valid a \<Longrightarrow> get (set a u) = a"
    and set_set: "ok u \<Longrightarrow> valid a \<Longrightarrow> valid b \<Longrightarrow> set a (set b u) = set a u"
    and ok_set: "ok u \<Longrightarrow> valid a \<Longrightarrow> ok (set a u)"
begin

lemma set_idem: "ok u \<Longrightarrow> valid a \<Longrightarrow> set a (set a u) = set a u"
  by (rule set_set)

lemma get_last_set: "ok u \<Longrightarrow> valid a \<Longrightarrow> valid b \<Longrightarrow> get (set a (set b u)) = a"
  by (simp add: get_set ok_set)

lemma set_injective: "ok u \<Longrightarrow> valid a \<Longrightarrow> valid b \<Longrightarrow> set a u = set b u \<Longrightarrow> a = b"
  by (metis get_set)

end

lemma string_entries_strings [simp]: "string_entries (List.map (\<lambda>(k, v). (k, JStr v)) m) = Some m"
  by (induction m) auto

interpretation ns: object_field GetNamespace SetNamespace meta_ok "\<lambda>s. s \<noteq> []"
  by unfold_locales
    (auto simp: getter_defs setter_defs NestedFieldNoCopy_put settable_metadata put_put)

interpretation nm: object_field GetName SetName meta_ok "\<lambda>s. s \<noteq> []"
  by unfold_locales
    (auto simp: getter_defs setter_defs NestedFieldNoCopy_put settable_metadata put_put)

interpretation lb: object_field GetLabels "\<lambda>l. SetLabels (the l)" meta_ok "\<lambda>l. l \<noteq> None"
  by unfold_locales
    (auto simp: getter_defs setter_defs string_map_json_def NestedFieldNoCopy_put settable_metadata
      put_put)

interpretation an: object_field GetAnnotations "\<lambda>a. SetAnnotations (the a)" meta_ok "\<lambda>a. a \<noteq> None"
  by unfold_locales
    (auto simp: getter_defs setter_defs string_map_json_def NestedFieldNoCopy_put settable_metadata
      put_put)

end
