(* ===== verification/Flags.thy ===== *)
theory Flags imports GoStrings begin

text \<open>
  The package \<open>pkg/flag\<close>: the constants, the variables set from the command line (the record
  \<open>flags\<close>, an argument of everything that reads them) and the table of S2I runtimes.
  \<open>platform\<close> holds what the operator reads from its process: \<open>os.Environ()\<close> and
  \<open>runtime.GOARCH\<close>.  \<open>flag_init\<close> gives the values before the command line is parsed, which is the
  theory \<open>CommandLine\<close>.
\<close>

section \<open>Constants\<close>

definition DefaultSA :: string where
  "DefaultSA = ''pipeline''"

definition DefaultIgnorePattern :: string where
  "DefaultIgnorePattern = ''^(openshift|kube)-''"

definition DefaultDisableAffinityAssistant :: string where
  "DefaultDisableAffinityAssistant = ''true''"

definition ClusterCRName :: string where
  "ClusterCRName = ''cluster''"

definition DefaultTargetNs :: string where
  "DefaultTargetNs = ''openshift-pipelines''"

definition PipelineControllerName :: string where
  "PipelineControllerName = ''tekton-pipelines-controller''"

definition PipelineWebhookName :: string where
  "PipelineWebhookName = ''tekton-pipelines-webhook''"

definition PipelineWebhookConfiguration :: string where
  "PipelineWebhookConfiguration = ''webhook.pipeline.tekton.dev''"

definition TriggerControllerName :: string where
  "TriggerControllerName = ''tekton-triggers-controller''"

definition TriggerWebhookName :: string where
  "TriggerWebhookName = ''tekton-triggers-webhook''"

definition TriggerWebhookConfiguration :: string where
  "TriggerWebhookConfiguration = ''webhook.triggers.tekton.dev''"

definition AnnotationPreserveNS :: string where
  "AnnotationPreserveNS = ''operator.tekton.dev/preserve-namespace''"

definition AnnotationPreserveRBSubjectNS :: string where
  "AnnotationPreserveRBSubjectNS = ''operator.tekton.dev/preserve-rb-subject-namespace''"

definition LabelProviderType :: string where
  "LabelProviderType = ''operator.tekton.dev/provider-type''"

definition ProviderTypeCommunity :: string where
  "ProviderTypeCommunity = ''community''"

definition ProviderTypeRedHat :: string where
  "ProviderTypeRedHat = ''redhat''"

definition AnnotationPipelineSupportedVersions :: string where
  "AnnotationPipelineSupportedVersions = ''pipeline.openshift.io/supported-versions''"

definition LabelPipelineEnvironmentType :: string where
  "LabelPipelineEnvironmentType = ''pipeline.openshift.io/type''"

definition LabelPipelineRuntime :: string where
  "LabelPipelineRuntime = ''pipeline.openshift.io/runtime''"

definition LabelPipelineStrategy :: string where
  "LabelPipelineStrategy = ''pipeline.openshift.io/strategy''"

definition PipelineAnyuid :: string where
  "PipelineAnyuid = ''pipeline-anyuid''"

definition TemplatePath :: string where
  "TemplatePath = ''deploy/resources/templates''"

section \<open>Variables\<close>

record flags =
  TektonVersion :: string
  PipelineSA :: string
  IgnorePattern :: string
  ResourceWatched :: string
  ResourceDir :: string
  TargetNamespace :: string
  NoAutoInstall :: bool
  SkipNonRedHatResources :: bool
  Recursive :: bool
  OperatorUUID :: string

record platform =
  Environ :: "string list"
  GOARCH :: string

text \<open>
  \<open>init\<close>: the defaults of the flag set; \<open>uuid\<close> is what reading \<open>deploy/uuid\<close> gives.
\<close>

definition flag_init :: "go_error + string \<Rightarrow> flags" where
  "flag_init uuid = \<lparr>
     TektonVersion = ''devel'',
     PipelineSA = DefaultSA,
     IgnorePattern = DefaultIgnorePattern,
     ResourceWatched = ClusterCRName,
     ResourceDir = ''deploy/resources'',
     TargetNamespace = DefaultTargetNs,
     NoAutoInstall = False,
     SkipNonRedHatResources = False,
     Recursive = True,
     OperatorUUID = (case uuid of Inr text \<Rightarrow> TrimSuffix text [CHR 0x0A] | Inl e \<Rightarrow> [])\<rparr>"

definition CommunityResourceURLs :: "string list" where
  "CommunityResourceURLs = [
     ''https://raw.githubusercontent.com/tektoncd/catalog/master/task/jib-maven/0.1/jib-maven.yaml'',
     ''https://raw.githubusercontent.com/tektoncd/catalog/master/task/maven/0.1/maven.yaml'',
     ''https://raw.githubusercontent.com/tektoncd/catalog/master/task/tkn/0.1/tkn.yaml'',
     ''https://raw.githubusercontent.com/tektoncd/catalog/master/task/helm-upgrade-from-source/0.1/helm-upgrade-from-source.yaml'',
     ''https://raw.githubusercontent.com/tektoncd/catalog/master/task/helm-upgrade-from-repo/0.1/helm-upgrade-from-repo.yaml'',
     ''https://raw.githubusercontent.com/tektoncd/catalog/master/task/trigger-jenkins-job/0.1/trigger-jenkins-job.yaml'',
     ''https://raw.githubusercontent.com/tektoncd/catalog/master/task/git-cli/0.1/git-cli.yaml'',
     ''https://raw.githubusercontent.com/tektoncd/catalog/master/task/pull-request/0.1/pull-request.yaml'',
     ''https://raw.githubusercontent.com/tektoncd/catalog/master/task/kubeconfig-creator/0.1/kubeconfig-creator.yaml'']"

section \<open>The S2I runtimes\<close>

record RuntimeSpec =
  Runtime :: string
  Version :: string
  MinorVersion :: string
  SupportedVersions :: string
  Default :: string

definition emptySpec :: RuntimeSpec where
  "emptySpec = \<lparr>Runtime = [], Version = [], MinorVersion = [], SupportedVersions = [], Default = []\<rparr>"

definition Runtimes :: "(string, RuntimeSpec) gomap" where
  "Runtimes = [
     (''s2i-dotnet-3'', emptySpec\<lparr>Runtime := ''dotnet'', MinorVersion := ''$(params.MINOR_VERSION)'',
        SupportedVersions := ''[3.1,3.0]'', Default := ''1''\<rparr>),
     (''s2i-go'', emptySpec\<lparr>Runtime := ''golang''\<rparr>),
     (''s2i-java-8'', emptySpec\<lparr>Runtime := ''java'', SupportedVersions := ''[8]''\<rparr>),
     (''s2i-java-11'', emptySpec\<lparr>Runtime := ''java'', SupportedVersions := ''[11]''\<rparr>),
     (''s2i-nodejs'', emptySpec\<lparr>Runtime := ''nodejs'', Version := ''$(params.MAJOR_VERSION)'',
        SupportedVersions := ''[10,12]'', Default := ''12''\<rparr>),
     (''s2i-perl'', emptySpec\<lparr>Runtime := ''perl'', MinorVersion := ''$(params.MINOR_VERSION)'',
        SupportedVersions := ''[5.26,5.24]'', Default := ''26''\<rparr>),
     (''s2i-php'', emptySpec\<lparr>Runtime := ''php'', MinorVersion := ''$(params.MINOR_VERSION)'',
        SupportedVersions := ''[7.2,7.3]'', Default := ''3''\<rparr>),
     (''s2i-python-3'', emptySpec\<lparr>Runtime := ''python'', MinorVersion := ''$(params.MINOR_VERSION)'',
        SupportedVersions := ''[3.6,3.5]'', Default := ''6''\<rparr>),
     (''s2i-ruby'', emptySpec\<lparr>Runtime := ''ruby'', MinorVersion := ''$(params.MINOR_VERSION)'',
        SupportedVersions := ''[2.5,2.4,2.3]'', Default := ''5''\<rparr>),
     (''buildah'', emptySpec)]"

lemma Runtimes_wf: "wf_map Runtimes"
  by (simp add: Runtimes_def wf_map_def)

text \<open>\<open>os.Getenv\<close>: the value of the first entry for the key, the empty string if there is none.\<close>

definition Getenv :: "string list \<Rightarrow> string \<Rightarrow> string" where
  "Getenv environ key = (case find (\<lambda>e. HasPrefix e (key @ ''='')) environ of
     None \<Rightarrow> []
   | Some e \<Rightarrow> TrimPrefix e (key @ ''=''))"

end
