(* ===== verification/Manifestival.thy ===== *)
theory Manifestival imports Unstructured Flags begin

text \<open>
  The manifests of \<open>github.com/manifestival/manifestival\<close> (manifestival.go, filter.go,
  transform.go): a list of objects and the client they are applied with, the predicates and the
  transformers of the library that the operator uses.  A transformer changes an object in place; it
  is a function that returns the changed object.  \<open>Transform\<close> works on deep copies, so an error
  leaves the manifest it was called on unchanged.

  The locale \<open>stable_observation\<close> is the contract between \<open>Transform\<close> and its transformers: an
  observation of an object (its kind, its name) that every transformer of a list leaves unchanged.
\<close>

section \<open>Manifests and predicates\<close>

record manifest =
  resources :: "obj list"
  has_client :: bool

text \<open>\<open>mf.Manifest{}\<close>: no resources, a nil client.\<close>

definition emptyManifest :: manifest where
  "emptyManifest = \<lparr>resources = [], has_client = False\<rparr>"

type_synonym predicate = "obj \<Rightarrow> bool"
type_synonym transformer = "obj \<Rightarrow> obj res"

definition mf_All :: "predicate list \<Rightarrow> predicate" where
  "mf_All preds u = list_all (\<lambda>p. p u) preds"

definition mf_Any :: "predicate list \<Rightarrow> predicate" where
  "mf_Any preds u = list_ex (\<lambda>p. p u) preds"

definition mf_Not :: "predicate \<Rightarrow> predicate" where
  "mf_Not p u = (\<not> p u)"

definition ByName :: "string \<Rightarrow> predicate" where
  "ByName name u = (GetName u = name)"

definition ByKind :: "string \<Rightarrow> predicate" where
  "ByKind kind u = (GetKind u = kind)"

definition Filter :: "predicate list \<Rightarrow> manifest \<Rightarrow> manifest" where
  "Filter preds m = m\<lparr>resources := filter (mf_All preds) (resources m)\<rparr>"

definition Append :: "manifest \<Rightarrow> manifest list \<Rightarrow> manifest" where
  "Append m mfs = m\<lparr>resources := resources m @ concat (List.map resources mfs)\<rparr>"

definition Transform :: "transformer list \<Rightarrow> manifest \<Rightarrow> manifest res" where
  "Transform fns m =
     res_map (\<lambda>rs. m\<lparr>resources := rs\<rparr>)
       (res_mapM (\<lambda>spec. res_fold (\<lambda>transform u. transform u) fns spec) (resources m))"

section \<open>Transformers of the library\<close>

definition resolveEnv :: "string list \<Rightarrow> string \<Rightarrow> string" where
  "resolveEnv environ x =
     (if 1 < length x \<and> take 1 x = ''$'' then Getenv environ (drop 1 x) else x)"

definition cluster_scoped_kinds :: "string list" where
  "cluster_scoped_kinds = [''componentstatus'', ''namespace'', ''node'', ''persistentvolume'',
     ''mutatingwebhookconfiguration'', ''validatingwebhookconfiguration'',
     ''customresourcedefinition'', ''apiservice'', ''meshpolicy'', ''tokenreview'',
     ''selfsubjectaccessreview'', ''selfsubjectrulesreview'', ''subjectaccessreview'',
     ''certificatesigningrequest'', ''podsecuritypolicy'', ''clusterrolebinding'', ''clusterrole'',
     ''priorityclass'', ''storageclass'', ''volumeattachment'']"

definition isClusterScoped :: "string \<Rightarrow> bool" where
  "isClusterScoped kind = (ToLower kind \<in> set cluster_scoped_kinds)"

text \<open>\<open>if _, ok := m["namespace"]; ok { m["namespace"] = namespace }\<close> on a map value.\<close>

fun retarget :: "string \<Rightarrow> json \<Rightarrow> json res" where
  "retarget namespace (JObj m) =
     Ok (JObj (if map_of m ''namespace'' = None then m
               else AList.update ''namespace'' (JStr namespace) m))"
| "retarget namespace v = Panic ''interface conversion: not a map[string]interface{}''"

text \<open>
  The function \<open>updateService\<close> inside \<open>InjectNamespace\<close>.  A field that is there but null is found,
  and the type assertion panics.
\<close>

definition updateService :: "string \<Rightarrow> string list \<Rightarrow> obj \<Rightarrow> obj res" where
  "updateService namespace path u =
     res_bind (NestedFieldNoCopy u path) (\<lambda>found. case found of
       None \<Rightarrow> Ok u
     | Some srv \<Rightarrow> res_map (\<lambda>m. update_at u path (\<lambda>old. m)) (retarget namespace srv))"

text \<open>The loop over \<open>subjects.([]interface{})\<close>.\<close>

fun retarget_list :: "string \<Rightarrow> json \<Rightarrow> json res" where
  "retarget_list namespace (JList subjects) = res_map JList (res_mapM (retarget namespace) subjects)"
| "retarget_list namespace v = Panic ''interface conversion: not []interface{}''"

text \<open>\<open>x, _, _ := NestedFieldNoCopy(...)\<close>: an error or a missing field gives nil.\<close>

definition field_or_nil :: "obj \<Rightarrow> string list \<Rightarrow> json" where
  "field_or_nil u path = (case NestedFieldNoCopy u path of Ok (Some v) \<Rightarrow> v | _ \<Rightarrow> JNull)"

fun hook_service :: "string \<Rightarrow> json \<Rightarrow> json res" where
  "hook_service namespace (JObj hook) =
     res_map JObj (updateService namespace [''clientConfig'', ''service''] hook)"
| "hook_service namespace v = Panic ''interface conversion: not a map[string]interface{}''"

fun hook_services :: "string \<Rightarrow> json \<Rightarrow> json res" where
  "hook_services namespace (JList hooks) = res_map JList (res_mapM (hook_service namespace) hooks)"
| "hook_services namespace v = Panic ''interface conversion: not []interface{}''"

definition mf_InjectNamespace :: "string list \<Rightarrow> string \<Rightarrow> transformer" where
  "mf_InjectNamespace environ ns u =
     (let namespace = resolveEnv environ ns;
          u = (if isClusterScoped (GetKind u) then u else SetNamespace namespace u);
          kind = ToLower (GetKind u)
      in if kind = ''namespace'' then Ok (SetName namespace u)
         else if kind = ''clusterrolebinding'' \<or> kind = ''rolebinding'' then
           res_map (\<lambda>v. update_at u [''subjects''] (\<lambda>old. v))
             (retarget_list namespace (field_or_nil u [''subjects'']))
         else if kind = ''validatingwebhookconfiguration'' \<or> kind = ''mutatingwebhookconfiguration'' then
           res_map (\<lambda>v. update_at u [''webhooks''] (\<lambda>old. v))
             (hook_services namespace (field_or_nil u [''webhooks'']))
         else if kind = ''apiservice'' then updateService namespace [''spec'', ''service''] u
         else if kind = ''customresourcedefinition'' then
           updateService namespace [''spec'', ''conversion'', ''webhookClientConfig'', ''service''] u
         else Ok u)"

text \<open>The identity of the object that owns the resources, as \<open>NewControllerRef\<close> reads it.\<close>

record owner =
  owner_apiVersion :: string
  owner_kind :: string
  owner_name :: string
  owner_uid :: string

definition NewControllerRef :: "owner \<Rightarrow> json" where
  "NewControllerRef ow = JObj [
     (''apiVersion'', JStr (owner_apiVersion ow)),
     (''kind'', JStr (owner_kind ow)),
     (''name'', JStr (owner_name ow)),
     (''uid'', JStr (owner_uid ow)),
     (''controller'', JBool True),
     (''blockOwnerDeletion'', JBool True)]"

definition SetOwnerReferences :: "json list \<Rightarrow> obj \<Rightarrow> obj" where
  "SetOwnerReferences references u =
     or_unchanged u (SetNestedField u (JList references) [''metadata'', ''ownerReferences''])"

definition mf_InjectOwner :: "owner \<Rightarrow> transformer" where
  "mf_InjectOwner ow u =
     Ok (if isClusterScoped (GetKind u) then u else SetOwnerReferences [NewControllerRef ow] u)"

section \<open>Laws\<close>

lemma resources_Filter [simp]: "resources (Filter preds m) = filter (mf_All preds) (resources m)"
  and has_client_Filter [simp]: "has_client (Filter preds m) = has_client m"
  and resources_Append [simp]: "resources (Append m mfs) = resources m @ concat (List.map resources mfs)"
  and has_client_Append [simp]: "has_client (Append m mfs) = has_client m"
  by (simp_all add: Filter_def Append_def)

lemma mf_All_single [simp]: "mf_All [p] = p"
  by (rule ext) (simp add: mf_All_def)

lemma mf_Not_apply [simp]: "mf_Not p u = (\<not> p u)"
  by (simp add: mf_Not_def)

lemma Transform_Ok_iff:
  "Transform fns m = Ok m' \<longleftrightarrow>
     (\<exists>rs. m' = m\<lparr>resources := rs\<rparr> \<and>
        list_all2 (\<lambda>u u'. res_fold (\<lambda>transform u. transform u) fns u = Ok u') (resources m) rs)"
  by (auto simp: Transform_def res_map_eq_Ok res_mapM_Ok_iff)

lemma Transform_length: "Transform fns m = Ok m' \<Longrightarrow> length (resources m') = length (resources m)"
  by (auto simp: Transform_Ok_iff dest: list_all2_lengthD)

lemma Transform_client: "Transform fns m = Ok m' \<Longrightarrow> has_client m' = has_client m"
  by (auto simp: Transform_Ok_iff)

lemma Transform_nth:
  "Transform fns m = Ok m' \<Longrightarrow> i < length (resources m) \<Longrightarrow>
   res_fold (\<lambda>transform u. transform u) fns (resources m ! i) = Ok (resources m' ! i)"
  by (auto simp: Transform_Ok_iff list_all2_conv_all_nth)

locale stable_observation =
  fixes fns :: "transformer list" and observe :: "obj \<Rightarrow> 'k"
  assumes stable: "f \<in> set fns \<Longrightarrow> f u = Ok u' \<Longrightarrow> observe u' = observe u"
begin

lemma fold_stable:
  assumes "set gs \<subseteq> set fns" and "res_fold (\<lambda>transform u. transform u) gs u = Ok u'"
  shows "observe u' = observe u"
  using assms by (induction gs arbitrary: u) (auto simp: res_bind_eq_Ok dest: stable)

lemma Transform_stable:
  assumes "Transform fns m = Ok m'"
  shows "List.map observe (resources m') = List.map observe (resources m)"
proof -
  from assms have "list_all2 (\<lambda>u u'. observe u' = observe u) (resources m) (resources m')"
    by (auto simp: Transform_Ok_iff elim!: list_all2_mono dest: fold_stable [OF subset_refl])
  then show ?thesis by (induction rule: list_all2_induct) auto
qed

lemma Transform_stable_filter:
  assumes "Transform fns m = Ok m'" and "\<And>u v. observe u = observe v \<Longrightarrow> P u = P v"
  shows "length (filter P (resources m')) = length (filter P (resources m))"
proof -
  from assms(1) have "list_all2 (\<lambda>u u'. observe u' = observe u) (resources m) (resources m')"
    by (auto simp: Transform_Ok_iff elim!: list_all2_mono dest: fold_stable [OF subset_refl])
  then show ?thesis
  proof (induction rule: list_all2_induct)
    case (Cons x xs y ys)
    from assms(2) [OF Cons(1)] Cons show ?case by simp
  qed simp
qed

end

end
