(* ===== verification/ConfigTypes.thy ===== *)
theory ConfigTypes imports Manifestival begin

text \<open>
  The custom resource \<open>Config\<close> of \<open>pkg/apis/operator/v1alpha1/config_types.go\<close>: its spec, its status
  (a list of conditions, newest first) and the methods \<open>InstallStatus\<close> and \<open>HasInstalledVersion\<close>.

  An \<open>InstallStatus\<close> is a string in the code; the constants are constructors here, any other string
  the API server may return is \<open>OtherStatus\<close>.  \<open>status_string\<close> and \<open>parse_status\<close> translate.
\<close>

datatype InstallStatus =
    EmptyStatus
  | AppliedPipeline
  | PipelineApplyError
  | ValidatedPipeline
  | PipelineValidateError
  | InvalidResource
  | AppliedTriggers
  | TriggersError
  | ValidatedTriggers
  | TriggersValidateError
  | AppliedAddons
  | AddonsError
  | CommunityResourcesError
  | InstalledStatus
  | OtherStatus string

fun status_string :: "InstallStatus \<Rightarrow> string" where
  "status_string EmptyStatus = ''empty''"
| "status_string AppliedPipeline = ''applied-pipeline''"
| "status_string PipelineApplyError = ''error-pipeline-apply''"
| "status_string ValidatedPipeline = ''validated-pipeline''"
| "status_string PipelineValidateError = ''error-pipeline-validate''"
| "status_string InvalidResource = ''invalid-resource''"
| "status_string AppliedTriggers = ''applied-triggers''"
| "status_string TriggersError = ''error-triggers''"
| "status_string ValidatedTriggers = ''validated-triggers''"
| "status_string TriggersValidateError = ''error-triggers-validate''"
| "status_string AppliedAddons = ''applied-addons''"
| "status_string AddonsError = ''error-addons''"
| "status_string CommunityResourcesError = ''error-community-resources''"
| "status_string InstalledStatus = ''installed''"
| "status_string (OtherStatus s) = s"

definition named_statuses :: "InstallStatus list" where
  "named_statuses = [EmptyStatus, AppliedPipeline, PipelineApplyError, ValidatedPipeline,
     PipelineValidateError, InvalidResource, AppliedTriggers, TriggersError, ValidatedTriggers,
     TriggersValidateError, AppliedAddons, AddonsError, CommunityResourcesError, InstalledStatus]"

definition parse_status :: "string \<Rightarrow> InstallStatus" where
  "parse_status s = (case find (\<lambda>c. status_string c = s) named_statuses of
     Some c \<Rightarrow> c | None \<Rightarrow> OtherStatus s)"

lemma named_status_cases: "c \<in> set named_statuses \<or> (\<exists>s. c = OtherStatus s)"
  by (cases c) (auto simp: named_statuses_def)

lemma status_strings_distinct: "distinct (List.map status_string named_statuses)"
  by (simp add: named_statuses_def)

lemma parse_status_string: "c \<in> set named_statuses \<Longrightarrow> parse_status (status_string c) = c"
proof -
  assume c: "c \<in> set named_statuses"
  have inj: "inj_on status_string (set named_statuses)"
    using status_strings_distinct by (simp add: distinct_map)
  have "find (\<lambda>d. status_string d = status_string c) named_statuses = Some c"
  proof -
    obtain d where "find (\<lambda>d. status_string d = status_string c) named_statuses = Some d"
      using c by (cases "find (\<lambda>d. status_string d = status_string c) named_statuses")
        (auto simp: find_None_iff)
    moreover from this have "d \<in> set named_statuses" "status_string d = status_string c"
      by (auto simp: find_Some_iff)
    ultimately show ?thesis using inj c by (auto dest: inj_onD)
  qed
  then show ?thesis by (simp add: parse_status_def)
qed

lemma status_string_parse: "status_string (parse_status s) = s"
  by (auto simp: parse_status_def find_Some_iff split: option.split)

record ConfigCondition =
  Code :: InstallStatus
  Details :: string
  CVersion :: string
  PipelineVersion :: string
  TriggersVersion :: string

text \<open>A composite literal \<open>op.ConfigCondition{Code: .., Version: ..}\<close> with its other fields empty.\<close>

definition condition :: "InstallStatus \<Rightarrow> string \<Rightarrow> ConfigCondition" where
  "condition code version = \<lparr>Code = code, Details = [], CVersion = version,
     PipelineVersion = [], TriggersVersion = []\<rparr>"

record ConfigStatus =
  StatusOperatorUUID :: string
  Conditions :: "ConfigCondition list"

record Config =
  Cfg_owner :: owner
  Cfg_resourceVersion :: string
  Cfg_namespace :: string
  Cfg_TargetNamespace :: string
  Status :: ConfigStatus

text \<open>
  \<open>Cfg_owner\<close> holds the type and the identity in the object's metadata, \<open>Cfg_resourceVersion\<close> the
  version the API server gave it.  \<open>cfg.Name\<close> is the name in the object's metadata, which also goes into owner references.
\<close>

abbreviation Cfg_name :: "Config \<Rightarrow> string" where
  "Cfg_name cfg \<equiv> owner_name (Cfg_owner cfg)"

text \<open>\<open>&op.Config{}\<close>\<close>

definition zeroConfig :: Config where
  "zeroConfig = \<lparr>Cfg_owner = \<lparr>owner_apiVersion = [], owner_kind = [], owner_name = [], owner_uid = []\<rparr>,
     Cfg_resourceVersion = [], Cfg_namespace = [], Cfg_TargetNamespace = [],
     Status = \<lparr>StatusOperatorUUID = [], Conditions = []\<rparr>\<rparr>"

fun head_status :: "ConfigCondition list \<Rightarrow> InstallStatus" where
  "head_status [] = EmptyStatus"
| "head_status (c # cs) = Code c"

definition InstallStatus_of :: "Config \<Rightarrow> InstallStatus" where
  "InstallStatus_of c = head_status (Conditions (Status c))"

definition HasInstalledVersion :: "Config \<Rightarrow> string \<Rightarrow> bool" where
  "HasInstalledVersion c target =
     (InstallStatus_of c = InstalledStatus \<and> CVersion (Conditions (Status c) ! 0) = target)"

text \<open>The index is reached only when there is a condition: \<open>HasInstalledVersion\<close> does not panic.\<close>

lemma HasInstalledVersion_conditions: "HasInstalledVersion c target \<Longrightarrow> Conditions (Status c) \<noteq> []"
  by (auto simp: HasInstalledVersion_def InstallStatus_of_def)

lemma InstallStatus_of_installed: "InstallStatus_of c = InstalledStatus \<Longrightarrow> Conditions (Status c) \<noteq> []"
  by (auto simp: InstallStatus_of_def)

text \<open>
  \<open>DeepCopy\<close> (zz_generated.deepcopy.go) copies every field; a value of the model has no references,
  so the copy is the value.  The status that \<open>updateStatus\<close> sends: the operator's UUID and the new
  condition in front of the old ones.
\<close>

definition with_condition :: "string \<Rightarrow> ConfigCondition \<Rightarrow> Config \<Rightarrow> Config" where
  "with_condition uuid c cfg =
     cfg\<lparr>Status := \<lparr>StatusOperatorUUID = uuid, Conditions = c # Conditions (Status cfg)\<rparr>\<rparr>"

lemma with_condition_simps [simp]:
  "Status (with_condition uuid c cfg) = \<lparr>StatusOperatorUUID = uuid, Conditions = c # Conditions (Status cfg)\<rparr>"
  "Cfg_owner (with_condition uuid c cfg) = Cfg_owner cfg"
  "Cfg_resourceVersion (with_condition uuid c cfg) = Cfg_resourceVersion cfg"
  "Cfg_namespace (with_condition uuid c cfg) = Cfg_namespace cfg"
  "Cfg_TargetNamespace (with_condition uuid c cfg) = Cfg_TargetNamespace cfg"
  "InstallStatus_of (with_condition uuid c cfg) = Code c"
  by (simp_all add: with_condition_def InstallStatus_of_def)

end
