(* ===== verification/RbacTypes.thy ===== *)
theory RbacTypes imports Prelude begin

text \<open>
  The API types of the rbac controller (\<open>corev1.ServiceAccount\<close>, \<open>rbacv1.RoleBinding\<close> and
  \<open>rbacv1.ClusterRole\<close>), with the fields \<open>pkg/controller/rbac/rbac_controller.go\<close> reads or writes.
\<close>

record ServiceAccount =
  sa_Name :: string
  sa_Namespace :: string

record Subject =
  S_Kind :: string
  S_APIGroup :: string
  S_Name :: string
  S_Namespace :: string

record RoleRef =
  Ref_APIGroup :: string
  Ref_Kind :: string
  Ref_Name :: string

text \<open>\<open>rb_rest\<close> stands for the metadata the controller does not look at.\<close>

record RoleBinding =
  rb_Name :: string
  rb_Namespace :: string
  rb_rest :: string
  rb_RoleRef :: RoleRef
  Subjects :: "Subject list"

record PolicyRule =
  APIGroups :: "string list"
  ResourceNames :: "string list"
  Resources :: "string list"
  Verbs :: "string list"

record ClusterRole =
  cr_Name :: string
  Rules :: "PolicyRule list"

end
