(* ===== verification/ApiScheme.thy ===== *)
theory ApiScheme imports GoStrings begin

text \<open>
  The registration of the API types: \<open>register.go\<close> and \<open>config_types.go\<close> of \<open>pkg/apis/operator/v1alpha1\<close>,
  \<open>pkg/apis/apis.go\<close> and \<open>addtoscheme_operator_v1alpha1.go\<close>, with what they call of the controller runtime
  (\<open>scheme.Builder\<close>) and of apimachinery (\<open>runtime.Scheme\<close>, \<open>metav1.AddToGroupVersion\<close>).

  A \<open>reflect.Type\<close> is its package and its name; all types that are registered are pointers to structs, so
  the checks for that are left out, as are the conversion functions and the defaults a scheme also
  holds.  A function that takes a scheme and changes it returns the new one.
\<close>

section \<open>Schemes\<close>

type_synonym gvk = "string \<times> string \<times> string"
type_synonym go_type = "string \<times> string"

text \<open>\<open>gv.WithKind(kind)\<close>.\<close>

definition WithKind :: "string \<times> string \<Rightarrow> string \<Rightarrow> gvk" where
  "WithKind gv kind = (fst gv, snd gv, kind)"

text \<open>\<open>schema.ParseGroupVersion\<close>.\<close>

definition ParseGroupVersion :: "string \<Rightarrow> go_error + string \<times> string" where
  "ParseGroupVersion gv =
     (if gv = [] \<or> gv = ''/'' then Inr ([], [])
      else case Split gv (CHR ''/'') of
        [version] \<Rightarrow> Inr ([], version)
      | [grp, version] \<Rightarrow> Inr (grp, version)
      | _ \<Rightarrow> Inl (PlainError (''unexpected GroupVersion string: '' @ gv)))"

record scheme =
  gvkToType :: "(gvk, go_type) gomap"
  typeToGVK :: "(go_type, gvk list) gomap"
  unversionedTypes :: "(go_type, gvk) gomap"
  unversionedKinds :: "(string, go_type) gomap"
  observedVersions :: "(string \<times> string) list"

definition NewScheme :: scheme where
  "NewScheme = \<lparr>gvkToType = [], typeToGVK = [], unversionedTypes = [], unversionedKinds = [],
     observedVersions = []\<rparr>"

definition APIVersionInternal :: string where
  "APIVersionInternal = ''__internal''"

definition addObservedVersion :: "string \<times> string \<Rightarrow> scheme \<Rightarrow> scheme" where
  "addObservedVersion version s =
     (if snd version = [] \<or> snd version = APIVersionInternal \<or> version \<in> set (observedVersions s) then s
      else s\<lparr>observedVersions := observedVersions s @ [version]\<rparr>)"

text \<open>\<open>s.typeToGVK[t]\<close>: nil for a type that is not registered.\<close>

definition gvks_of :: "scheme \<Rightarrow> go_type \<Rightarrow> gvk list" where
  "gvks_of s t = (case map_of (typeToGVK s) t of None \<Rightarrow> [] | Some gvks \<Rightarrow> gvks)"

definition AddKnownTypeWithName :: "gvk \<Rightarrow> go_type \<Rightarrow> scheme \<Rightarrow> scheme res" where
  "AddKnownTypeWithName gvk t s =
     (let s = addObservedVersion (fst gvk, fst (snd gvk)) s
      in if fst (snd gvk) = [] then Panic ''version is required on all types''
         else if (case map_of (gvkToType s) gvk of None \<Rightarrow> False | Some old \<Rightarrow> old \<noteq> t)
           then Panic ''Double registration of different types''
         else let s = s\<lparr>gvkToType := AList.update gvk t (gvkToType s)\<rparr>
              in if gvk \<in> set (gvks_of s t) then Ok s
                 else Ok (s\<lparr>typeToGVK := AList.update t (gvks_of s t @ [gvk]) (typeToGVK s)\<rparr>))"

definition AddKnownTypes :: "string \<times> string \<Rightarrow> go_type list \<Rightarrow> scheme \<Rightarrow> scheme res" where
  "AddKnownTypes gv types s =
     res_fold (\<lambda>t. AddKnownTypeWithName (WithKind gv (snd t)) t) types (addObservedVersion gv s)"

definition add_unversioned :: "string \<times> string \<Rightarrow> go_type \<Rightarrow> scheme \<Rightarrow> scheme res" where
  "add_unversioned version t s =
     (let kind = snd t;
          s = s\<lparr>unversionedTypes := AList.update t (WithKind version kind) (unversionedTypes s)\<rparr>
      in case map_of (unversionedKinds s) kind of
           Some old \<Rightarrow> if t \<noteq> old then Panic ''has already been registered as unversioned kind''
                       else Ok (s\<lparr>unversionedKinds := AList.update kind t (unversionedKinds s)\<rparr>)
         | None \<Rightarrow> Ok (s\<lparr>unversionedKinds := AList.update kind t (unversionedKinds s)\<rparr>))"

definition AddUnversionedTypes :: "string \<times> string \<Rightarrow> go_type list \<Rightarrow> scheme \<Rightarrow> scheme res" where
  "AddUnversionedTypes version types s =
     res_bind (AddKnownTypes version types (addObservedVersion version s))
       (res_fold (add_unversioned version) types)"

text \<open>\<open>ObjectKinds\<close> of an object of the type \<open>t\<close>; the error stands for \<open>NewNotRegisteredErrForType\<close>.\<close>

definition ObjectKinds :: "scheme \<Rightarrow> go_type \<Rightarrow> (gvk list \<times> bool) res" where
  "ObjectKinds s t = (case map_of (typeToGVK s) t of
       None \<Rightarrow> Err (PlainError (''no kind is registered for the type '' @ snd t))
     | Some gvks \<Rightarrow> Ok (gvks, map_of (unversionedTypes s) t \<noteq> None))"

text \<open>The type of the object \<open>New\<close> makes.\<close>

definition New_type :: "scheme \<Rightarrow> gvk \<Rightarrow> go_type res" where
  "New_type s gvk = (case map_of (gvkToType s) gvk of
       Some t \<Rightarrow> Ok t
     | None \<Rightarrow> (case map_of (unversionedKinds s) (snd (snd gvk)) of
         Some t \<Rightarrow> Ok t
       | None \<Rightarrow> Err (PlainError (''no kind '' @ quoted (snd (snd gvk)) @ '' is registered''))))"

section \<open>The meta types of a group version\<close>

definition metav1_type :: "string \<Rightarrow> go_type" where
  "metav1_type name = (''k8s.io/apimachinery/pkg/apis/meta/v1'', name)"

definition optionsTypes :: "go_type list" where
  "optionsTypes = List.map metav1_type [''ListOptions'', ''ExportOptions'', ''GetOptions'', ''DeleteOptions'',
     ''CreateOptions'', ''UpdateOptions'', ''PatchOptions'']"

definition unversioned_metav1 :: "go_type list" where
  "unversioned_metav1 = List.map metav1_type [''Status'', ''APIVersions'', ''APIGroupList'', ''APIGroup'',
     ''APIResourceList'']"

definition AddToGroupVersion :: "string \<times> string \<Rightarrow> scheme \<Rightarrow> scheme res" where
  "AddToGroupVersion gv s =
     res_bind (AddKnownTypeWithName (WithKind gv ''WatchEvent'') (metav1_type ''WatchEvent'') s) (\<lambda>s.
     res_bind (AddKnownTypeWithName (WithKind (fst gv, APIVersionInternal) ''WatchEvent'')
                 (metav1_type ''InternalEvent'') s) (\<lambda>s.
     res_bind (AddKnownTypes gv optionsTypes s) (AddUnversionedTypes ([], ''v1'') unversioned_metav1)))"

section \<open>The builder and the package variables\<close>

text \<open>\<open>Builder.Register\<close> appends one function to the builder; \<open>SchemeBuilder.AddToScheme\<close> calls them in order.\<close>

type_synonym scheme_builder = "(scheme \<Rightarrow> scheme res) list"

definition Register :: "string \<times> string \<Rightarrow> go_type list \<Rightarrow> scheme_builder \<Rightarrow> scheme_builder" where
  "Register gv object sb =
     sb @ [\<lambda>s. res_bind (AddKnownTypes gv object s) (AddToGroupVersion gv)]"

definition run_builder :: "scheme_builder \<Rightarrow> scheme \<Rightarrow> scheme res" where
  "run_builder sb s = res_fold (\<lambda>f. f) sb s"

definition SchemeGroupVersion :: "string \<times> string" where
  "SchemeGroupVersion = (''operator.tekton.dev'', ''v1alpha1'')"

definition v1alpha1_type :: "string \<Rightarrow> go_type" where
  "v1alpha1_type name = (''github.com/tektoncd/operator/pkg/apis/operator/v1alpha1'', name)"

text \<open>The builder after the \<open>init\<close> function of \<open>config_types.go\<close>.\<close>

definition v1alpha1_SchemeBuilder :: scheme_builder where
  "v1alpha1_SchemeBuilder =
     Register SchemeGroupVersion [v1alpha1_type ''Config'', v1alpha1_type ''ConfigList''] []"

text \<open>The list after the \<open>init\<close> function of the package \<open>apis\<close>.\<close>

definition AddToSchemes :: scheme_builder where
  "AddToSchemes = [run_builder v1alpha1_SchemeBuilder]"

definition AddToScheme_apis :: "scheme \<Rightarrow> scheme res" where
  "AddToScheme_apis s = run_builder AddToSchemes s"

text \<open>What the metrics are made for: \<open>GetGVKsFromAddToScheme\<close> on a new scheme; Go iterates in any order.\<close>

definition isKubeMetaKind :: "string \<Rightarrow> bool" where
  "isKubeMetaKind kind \<longleftrightarrow> suffix ''List'' kind \<or>
     kind \<in> {''PatchOptions'', ''GetOptions'', ''DeleteOptions'', ''ExportOptions'', ''APIVersions'',
       ''APIGroupList'', ''APIResourceList'', ''UpdateOptions'', ''CreateOptions'', ''Status'', ''WatchEvent'',
       ''ListOptions'', ''APIGroup''}"

definition GetGVKsFromAddToScheme :: "(scheme \<Rightarrow> scheme res) \<Rightarrow> gvk list res" where
  "GetGVKsFromAddToScheme addToSchemeFunc =
     res_map (\<lambda>s. filter (\<lambda>gvk. \<not> isKubeMetaKind (snd (snd gvk))) (List.map fst (gvkToType s)))
       (addToSchemeFunc NewScheme)"

section \<open>Registrations that do not clash\<close>

text \<open>What \<open>AddKnownTypeWithName\<close> does when the kind is new or has the same type.\<close>

definition register1 :: "gvk \<times> go_type \<Rightarrow> scheme \<Rightarrow> scheme" where
  "register1 = (\<lambda>(gvk, t) s.
     (let s = addObservedVersion (fst gvk, fst (snd gvk)) s;
          s = s\<lparr>gvkToType := AList.update gvk t (gvkToType s)\<rparr>
      in if gvk \<in> set (gvks_of s t) then s
         else s\<lparr>typeToGVK := AList.update t (gvks_of s t @ [gvk]) (typeToGVK s)\<rparr>))"

definition agrees :: "scheme \<Rightarrow> gvk \<times> go_type \<Rightarrow> bool" where
  "agrees s e \<longleftrightarrow> map_of (gvkToType s) (fst e) \<in> {None, Some (snd e)}"

lemma observed_frame [simp]:
  "gvkToType (addObservedVersion v s) = gvkToType s" "typeToGVK (addObservedVersion v s) = typeToGVK s"
  "unversionedTypes (addObservedVersion v s) = unversionedTypes s"
  "unversionedKinds (addObservedVersion v s) = unversionedKinds s"
  "gvks_of (addObservedVersion v s) = gvks_of s"
  by (auto simp: addObservedVersion_def gvks_of_def fun_eq_iff)

lemma observed_twice [simp]: "addObservedVersion v (addObservedVersion v s) = addObservedVersion v s"
  by (auto simp: addObservedVersion_def)

lemma register1_frame [simp]:
  "unversionedTypes (register1 e s) = unversionedTypes s" "unversionedKinds (register1 e s) = unversionedKinds s"
  by (cases e; simp add: register1_def Let_def)+

lemma gvkToType_register1: "map_of (gvkToType (register1 e s)) = (map_of (gvkToType s))(fst e \<mapsto> snd e)"
  by (cases e) (simp add: register1_def Let_def)

lemma gvks_register1:
  "gvks_of (register1 e s) t =
     (if t = snd e \<and> fst e \<notin> set (gvks_of s t) then gvks_of s t @ [fst e] else gvks_of s t)"
  by (cases e) (auto simp: register1_def Let_def gvks_of_def split: option.splits)

lemma AddKnownTypeWithName_ok:
  "fst (snd gvk) \<noteq> [] \<Longrightarrow> agrees s (gvk, t) \<Longrightarrow> AddKnownTypeWithName gvk t s = Ok (register1 (gvk, t) s)"
  by (auto simp: AddKnownTypeWithName_def register1_def agrees_def Let_def split: option.split)

text \<open>A list of registrations in which no kind has two types.\<close>

definition no_clash :: "(gvk \<times> go_type) list \<Rightarrow> scheme \<Rightarrow> bool" where
  "no_clash es s \<longleftrightarrow> distinct (List.map fst es) \<and> (\<forall>e \<in> set es. fst (snd (fst e)) \<noteq> [] \<and> agrees s e)"

lemma distinct_map_neq: "distinct (List.map f (x # xs)) \<Longrightarrow> y \<in> set xs \<Longrightarrow> f y \<noteq> f x"
  by (auto simp: image_iff)

lemma no_clash_Cons:
  "no_clash (e # es) s \<Longrightarrow> fst (snd (fst e)) \<noteq> [] \<and> agrees s e \<and> no_clash es (register1 e s)"
proof -
  assume clash: "no_clash (e # es) s"
  then have "fst x \<noteq> fst e" if "x \<in> set es" for x
    using distinct_map_neq [OF _ that, of fst e] by (simp add: no_clash_def)
  with clash show ?thesis by (simp add: no_clash_def agrees_def gvkToType_register1)
qed

lemma no_clash_append:
  "no_clash (es @ fs) s \<Longrightarrow> no_clash es s \<and> no_clash fs (fold register1 es s)"
proof (induction es arbitrary: s)
  case (Cons e es)
  from Cons.prems have "no_clash (es @ fs) (register1 e s)" using no_clash_Cons by simp
  with Cons show ?case by (auto simp: no_clash_def)
qed (simp add: no_clash_def)

abbreviation kinds_of :: "string \<times> string \<Rightarrow> go_type list \<Rightarrow> (gvk \<times> go_type) list" where
  "kinds_of gv \<equiv> List.map (\<lambda>t. (WithKind gv (snd t), t))"

lemma register1_observed:
  "register1 (WithKind gv k, t) (addObservedVersion gv s) = register1 (WithKind gv k, t) s"
  by (simp add: register1_def WithKind_def)

lemma AddKnownTypes_ok:
  assumes "no_clash (kinds_of gv types) s" and "types \<noteq> []"
  shows "AddKnownTypes gv types s = Ok (fold register1 (kinds_of gv types) s)"
proof -
  have run: "res_fold (\<lambda>t. AddKnownTypeWithName (WithKind gv (snd t)) t) ts u =
      Ok (fold register1 (kinds_of gv ts) u)" if "no_clash (kinds_of gv ts) u" for ts u
    using that
  proof (induction ts arbitrary: u)
    case (Cons t ts)
    with no_clash_Cons [of "(WithKind gv (snd t), t)" "kinds_of gv ts" u] show ?case
      by (simp add: AddKnownTypeWithName_ok)
  qed simp
  from assms(1) have "no_clash (kinds_of gv types) (addObservedVersion gv s)"
    by (simp add: no_clash_def agrees_def)
  from run [OF this] assms(2) show ?thesis
    by (cases types) (simp_all add: AddKnownTypes_def register1_observed)
qed

text \<open>All that \<open>AddToScheme\<close> registers.\<close>

definition api_kinds :: "(gvk \<times> go_type) list" where
  "api_kinds =
     kinds_of SchemeGroupVersion [v1alpha1_type ''Config'', v1alpha1_type ''ConfigList''] @
     [(WithKind SchemeGroupVersion ''WatchEvent'', metav1_type ''WatchEvent''),
      (WithKind (fst SchemeGroupVersion, APIVersionInternal) ''WatchEvent'', metav1_type ''InternalEvent'')] @
     kinds_of SchemeGroupVersion optionsTypes @ kinds_of ([], ''v1'') unversioned_metav1"

definition unversion1 :: "string \<times> string \<Rightarrow> go_type \<Rightarrow> scheme \<Rightarrow> scheme" where
  "unversion1 version t s =
     s\<lparr>unversionedTypes := AList.update t (WithKind version (snd t)) (unversionedTypes s),
       unversionedKinds := AList.update (snd t) t (unversionedKinds s)\<rparr>"

definition kind_free :: "scheme \<Rightarrow> go_type \<Rightarrow> bool" where
  "kind_free s t \<longleftrightarrow> map_of (unversionedKinds s) (snd t) \<in> {None, Some t}"

lemma add_unversioned_ok: "kind_free s t \<Longrightarrow> add_unversioned version t s = Ok (unversion1 version t s)"
  by (auto simp: add_unversioned_def unversion1_def kind_free_def Let_def)

lemma res_fold_unversioned:
  "(\<forall>t \<in> set ts. kind_free s t) \<Longrightarrow> distinct (List.map snd ts) \<Longrightarrow>
   res_fold (add_unversioned version) ts s = Ok (fold (unversion1 version) ts s)"
proof (induction ts arbitrary: s)
  case (Cons t ts)
  from Cons.prems(2) have "snd u \<noteq> snd t" if "u \<in> set ts" for u
    using distinct_map_neq [OF _ that] by blast
  with Cons.prems have "\<forall>u \<in> set ts. kind_free (unversion1 version t s) u"
    by (simp add: kind_free_def unversion1_def)
  with Cons show ?case by (simp add: add_unversioned_ok)
qed simp

text \<open>The whole of \<open>AddToScheme\<close> on a scheme with which nothing clashes.\<close>

definition api_free :: "scheme \<Rightarrow> bool" where
  "api_free s \<longleftrightarrow> (\<forall>e \<in> set api_kinds. agrees s e) \<and> (\<forall>t \<in> set unversioned_metav1. kind_free s t)"

definition with_api :: "scheme \<Rightarrow> scheme" where
  "with_api s = fold (unversion1 ([], ''v1'')) unversioned_metav1 (fold register1 api_kinds s)"

lemma api_kinds_distinct: "distinct (List.map fst api_kinds)" "\<forall>e \<in> set api_kinds. fst (snd (fst e)) \<noteq> []"
  by code_simp+

lemma fold_register1_frame [simp]:
  "unversionedKinds (fold register1 es s) = unversionedKinds s"
  "unversionedTypes (fold register1 es s) = unversionedTypes s"
  by (induction es arbitrary: s) simp_all

lemma unversioned_distinct: "distinct (List.map snd unversioned_metav1)"
  by code_simp

lemma AddToScheme_free: "api_free s \<Longrightarrow> AddToScheme_apis s = Ok (with_api s)"
proof -
  assume free: "api_free s"
  let ?config = "[v1alpha1_type ''Config'', v1alpha1_type ''ConfigList'']"
  let ?watch = "[(WithKind SchemeGroupVersion ''WatchEvent'', metav1_type ''WatchEvent''),
      (WithKind (fst SchemeGroupVersion, APIVersionInternal) ''WatchEvent'', metav1_type ''InternalEvent'')]"
  from free have "no_clash api_kinds s"
    using api_kinds_distinct by (simp add: no_clash_def api_free_def)
  then have c1: "no_clash (kinds_of SchemeGroupVersion ?config) s"
    and "no_clash (?watch @ kinds_of SchemeGroupVersion optionsTypes @ kinds_of ([], ''v1'') unversioned_metav1)
      (fold register1 (kinds_of SchemeGroupVersion ?config) s)" (is "no_clash _ ?s1")
    unfolding api_kinds_def by (blast dest: no_clash_append)+
  then have c2: "no_clash ?watch ?s1"
    and "no_clash (kinds_of SchemeGroupVersion optionsTypes @ kinds_of ([], ''v1'') unversioned_metav1)
      (fold register1 ?watch ?s1)" (is "no_clash _ ?s2")
    by (blast dest: no_clash_append)+
  then have c3: "no_clash (kinds_of SchemeGroupVersion optionsTypes) ?s2"
    and c4: "no_clash (kinds_of ([], ''v1'') unversioned_metav1) (fold register1 (kinds_of SchemeGroupVersion optionsTypes) ?s2)"
      (is "no_clash _ ?s3")
    by (blast dest: no_clash_append)+
  have observed: "no_clash (kinds_of ([], ''v1'') unversioned_metav1) (addObservedVersion ([], ''v1'') ?s3)"
    using c4 by (simp add: no_clash_def agrees_def)
  have w1: "AddKnownTypeWithName (WithKind SchemeGroupVersion ''WatchEvent'') (metav1_type ''WatchEvent'') ?s1 =
      Ok (register1 (hd ?watch) ?s1)"
    using no_clash_Cons [OF c2] by (simp add: AddKnownTypeWithName_ok)
  have w2: "AddKnownTypeWithName (WithKind (fst SchemeGroupVersion, APIVersionInternal) ''WatchEvent'')
      (metav1_type ''InternalEvent'') (register1 (hd ?watch) ?s1) = Ok ?s2"
    using no_clash_Cons [OF conjunct2 [OF conjunct2 [OF no_clash_Cons [OF c2]]]]
    by (simp add: AddKnownTypeWithName_ok)
  have unversioned: "AddUnversionedTypes ([], ''v1'') unversioned_metav1 ?s3 = Ok (with_api s)"
  proof -
    have "AddKnownTypes ([], ''v1'') unversioned_metav1 (addObservedVersion ([], ''v1'') ?s3) =
        AddKnownTypes ([], ''v1'') unversioned_metav1 ?s3"
      by (simp add: AddKnownTypes_def)
    also have "\<dots> = Ok (fold register1 api_kinds s)"
      using AddKnownTypes_ok [OF c4] by (simp add: api_kinds_def unversioned_metav1_def)
    finally show ?thesis
      using free res_fold_unversioned [OF _ unversioned_distinct, of "fold register1 api_kinds s"]
      by (simp add: AddUnversionedTypes_def with_api_def api_free_def kind_free_def)
  qed
  show ?thesis
    using AddKnownTypes_ok [OF c1] AddKnownTypes_ok [OF c3] w1 w2 unversioned
    by (simp add: AddToScheme_apis_def AddToSchemes_def run_builder_def v1alpha1_SchemeBuilder_def
        Register_def AddToGroupVersion_def optionsTypes_def)
qed

lemma gvkToType_fold: "distinct (List.map fst es) \<Longrightarrow>
   map_of (gvkToType (fold register1 es s)) = map_of (gvkToType s) ++ map_of es"
proof (induction es arbitrary: s)
  case (Cons e es)
  then have "fst e \<notin> dom (map_of es)" by (simp add: dom_map_of_conv_image_fst)
  with Cons show ?case
    by (cases e) (auto simp: gvkToType_register1 map_add_def fun_eq_iff split: option.splits)
qed simp

lemma gvks_fold: "distinct (List.map fst es) \<Longrightarrow>
   gvks_of (fold register1 es s) t =
     gvks_of s t @ List.map fst (filter (\<lambda>e. snd e = t \<and> fst e \<notin> set (gvks_of s t)) es)"
proof (induction es arbitrary: s)
  case (Cons e es)
  then have new: "fst x \<noteq> fst e" if "x \<in> set es" for x
    using distinct_map_neq [OF _ that, of fst e] by blast
  have "filter (\<lambda>x. snd x = t \<and> fst x \<notin> set (gvks_of (register1 e s) t)) es =
      filter (\<lambda>x. snd x = t \<and> fst x \<notin> set (gvks_of s t)) es"
    by (rule filter_cong) (use new in \<open>auto simp: gvks_register1\<close>)
  with Cons show ?case by (auto simp: gvks_register1)
qed simp

section \<open>Registering again\<close>

definition kind_known :: "scheme \<Rightarrow> gvk \<times> go_type \<Rightarrow> bool" where
  "kind_known s e \<longleftrightarrow> map_of (gvkToType s) (fst e) = Some (snd e) \<and> fst e \<in> set (gvks_of s (snd e)) \<and>
     addObservedVersion (fst (fst e), fst (snd (fst e))) s = s"

lemma register1_known: "kind_known s e \<Longrightarrow> register1 e s = s"
  by (cases e) (simp add: kind_known_def register1_def Let_def update_idem)

lemma observed_mono:
  "addObservedVersion v s = s \<Longrightarrow> set (observedVersions s) \<subseteq> set (observedVersions t) \<Longrightarrow> addObservedVersion v t = t"
proof -
  assume "addObservedVersion v s = s" and sub: "set (observedVersions s) \<subseteq> set (observedVersions t)"
  then have "snd v = [] \<or> snd v = APIVersionInternal \<or> v \<in> set (observedVersions s)"
    by (auto simp: addObservedVersion_def dest: arg_cong [of _ _ observedVersions] split: if_splits)
  with sub show ?thesis by (auto simp: addObservedVersion_def)
qed

lemma observed_register1: "set (observedVersions s) \<subseteq> set (observedVersions (register1 e s))"
  by (cases e) (auto simp: register1_def Let_def addObservedVersion_def)

lemma known_register1: "fst e = fst e' \<longrightarrow> snd e = snd e' \<Longrightarrow> kind_known s e \<Longrightarrow> kind_known (register1 e' s) e"
  unfolding kind_known_def
  by (auto simp: gvkToType_register1 gvks_register1 intro: observed_mono [OF _ observed_register1])

lemma known_registered: "kind_known (register1 e s) e"
proof -
  have "addObservedVersion (fst (fst e), fst (snd (fst e))) (register1 e s) = register1 e s"
    by (cases e) (auto simp: register1_def Let_def addObservedVersion_def)
  then show ?thesis by (simp add: kind_known_def gvkToType_register1 gvks_register1)
qed

lemma known_fold:
  "distinct (List.map fst es) \<Longrightarrow> e \<in> set es \<or> kind_known s e \<and> e \<notin> set es \<and> fst e \<notin> fst ` set es \<Longrightarrow>
   kind_known (fold register1 es s) e"
proof (induction es arbitrary: s)
  case (Cons x es)
  then have new: "fst y \<noteq> fst x" if "y \<in> set es" for y
    using distinct_map_neq [OF _ that, of fst x] by blast
  show ?case
  proof (cases "e = x")
    case True
    with Cons new known_registered [of x s] show ?thesis by auto
  next
    case False
    with Cons.prems(2) new [of e] have "fst e \<noteq> fst x" by auto
    with Cons False known_register1 [of e x s] show ?thesis by auto
  qed
qed simp

lemma fold_known: "\<forall>e \<in> set es. kind_known s e \<Longrightarrow> fold register1 es s = s"
  by (induction es) (simp_all add: register1_known)

lemma unversion1_frame [simp]:
  "gvkToType (unversion1 v t s) = gvkToType s" "typeToGVK (unversion1 v t s) = typeToGVK s"
  "gvks_of (unversion1 v t s) = gvks_of s" "observedVersions (unversion1 v t s) = observedVersions s"
  by (simp_all add: unversion1_def gvks_of_def fun_eq_iff)

lemma fold_unversion1_frame [simp]:
  "gvkToType (fold (unversion1 v) ts s) = gvkToType s" "typeToGVK (fold (unversion1 v) ts s) = typeToGVK s"
  "gvks_of (fold (unversion1 v) ts s) = gvks_of s"
  "observedVersions (fold (unversion1 v) ts s) = observedVersions s"
  by (induction ts arbitrary: s) simp_all

lemma known_unversioned: "kind_known s e \<Longrightarrow> kind_known (fold (unversion1 v) ts s) e"
  by (simp add: kind_known_def) (rule observed_mono, auto)

definition unversioned_known :: "string \<times> string \<Rightarrow> scheme \<Rightarrow> go_type \<Rightarrow> bool" where
  "unversioned_known v s t \<longleftrightarrow> map_of (unversionedTypes s) t = Some (WithKind v (snd t)) \<and>
     map_of (unversionedKinds s) (snd t) = Some t"

lemma unversioned_fold:
  "distinct (List.map snd ts) \<Longrightarrow>
   t \<in> set ts \<or> unversioned_known v s t \<and> snd t \<notin> snd ` set ts \<Longrightarrow>
   unversioned_known v (fold (unversion1 v) ts s) t"
proof (induction ts arbitrary: s)
  case (Cons x ts)
  then have "snd y \<noteq> snd x" if "y \<in> set ts" for y
    using distinct_map_neq [OF _ that, of snd x] by blast
  with Cons show ?case by (auto simp: unversioned_known_def unversion1_def)
qed simp

lemma fold_unversioned_known: "\<forall>t \<in> set ts. unversioned_known v s t \<Longrightarrow> fold (unversion1 v) ts s = s"
  by (induction ts) (simp_all add: unversioned_known_def unversion1_def update_idem)

lemma with_api_known:
  "e \<in> set api_kinds \<Longrightarrow> kind_known (with_api s) e"
  "t \<in> set unversioned_metav1 \<Longrightarrow> unversioned_known ([], ''v1'') (with_api s) t"
  unfolding with_api_def
  by (auto intro!: known_unversioned known_fold unversioned_fold api_kinds_distinct unversioned_distinct)

lemma with_api_again: "with_api (with_api s) = with_api s" and api_free_again: "api_free (with_api s)"
proof -
  show "with_api (with_api s) = with_api s"
    unfolding with_api_def [of "with_api s"]
    by (simp add: fold_known fold_unversioned_known with_api_known)
  show "api_free (with_api s)"
    using with_api_known [of _ s]
    by (simp add: api_free_def agrees_def kind_free_def kind_known_def unversioned_known_def)
qed

section \<open>Properties\<close>

text \<open>C37:
  Registering the API types works on every scheme that does not use their kinds for other types: it
  returns no error and does not panic, every kind the scheme knew keeps its type, and of the types
  \<open>Config\<close> and \<open>ConfigList\<close> each has exactly one kind, the one of its name in \<open>operator.tekton.dev/v1alpha1\<close>,
  which leads back to the type.  Registering again changes nothing.
\<close>

theorem AddToScheme_registers:
  assumes "api_free s" and "gvks_of s (v1alpha1_type ''Config'') = []"
    and "gvks_of s (v1alpha1_type ''ConfigList'') = []"
  shows "\<exists>s'. AddToScheme_apis s = Ok s' \<and> AddToScheme_apis s' = Ok s' \<and>
     (\<forall>g t. map_of (gvkToType s) g = Some t \<longrightarrow> map_of (gvkToType s') g = Some t) \<and>
     (\<forall>k \<in> {''Config'', ''ConfigList''}.
        res_map fst (ObjectKinds s' (v1alpha1_type k)) = Ok [WithKind SchemeGroupVersion k] \<and>
        New_type s' (WithKind SchemeGroupVersion k) = Ok (v1alpha1_type k))"
proof (intro exI conjI allI impI ballI)
  show "AddToScheme_apis s = Ok (with_api s)" by (rule AddToScheme_free [OF assms(1)])
  show "AddToScheme_apis (with_api s) = Ok (with_api s)"
    using AddToScheme_free [OF api_free_again] by (simp add: with_api_again)
  fix g t
  assume known: "map_of (gvkToType s) g = Some t"
  with assms(1) have "map_of api_kinds g = Some u \<Longrightarrow> u = t" for u
    by (fastforce simp: api_free_def agrees_def dest: map_of_SomeD)
  then show "map_of (gvkToType (with_api s)) g = Some t" using known
    by (auto simp: with_api_def gvkToType_fold api_kinds_distinct map_add_def split: option.split)
next
  fix k
  assume k: "k \<in> {''Config'', ''ConfigList''}"
  then have mem: "(WithKind SchemeGroupVersion k, v1alpha1_type k) \<in> set api_kinds"
    by (auto simp: api_kinds_def v1alpha1_type_def)
  have only: "filter (\<lambda>e. snd e = v1alpha1_type k) api_kinds = [(WithKind SchemeGroupVersion k, v1alpha1_type k)]"
    using k by (auto simp: api_kinds_def optionsTypes_def unversioned_metav1_def v1alpha1_type_def metav1_type_def)
  have "gvks_of (with_api s) (v1alpha1_type k) = [WithKind SchemeGroupVersion k]"
    using k assms(2,3) only by (auto simp: with_api_def gvks_fold api_kinds_distinct)
  then show "res_map fst (ObjectKinds (with_api s) (v1alpha1_type k)) = Ok [WithKind SchemeGroupVersion k]"
    by (auto simp: gvks_of_def ObjectKinds_def split: option.splits)
  show "New_type (with_api s) (WithKind SchemeGroupVersion k) = Ok (v1alpha1_type k)"
    using with_api_known(1) [OF mem] by (simp add: kind_known_def New_type_def)
qed

section \<open>Witnesses\<close>

lemma api_free_new: "api_free NewScheme"
  by (simp add: api_free_def agrees_def kind_free_def NewScheme_def)

theorem AddToScheme_registers_witness:
  "\<exists>s'. AddToScheme_apis NewScheme = Ok s' \<and>
     New_type s' (''operator.tekton.dev'', ''v1alpha1'', ''Config'') = Ok (v1alpha1_type ''Config'')"
proof -
  have "gvks_of NewScheme t = []" for t
    by (simp add: NewScheme_def gvks_of_def)
  from AddToScheme_registers [OF api_free_new this this] show ?thesis
    by (auto simp: WithKind_def SchemeGroupVersion_def)
qed

text \<open>The metrics of the operator are made for \<open>Config\<close> only.\<close>

lemma operator_gvks: "GetGVKsFromAddToScheme AddToScheme_apis = Ok [WithKind SchemeGroupVersion ''Config'']"
  by code_simp

end
