(* ===== verification/Cluster.thy ===== *)
theory Cluster imports ConfigTypes RbacTypes ApiScheme begin

text \<open>
  The interface to the cluster.  The API server, the controller-runtime client and the strategic
  merge patch library are not the operator's code: they are the fields of the record \<open>client\<close>,
  functions on an arbitrary world \<open>'w\<close> that may fail and may change the world.  A program runs on a
  \<open>cluster\<close>: the world and the trace of the calls made so far.  The trace is a ghost component, which
  no operation reads; it is what the properties about order and about status updates talk about.

  The typed reads of the operator return what it looks at: a \<open>Config\<close>, the rollout fields of a
  \<open>Deployment\<close>, and for a webhook configuration only whether it was found.  The calls of the rbac
  controller are declared in \<open>Rbac\<close>; their events are listed here, with the others.
\<close>

section \<open>Objects the operator reads\<close>

record DeploymentCondition =
  CondType :: string
  Reason :: string

text \<open>The fields of an \<open>appsv1.Deployment\<close>; \<open>SpecReplicas\<close> is a pointer, nil is \<open>None\<close>.\<close>

record Rollout =
  DeploymentName :: string
  Generation :: int
  SpecReplicas :: "int option"
  ObservedGeneration :: int
  StatusReplicas :: int
  UpdatedReplicas :: int
  AvailableReplicas :: int
  RolloutConditions :: "DeploymentCondition list"

section \<open>Calls\<close>

text \<open>Each event records the arguments of a call and the error it returned, if any.\<close>

datatype event =
    GetConfig string string "go_error option"
  | UpdateStatus Config "go_error option"
  | CreateConfig Config "go_error option"
  | GetDeployment string string "go_error option"
  | GetWebhook string "go_error option"
  | GetObj obj "go_error option"
  | CreateObj obj "go_error option"
  | UpdateObj obj "go_error option"
  | DeleteObj bool obj "go_error option"
  | GetNS string string "go_error option"
  | GetSA string string "go_error option"
  | CreateSA ServiceAccount "go_error option"
  | GetRB string string "go_error option"
  | CreateRB string RoleBinding "go_error option"
  | UpdateRB string RoleBinding "go_error option"
  | GetCR string "go_error option"
  | CreateCR ClusterRole "go_error option"
  | UpdateCR ClusterRole "go_error option"

text \<open>
  \<open>delete_obj\<close> takes whether the propagation policy is foreground; \<open>poll_ticks\<close> is the number of ticks
  the ticker of \<open>wait.PollImmediate\<close> delivers before its timeout.  \<open>known_types\<close> is client-go's
  \<open>scheme.Scheme\<close>; for the types in it \<open>strategic_new\<close> and \<open>strategic_merge\<close> are \<open>CreateThreeWayMergePatch\<close> and
  \<open>StrategicMergePatchUsingLookupPatchMeta\<close>.  \<open>marshal\<close> is \<open>MarshalJSON\<close>, \<open>unmarshal\<close> reads a text as a JSON object.
\<close>

record 'w client =
  get_config :: "string \<Rightarrow> string \<Rightarrow> 'w \<Rightarrow> (go_error + Config) \<times> 'w"
  update_status :: "Config \<Rightarrow> 'w \<Rightarrow> (go_error + unit) \<times> 'w"
  create_config :: "Config \<Rightarrow> 'w \<Rightarrow> (go_error + unit) \<times> 'w"
  get_deployment :: "string \<Rightarrow> string \<Rightarrow> 'w \<Rightarrow> (go_error + Rollout) \<times> 'w"
  get_webhook :: "string \<Rightarrow> 'w \<Rightarrow> (go_error + unit) \<times> 'w"
  get_obj :: "obj \<Rightarrow> 'w \<Rightarrow> (go_error + obj) \<times> 'w"
  create_obj :: "obj \<Rightarrow> 'w \<Rightarrow> (go_error + unit) \<times> 'w"
  update_obj :: "obj \<Rightarrow> 'w \<Rightarrow> (go_error + unit) \<times> 'w"
  delete_obj :: "bool \<Rightarrow> obj \<Rightarrow> 'w \<Rightarrow> (go_error + unit) \<times> 'w"
  poll_ticks :: "nat \<Rightarrow> 'w \<Rightarrow> nat \<times> 'w"
  known_types :: scheme
  strategic_new :: "go_type \<Rightarrow> string \<Rightarrow> obj \<Rightarrow> obj \<Rightarrow> go_error + string"
  strategic_merge :: "go_type \<Rightarrow> string \<Rightarrow> obj \<Rightarrow> go_error + obj"
  marshal :: "obj \<Rightarrow> string"
  unmarshal :: "string \<Rightarrow> go_error + obj"

text \<open>\<open>reconcile.Result\<close>; the delay in seconds.\<close>

record result =
  Requeue :: bool
  RequeueAfter :: nat

definition emptyResult :: result where
  "emptyResult = \<lparr>Requeue = False, RequeueAfter = 0\<rparr>"

record 'w cluster =
  world :: 'w
  trace :: "event list"

text \<open>One call: run it on the world and record it.\<close>

definition call ::
  "('w \<Rightarrow> (go_error + 'a) \<times> 'w) \<Rightarrow> (go_error option \<Rightarrow> event) \<Rightarrow> (('w, 'z) cluster_scheme, 'a) go" where
  "call f ev = (\<lambda>s. case f (world s) of
       (Inl e, w) \<Rightarrow> (Err e, s\<lparr>world := w, trace := trace s @ [ev (Some e)]\<rparr>)
     | (Inr a, w) \<Rightarrow> (Ok a, s\<lparr>world := w, trace := trace s @ [ev None]\<rparr>))"

text \<open>Waiting changes the world without a call.\<close>

definition elapse :: "('w \<Rightarrow> nat \<times> 'w) \<Rightarrow> (('w, 'z) cluster_scheme, nat) go" where
  "elapse f = (\<lambda>s. case f (world s) of (n, w) \<Rightarrow> (Ok n, s\<lparr>world := w\<rparr>))"

section \<open>What a program appends to the trace\<close>

definition appends :: "(event \<Rightarrow> bool) \<Rightarrow> ('w, 'z) cluster_scheme \<Rightarrow> ('w, 'z) cluster_scheme \<Rightarrow> bool" where
  "appends P s t \<longleftrightarrow> (\<exists>es. trace t = trace s @ es \<and> list_all P es)"

interpretation em: step_relation "appends P :: ('w, 'z) cluster_scheme \<Rightarrow> _ \<Rightarrow> bool" for P
proof
  fix s t u :: "('w, 'z) cluster_scheme"
  show "appends P s s" by (auto simp: appends_def)
  assume "appends P s t" and "appends P t u"
  then show "appends P s u" by (fastforce simp: appends_def)
qed

abbreviation emits :: "(event \<Rightarrow> bool) \<Rightarrow> (('w, 'z) cluster_scheme, 'a) go \<Rightarrow> bool" where
  "emits P \<equiv> step_relation.keeps (appends P)"

lemma appends_mono: "appends P s t \<Longrightarrow> (\<And>ev. P ev \<Longrightarrow> Q ev) \<Longrightarrow> appends Q s t"
  by (auto simp: appends_def list_all_iff)

lemma emits_mono: "emits P m \<Longrightarrow> (\<And>ev. P ev \<Longrightarrow> Q ev) \<Longrightarrow> emits Q m"
  by (auto simp: em.keeps_def intro: appends_mono)

lemma emits_call: "(\<And>e. P (ev e)) \<Longrightarrow> emits P (call f ev)"
  by (auto simp: em.keeps_def call_def appends_def split: prod.split sum.split)

lemma emits_elapse: "emits P (elapse f)"
  by (auto simp: em.keeps_def elapse_def appends_def split: prod.split)

lemma emits_modify: "(\<And>s. trace (f s) = trace s) \<Longrightarrow> emits P (go_modify f)"
  by (auto simp: em.keeps_def go_defs appends_def)

lemmas emits_intros = em.keeps_intros emits_call emits_elapse emits_modify

lemma emitsD:
  assumes "emits P m" and "m s = (r, s')"
  obtains es where "trace s' = trace s @ es" and "list_all P es"
  using em.keepsD [OF assms] by (auto simp: appends_def)

end
