(* ===== verification/MergePatch.thy ===== *)
theory MergePatch imports Unstructured begin

text \<open>
  The JSON merge patch (RFC 7386) with which \<open>Apply\<close> updates objects whose kind client-go does not know:
  apimachinery's \<open>jsonmergepatch\<close> and \<open>mergepatch.HasConflicts\<close>, and \<open>merge.go\<close> of evanphx/json-patch.

  The functions work on JSON trees where the code also goes through their texts.  A number is compared
  as it is written; the code compares \<open>float64\<close>s, which is the same for integers below \<open>2^53\<close>.  The nil
  of a Go map's value is \<open>JNull\<close>.
\<close>

section \<open>Differences\<close>

function (sequential) matchesValue :: "json \<Rightarrow> json \<Rightarrow> bool"
  and matchesArray :: "json list \<Rightarrow> json list \<Rightarrow> bool"
  and matches_fields :: "obj \<Rightarrow> obj \<Rightarrow> bool" where
  "matchesValue JNull JNull = True"
| "matchesValue (JBool a) (JBool b) = (a = b)"
| "matchesValue (JInt a) (JInt b) = (a = b)"
| "matchesValue (JFloat a) (JFloat b) = (a = b)"
| "matchesValue (JStr a) (JStr b) = (a = b)"
| "matchesValue (JList a) (JList b) = matchesArray a b"
| "matchesValue (JObj a) (JObj b) =
     (matches_fields a b \<and> list_all (\<lambda>e. map_of a (fst e) = None \<longrightarrow> snd e = JNull) b)"
| "matchesValue a b = False"
| "matchesArray [] [] = True"
| "matchesArray (x # xs) (y # ys) = (matchesValue x y \<and> matchesArray xs ys)"
| "matchesArray xs ys = False"
| "matches_fields [] b = True"
| "matches_fields ((k, v) # a) b =
     ((case map_of b k of Some w \<Rightarrow> matchesValue v w | None \<Rightarrow> v = JNull) \<and> matches_fields a b)"
  by pat_completeness auto
termination
  by (relation "measure (\<lambda>x. case x of
        Inl (a, b) \<Rightarrow> size a
      | Inr (Inl (xs, ys)) \<Rightarrow> size_list size xs
      | Inr (Inr (a, b)) \<Rightarrow> size_list (size_prod (\<lambda>k. 0) size) a)") auto

text \<open>\<open>diff_value av bv\<close> is what \<open>getDiff\<close> stores for a key of \<open>b\<close>.\<close>

function (sequential) getDiff :: "obj \<Rightarrow> obj \<Rightarrow> obj"
  and diff_entries :: "obj \<Rightarrow> obj \<Rightarrow> obj"
  and diff_value :: "json option \<Rightarrow> json \<Rightarrow> json option" where
  "getDiff a b = diff_entries a b @
     List.map (\<lambda>e. (fst e, JNull)) (filter (\<lambda>e. map_of b (fst e) = None) a)"
| "diff_entries a [] = []"
| "diff_entries a ((k, bv) # b) =
     (case diff_value (map_of a k) bv of Some d \<Rightarrow> [(k, d)] | None \<Rightarrow> []) @ diff_entries a b"
| "diff_value (Some (JObj at)) (JObj bt) = (let dst = getDiff at bt in if dst = [] then None else Some (JObj dst))"
| "diff_value (Some av) bv = (if matchesValue av bv then None else Some bv)"
| "diff_value None bv = Some bv"
  by pat_completeness auto
termination
  by (relation "measure (\<lambda>x. case x of
        Inl (a, b) \<Rightarrow> Suc (2 * size_list (size_prod (\<lambda>k. 0) size) b)
      | Inr (Inl (a, b)) \<Rightarrow> 2 * size_list (size_prod (\<lambda>k. 0) size) b
      | Inr (Inr (av, bv)) \<Rightarrow> 2 * size bv)") auto

declare getDiff.simps [simp del]

text \<open>\<open>keepOrDeleteNullInObj\<close>.\<close>

function (sequential) keepOrDeleteNull :: "bool \<Rightarrow> obj \<Rightarrow> obj"
  and keep_value :: "bool \<Rightarrow> json \<Rightarrow> json option" where
  "keepOrDeleteNull keepNull [] = []"
| "keepOrDeleteNull keepNull ((k, v) # m) =
     (case keep_value keepNull v of Some f \<Rightarrow> [(k, f)] | None \<Rightarrow> []) @ keepOrDeleteNull keepNull m"
| "keep_value keepNull JNull = (if keepNull then Some JNull else None)"
| "keep_value keepNull (JObj []) = (if keepNull then None else Some (JObj []))"
| "keep_value keepNull (JObj sub) = (let f = keepOrDeleteNull keepNull sub in if f = [] then None else Some (JObj f))"
| "keep_value keepNull v = (if keepNull then None else Some v)"
  by pat_completeness auto
termination
  by (relation "measure (\<lambda>x. case x of
        Inl (n, m) \<Rightarrow> size_list (size_prod (\<lambda>k. 0) size) m | Inr (n, v) \<Rightarrow> size v)") auto

function (sequential) HasConflicts :: "json \<Rightarrow> json \<Rightarrow> bool"
  and conflict_fields :: "obj \<Rightarrow> obj \<Rightarrow> bool"
  and conflict_items :: "json list \<Rightarrow> json list \<Rightarrow> bool" where
  "HasConflicts (JObj l) (JObj r) = conflict_fields l r"
| "HasConflicts (JList l) (JList r) = (length l \<noteq> length r \<or> conflict_items l r)"
| "HasConflicts l r = (l \<noteq> r)"
| "conflict_fields [] r = False"
| "conflict_fields ((k, v) # l) r =
     ((case map_of r k of Some w \<Rightarrow> HasConflicts v w | None \<Rightarrow> False) \<or> conflict_fields l r)"
| "conflict_items (x # xs) (y # ys) = (HasConflicts x y \<or> conflict_items xs ys)"
| "conflict_items xs ys = False"
  by pat_completeness auto
termination
  by (relation "measure (\<lambda>x. case x of
        Inl (a, b) \<Rightarrow> size a
      | Inr (Inl (a, b)) \<Rightarrow> size_list (size_prod (\<lambda>k. 0) size) a
      | Inr (Inr (xs, ys)) \<Rightarrow> size_list size xs)") auto

section \<open>Merging\<close>

function (sequential) pruneNulls :: "json \<Rightarrow> json"
  and pruneDocNulls :: "obj \<Rightarrow> obj"
  and pruneAryNulls :: "json list \<Rightarrow> json list" where
  "pruneNulls (JObj doc) = JObj (pruneDocNulls doc)"
| "pruneNulls (JList ary) = JList (pruneAryNulls ary)"
| "pruneNulls v = v"
| "pruneDocNulls [] = []"
| "pruneDocNulls ((k, v) # doc) =
     (if v = JNull then pruneDocNulls doc else (k, pruneNulls v) # pruneDocNulls doc)"
| "pruneAryNulls [] = []"
| "pruneAryNulls (v # ary) = (if v = JNull then pruneAryNulls ary else pruneNulls v # pruneAryNulls ary)"
  by pat_completeness auto
termination
  by (relation "measure (\<lambda>x. case x of
        Inl v \<Rightarrow> size v
      | Inr (Inl doc) \<Rightarrow> size_list (size_prod (\<lambda>k. 0) size) doc
      | Inr (Inr ary) \<Rightarrow> size_list size ary)") auto

text \<open>\<open>mergeDocs\<close> as \<open>MergePatch\<close> calls it (\<open>mergeMerge\<close> is false), and \<open>merge\<close> of two values that are there.\<close>

function (sequential) mergeDocs :: "obj \<Rightarrow> obj \<Rightarrow> obj"
  and merge_value :: "json \<Rightarrow> json \<Rightarrow> json" where
  "mergeDocs doc [] = doc"
| "mergeDocs doc ((k, v) # patch) = mergeDocs
     (if v = JNull then AList.delete k doc
      else AList.update k (case map_of doc k of
             Some cur \<Rightarrow> if cur = JNull then pruneNulls v else merge_value cur v
           | None \<Rightarrow> pruneNulls v) doc) patch"
| "merge_value (JObj cur) (JObj patch) = JObj (mergeDocs cur patch)"
| "merge_value (JObj cur) patch = patch"
| "merge_value cur patch = pruneNulls patch"
  by pat_completeness auto
termination
  by (relation "measure (\<lambda>x. case x of
        Inl (d, p) \<Rightarrow> size_list (size_prod (\<lambda>k. 0) size) p | Inr (c, p) \<Rightarrow> size p)") auto

definition CreateThreeWayJSONMergePatch :: "obj \<Rightarrow> obj \<Rightarrow> obj \<Rightarrow> go_error + obj" where
  "CreateThreeWayJSONMergePatch original modified current =
     (let addAndChangePatch = keepOrDeleteNull False (getDiff current modified);
          deletePatch = keepOrDeleteNull True (getDiff original modified)
      in if HasConflicts (JObj addAndChangePatch) (JObj deletePatch)
         then Inl (PlainError ''patch conflict'')
         else Inr (mergeDocs deletePatch addAndChangePatch))"

end
