(* ===== verification/ManifestOps.thy ===== *)
theory ManifestOps imports Cluster MergePatch begin

text \<open>
  \<open>Apply\<close> and \<open>Delete\<close> of manifestival (manifestival.go), over the client of
  \<open>manifestival/controller-runtime-client\<close>, its patches (internal/patch), and \<open>wait.PollImmediate\<close>.

  \<open>apply\<close> annotates the resource it is given, and the resources of a manifest share their maps with
  it: \<open>Apply\<close> returns the changed manifest beside the error.  \<open>Filter\<close> makes deep copies, so what is
  applied through a filter leaves the manifest itself unchanged (\<open>apply_copy\<close>).
\<close>

definition LastAppliedConfigAnnotation :: string where
  "LastAppliedConfigAnnotation = ''kubectl.kubernetes.io/last-applied-configuration''"

definition resourceCreated :: string where
  "resourceCreated = ''new''"

definition annotate :: "string \<Rightarrow> string \<Rightarrow> obj \<Rightarrow> obj" where
  "annotate key val spec =
     SetAnnotations (AList.update key val (case GetAnnotations spec of Some a \<Rightarrow> a | None \<Rightarrow> [])) spec"

text \<open>The effect of \<open>lastApplied\<close> on its argument; its result is the marshalled object.\<close>

definition strip_lastApplied :: "obj \<Rightarrow> obj" where
  "strip_lastApplied u = (case GetAnnotations u of
     Some ann \<Rightarrow> if ann = [] then u else SetAnnotations (AList.delete LastAppliedConfigAnnotation ann) u
   | None \<Rightarrow> u)"

definition okToDelete :: "obj \<Rightarrow> bool" where
  "okToDelete spec =
     (if GetKind spec = ''Namespace''
      then lookup_nil (GetAnnotations spec) ''manifestival'' = Some resourceCreated
      else True)"

section \<open>Patches\<close>

text \<open>\<open>patch.go\<close>.  The schema of a strategic patch is that of the type of the object.\<close>

datatype patch = JSONMergePatch obj | StrategicMergePatch go_type string

definition getLastAppliedConfig :: "obj \<Rightarrow> string" where
  "getLastAppliedConfig u = (case GetAnnotations u of
     None \<Rightarrow> []
   | Some annotations \<Rightarrow> (case map_of annotations LastAppliedConfigAnnotation of Some text \<Rightarrow> text | None \<Rightarrow> []))"

definition GroupVersionKind :: "obj \<Rightarrow> gvk" where
  "GroupVersionKind u = (case ParseGroupVersion (GetAPIVersion u) of
     Inl err \<Rightarrow> ([], [], []) | Inr gv \<Rightarrow> WithKind gv (GetKind u))"

text \<open>\<open>original\<close>: no text is an empty object.\<close>

definition read_original :: "'w client \<Rightarrow> string \<Rightarrow> go_error + obj" where
  "read_original C original = (if original = [] then Inr [] else unmarshal C original)"

text \<open>\<open>createJsonMergePatch\<close> and \<open>createStrategicMergePatch\<close>; a patch that is \<open>{}\<close> is nil.\<close>

definition createJsonMergePatch :: "'w client \<Rightarrow> string \<Rightarrow> obj \<Rightarrow> obj \<Rightarrow> go_error + patch option" where
  "createJsonMergePatch C original modified current = (case read_original C original of
     Inl err \<Rightarrow> Inl err
   | Inr original \<Rightarrow> (case CreateThreeWayJSONMergePatch original modified current of
       Inl err \<Rightarrow> Inl err
     | Inr p \<Rightarrow> Inr (if p = [] then None else Some (JSONMergePatch p))))"

definition createStrategicMergePatch ::
  "'w client \<Rightarrow> string \<Rightarrow> obj \<Rightarrow> obj \<Rightarrow> go_type \<Rightarrow> go_error + patch option" where
  "createStrategicMergePatch C original modified current t = (case strategic_new C t original modified current of
     Inl err \<Rightarrow> Inl err
   | Inr p \<Rightarrow> Inr (if p = ''{}'' then None else Some (StrategicMergePatch t p)))"

text \<open>The error of \<open>New_type\<close> is always that of a type that is not registered.\<close>

definition patch_New :: "'w client \<Rightarrow> obj \<Rightarrow> obj \<Rightarrow> go_error + patch option" where
  "patch_New C live spec = (case New_type (known_types C) (GroupVersionKind spec) of
     Ok t \<Rightarrow> createStrategicMergePatch C (getLastAppliedConfig live) spec live t
   | _ \<Rightarrow> createJsonMergePatch C (getLastAppliedConfig live) spec live)"

text \<open>\<open>UnmarshalJSON\<close> refuses an object without a kind.\<close>

definition patch_Merge :: "'w client \<Rightarrow> patch \<Rightarrow> obj \<Rightarrow> go_error + obj" where
  "patch_Merge C p u = (case (case p of
       JSONMergePatch d \<Rightarrow> Inr (mergeDocs u d)
     | StrategicMergePatch t d \<Rightarrow> strategic_merge C t d u) of
     Inl err \<Rightarrow> Inl err
   | Inr result \<Rightarrow>
       if snd (snd (GroupVersionKind result)) = [] then Inl (PlainError ''Object Kind is missing'')
       else Inr result)"

text \<open>\<open>overlay.Copy\<close>: the values of \<open>src\<close> over those of \<open>tgt\<close>.\<close>

function (sequential) overlay :: "obj \<Rightarrow> obj \<Rightarrow> obj"
  and overlay_value :: "json \<Rightarrow> json option \<Rightarrow> json"
  and overlay_items :: "json list \<Rightarrow> json list \<Rightarrow> json list" where
  "overlay [] tgt = tgt"
| "overlay ((k, v) # src) tgt = overlay src (AList.update k (overlay_value v (map_of tgt k)) tgt)"
| "overlay_value (JObj x) (Some (JObj y)) = JObj (overlay x y)"
| "overlay_value (JList x) (Some (JList y)) =
     JList (if length y < length x then x else overlay_items x y)"
| "overlay_value v t = v"
| "overlay_items (JObj xi # xs) (JObj yi # ys) = JObj (overlay xi yi) # overlay_items xs ys"
| "overlay_items (x # xs) (y # ys) = x # overlay_items xs ys"
| "overlay_items xs ys = []"
  by pat_completeness auto
termination
  by (relation "measure (\<lambda>x. case x of
        Inl (src, tgt) \<Rightarrow> size_list (size_prod (\<lambda>k. 0) size) src
      | Inr (Inl (v, t)) \<Rightarrow> size v
      | Inr (Inr (xs, ys)) \<Rightarrow> size_list size xs)") auto

section \<open>One resource\<close>

text \<open>\<open>None\<close>: the object is not there.\<close>

definition mf_get :: "'w client \<Rightarrow> obj \<Rightarrow> (('w, 'z) cluster_scheme, obj option) go" where
  "mf_get C spec =
     go_catch (call (get_obj C spec) (GetObj spec))
       (\<lambda>err. if IsNotFound err then go_return None else go_fail err)
       (\<lambda>result. go_return (Some result))"

text \<open>\<open>update\<close>; the value is the changed \<open>spec\<close> and the error.\<close>

definition mf_update ::
  "'w client \<Rightarrow> obj \<Rightarrow> obj \<Rightarrow> (('w, 'z) cluster_scheme, obj \<times> go_error option) go" where
  "mf_update C live spec =
     (let spec = strip_lastApplied spec;
          live = annotate LastAppliedConfigAnnotation (marshal C spec) live
      in go_catch (call (update_obj C live) (UpdateObj live))
           (\<lambda>err. if IsInvalid err then
                (let live = overlay spec live
                 in go_catch (call (update_obj C live) (UpdateObj live))
                      (\<lambda>err. go_return (spec, Some err)) (\<lambda>u. go_return (spec, None)))
              else go_return (spec, Some err))
           (\<lambda>u. go_return (spec, None)))"

definition apply_one ::
  "'w client \<Rightarrow> obj \<Rightarrow> (('w, 'z) cluster_scheme, obj \<times> go_error option) go" where
  "apply_one C spec =
     go_catch (mf_get C spec) (\<lambda>err. go_return (spec, Some err)) (\<lambda>current. case current of
       None \<Rightarrow>
         (let spec = annotate ''manifestival'' resourceCreated spec;
              current = strip_lastApplied spec;
              current = annotate LastAppliedConfigAnnotation (marshal C current) current
          in go_catch (call (create_obj C current) (CreateObj current))
               (\<lambda>err. go_return (spec, Some err)) (\<lambda>u. go_return (spec, None)))
     | Some current \<Rightarrow> (case patch_New C current spec of
           Inl err \<Rightarrow> go_return (spec, Some err)
         | Inr None \<Rightarrow> go_return (spec, None)
         | Inr (Some diff) \<Rightarrow> (case patch_Merge C diff current of
               Inl err \<Rightarrow> go_return (spec, Some err)
             | Inr live \<Rightarrow> mf_update C live spec)))"

definition delete_call :: "'w client \<Rightarrow> bool \<Rightarrow> obj \<Rightarrow> (('w, 'z) cluster_scheme, unit) go" where
  "delete_call C foreground spec =
     go_catch (call (delete_obj C foreground spec) (DeleteObj foreground spec))
       (\<lambda>err. if IsNotFound err then go_return () else go_fail err) go_return"

definition delete_one :: "'w client \<Rightarrow> bool \<Rightarrow> obj \<Rightarrow> (('w, 'z) cluster_scheme, unit) go" where
  "delete_one C foreground spec =
     go_catch (mf_get C spec) (\<lambda>err. delete_call C foreground spec) (\<lambda>current. case current of
       None \<Rightarrow> go_return ()
     | Some c \<Rightarrow> delete_call C foreground spec)"

section \<open>A manifest\<close>

text \<open>A method call on a nil client.\<close>

definition with_client ::
  "manifest \<Rightarrow> (('w, 'z) cluster_scheme, 'a) go \<Rightarrow> (('w, 'z) cluster_scheme, 'a) go" where
  "with_client m act =
     (if has_client m then act else go_panic ''invalid memory address or nil pointer dereference'')"

fun apply_loop ::
  "'w client \<Rightarrow> obj list \<Rightarrow> (('w, 'z) cluster_scheme, obj list \<times> go_error option) go" where
  "apply_loop C [] = go_return ([], None)"
| "apply_loop C (spec # specs) =
     go_bind (apply_one C spec) (\<lambda>(spec', err). case err of
       Some e \<Rightarrow> go_return (spec' # specs, Some e)
     | None \<Rightarrow> go_bind (apply_loop C specs) (\<lambda>(specs', err). go_return (spec' # specs', err)))"

definition Apply ::
  "'w client \<Rightarrow> manifest \<Rightarrow> (('w, 'z) cluster_scheme, manifest \<times> go_error option) go" where
  "Apply C m =
     (if resources m = [] then go_return (m, None)
      else with_client m (go_bind (apply_loop C (resources m)) (\<lambda>(rs, err).
             go_return (m\<lparr>resources := rs\<rparr>, err))))"

definition apply_copy :: "'w client \<Rightarrow> manifest \<Rightarrow> (('w, 'z) cluster_scheme, unit) go" where
  "apply_copy C m = go_bind (Apply C m) (\<lambda>(m', err). case err of
     Some e \<Rightarrow> go_fail e | None \<Rightarrow> go_return ())"

definition Delete :: "'w client \<Rightarrow> bool \<Rightarrow> manifest \<Rightarrow> (('w, 'z) cluster_scheme, unit) go" where
  "Delete C foreground m =
     go_foreach (\<lambda>spec. if okToDelete spec then with_client m (delete_one C foreground spec)
                        else go_return ()) (rev (resources m))"

section \<open>Waiting\<close>

definition ErrWaitTimeout :: go_error where
  "ErrWaitTimeout = PlainError ''timed out waiting for the condition''"

text \<open>
  The loop of \<open>WaitFor\<close>: one evaluation for every tick, and one more when the ticker's channel is
  closed at the timeout.
\<close>

fun WaitFor :: "nat \<Rightarrow> ('s, bool) go \<Rightarrow> ('s, unit) go" where
  "WaitFor 0 cond =
     go_bind cond (\<lambda>done. if done then go_return () else go_fail ErrWaitTimeout)"
| "WaitFor (Suc n) cond =
     go_bind cond (\<lambda>done. if done then go_return () else WaitFor n cond)"

text \<open>The interval is one second, so at most \<open>timeout\<close> ticks come in \<open>timeout\<close> seconds.\<close>

definition PollImmediate ::
  "'w client \<Rightarrow> nat \<Rightarrow> (('w, 'z) cluster_scheme, bool) go \<Rightarrow> (('w, 'z) cluster_scheme, unit) go" where
  "PollImmediate C timeout cond =
     go_bind cond (\<lambda>done. if done then go_return ()
       else go_bind (elapse (poll_ticks C timeout)) (\<lambda>n. WaitFor (min n timeout) cond))"

text \<open>The condition the operator polls: every resource is gone.\<close>

fun all_absent :: "'w client \<Rightarrow> obj list \<Rightarrow> (('w, 'z) cluster_scheme, bool) go" where
  "all_absent C [] = go_return True"
| "all_absent C (deploy # deploys) =
     go_catch (call (get_obj C deploy) (GetObj deploy))
       (\<lambda>err. if IsNotFound err then all_absent C deploys else go_fail err)
       (\<lambda>r. go_return False)"

definition manifest_absent :: "'w client \<Rightarrow> manifest \<Rightarrow> (('w, 'z) cluster_scheme, bool) go" where
  "manifest_absent C m =
     (if resources m = [] then go_return True else with_client m (all_absent C (resources m)))"

section \<open>What the operations on manifests keep\<close>

text \<open>
  The contract between the client and the operations on manifests: a relation on the state that the
  calls on objects and the passing of time respect is respected by every operation.
\<close>

locale client_steps = step_relation R for R :: "('w, 'z) cluster_scheme \<Rightarrow> ('w, 'z) cluster_scheme \<Rightarrow> bool" +
  fixes C :: "'w client"
  assumes get_obj_kept: "keeps (call (get_obj C u) (GetObj u))"
    and create_obj_kept: "keeps (call (create_obj C u) (CreateObj u))"
    and update_obj_kept: "keeps (call (update_obj C u) (UpdateObj u))"
    and delete_obj_kept: "keeps (call (delete_obj C b u) (DeleteObj b u))"
    and elapse_kept: "keeps (elapse (poll_ticks C timeout))"
begin

lemmas object_intros =
  keeps_intros get_obj_kept create_obj_kept update_obj_kept delete_obj_kept elapse_kept

lemma keeps_mf_get: "keeps (mf_get C u)"
  unfolding mf_get_def by (intro object_intros)

lemma keeps_mf_update: "keeps (mf_update C live spec)"
  unfolding mf_update_def Let_def by (intro object_intros)

lemma keeps_apply_one: "keeps (apply_one C spec)"
  unfolding apply_one_def Let_def
  by (intro object_intros keeps_mf_get)
    (auto split: option.split sum.split intro!: object_intros keeps_mf_update)

lemma keeps_with_client: "keeps act \<Longrightarrow> keeps (with_client m act)"
  unfolding with_client_def by (intro object_intros)

lemma keeps_apply_loop: "keeps (apply_loop C specs)"
  by (induction specs)
    (auto intro!: object_intros keeps_apply_one split: option.split prod.split)

lemma keeps_Apply: "keeps (Apply C m)"
  unfolding Apply_def
  by (auto intro!: object_intros keeps_with_client keeps_apply_loop split: prod.split)

lemma keeps_apply_copy: "keeps (apply_copy C m)"
  unfolding apply_copy_def
  by (auto intro!: object_intros keeps_Apply split: prod.split option.split)

lemma keeps_delete_call: "keeps (delete_call C b u)"
  unfolding delete_call_def by (intro object_intros)

lemma keeps_delete_one: "keeps (delete_one C b u)"
  unfolding delete_one_def
  by (auto intro!: object_intros keeps_mf_get keeps_delete_call split: option.split)

lemma keeps_Delete: "keeps (Delete C b m)"
  unfolding Delete_def by (intro object_intros keeps_with_client keeps_delete_one)

lemma keeps_WaitFor: "keeps cond \<Longrightarrow> keeps (WaitFor n cond)"
  by (induction n) (auto intro!: object_intros)

lemma keeps_PollImmediate: "keeps cond \<Longrightarrow> keeps (PollImmediate C t cond)"
  unfolding PollImmediate_def by (intro object_intros keeps_WaitFor)

lemma keeps_all_absent: "keeps (all_absent C us)"
  by (induction us) (auto intro!: object_intros)

lemma keeps_manifest_absent: "keeps (manifest_absent C m)"
  unfolding manifest_absent_def by (intro object_intros keeps_with_client keeps_all_absent)

end

text \<open>The operations leave what is added to the cluster state (the receiver's fields) as it is.\<close>

definition same_memory :: "('w, 'z) cluster_scheme \<Rightarrow> ('w, 'z) cluster_scheme \<Rightarrow> bool" where
  "same_memory s t \<longleftrightarrow> cluster.more t = cluster.more s"

lemma same_memory_call: "same_memory s (snd (call f ev s))"
  by (simp add: same_memory_def call_def split: prod.split sum.split)

lemma same_memory_elapse: "same_memory s (snd (elapse f s))"
  by (simp add: same_memory_def elapse_def split: prod.split)

interpretation mem: client_steps "same_memory :: ('w, 'z) cluster_scheme \<Rightarrow> _ \<Rightarrow> bool" C for C :: "'w client"
proof -
  have step: "step_relation (same_memory :: ('w, 'z) cluster_scheme \<Rightarrow> _ \<Rightarrow> bool)"
    by unfold_locales (simp_all add: same_memory_def)
  show "client_steps (same_memory :: ('w, 'z) cluster_scheme \<Rightarrow> _ \<Rightarrow> bool) C"
    by (intro client_steps.intro step client_steps_axioms.intro)
      (rule step_relation.keepsI [OF step] same_memory_call same_memory_elapse)+
qed

end
