(* ===== verification/Total.thy ===== *)
theory Total imports ManifestOps begin

text \<open>
  Total correctness of programs: \<open>ends P m Q\<close> says that \<open>m\<close>, started in a state with \<open>P\<close>, returns a value
  without an error or a panic and leaves a state with \<open>Q\<close>; and the rules of the statements for it.
  On a cluster the assertions are about the world and the receiver's fields (\<open>holding\<close>).
\<close>

definition ends :: "('s \<Rightarrow> bool) \<Rightarrow> ('s, 'a) go \<Rightarrow> ('a \<Rightarrow> 's \<Rightarrow> bool) \<Rightarrow> bool" where
  "ends P m Q \<longleftrightarrow> (\<forall>s. P s \<longrightarrow> (\<exists>v s'. m s = (Ok v, s') \<and> Q v s'))"

definition holding :: "('w \<Rightarrow> bool) \<Rightarrow> 'z \<Rightarrow> ('w, 'z) cluster_scheme \<Rightarrow> bool" where
  "holding P M s \<longleftrightarrow> P (world s) \<and> cluster.more s = M"

lemma endsD:
  assumes "ends P m Q" and "P s"
  obtains v s' where "m s = (Ok v, s')" and "Q v s'"
  using assms unfolding ends_def by blast

lemma ends_return: "(\<And>s. P s \<Longrightarrow> Q v s) \<Longrightarrow> ends P (go_return v) Q"
  and ends_get: "(\<And>s. P s \<Longrightarrow> Q (f s) s) \<Longrightarrow> ends P (go_get f) Q"
  and ends_modify: "(\<And>s. P s \<Longrightarrow> Q () (f s)) \<Longrightarrow> ends P (go_modify f) Q"
  and ends_lift: "r = Ok v \<Longrightarrow> (\<And>s. P s \<Longrightarrow> Q v s) \<Longrightarrow> ends P (go_lift r) Q"
  by (auto simp: ends_def go_defs)

lemma ends_return_iff [simp]: "ends P (go_return v) Q \<longleftrightarrow> (\<forall>s. P s \<longrightarrow> Q v s)"
  by (simp add: ends_def go_defs)

lemma ends_catch: "ends P m Q \<Longrightarrow> (\<And>a. ends (Q a) (f a) R) \<Longrightarrow> ends P (go_catch m h f) R"
  unfolding ends_def by (metis go_catch_run_Ok)

lemma ends_bind: "ends P m Q \<Longrightarrow> (\<And>a. ends (Q a) (f a) R) \<Longrightarrow> ends P (go_bind m f) R"
  unfolding go_bind_def by (rule ends_catch)

text \<open>Steps whose outcome is known.\<close>

lemma ends_bind_get: "(\<And>s. P s \<Longrightarrow> f s = v) \<Longrightarrow> ends P (g v) Q \<Longrightarrow> ends P (go_bind (go_get f) g) Q"
  and ends_bind_lift: "r = Ok v \<Longrightarrow> ends P (g v) Q \<Longrightarrow> ends P (go_bind (go_lift r) g) Q"
  and ends_catch_lift: "r = Ok v \<Longrightarrow> ends P (g v) Q \<Longrightarrow> ends P (go_catch (go_lift r) h g) Q"
  by (auto simp: ends_def go_defs)

lemma ends_bind_modify: "(\<And>s. P s \<Longrightarrow> P' (f s)) \<Longrightarrow> ends P' (g ()) Q \<Longrightarrow> ends P (go_bind (go_modify f) g) Q"
  by (auto simp: ends_def go_defs)

lemma ends_weaken: "ends P m Q \<Longrightarrow> (\<And>s. P' s \<Longrightarrow> P s) \<Longrightarrow> (\<And>v s. Q v s \<Longrightarrow> Q' v s) \<Longrightarrow> ends P' m Q'"
  unfolding ends_def by metis

lemma ends_state: "(\<And>s. P s \<Longrightarrow> ends (\<lambda>t. t = s) m Q) \<Longrightarrow> ends P m Q"
  by (simp add: ends_def)

lemma ends_False [simp]: "ends (\<lambda>s. False) m Q"
  by (simp add: ends_def)

lemma holding_False [simp]: "holding (\<lambda>w. False) M = (\<lambda>s. False)"
  by (simp add: holding_def [abs_def])

text \<open>A fact in the assertion that does not depend on the state.\<close>

lemma ends_fact: "(B \<Longrightarrow> ends P m Q) \<Longrightarrow> ends (\<lambda>s. B \<and> P s) m Q"
  by (auto simp: ends_def)

lemma ends_foreach:
  assumes "\<And>x xs0. x \<in> set xs \<Longrightarrow> ends (I xs0) (f x) (\<lambda>u. I (insert x xs0))"
  shows "ends (I xs0) (go_foreach f xs) (\<lambda>u. I (xs0 \<union> set xs))"
  using assms
proof (induction xs arbitrary: xs0)
  case (Cons x xs)
  have "ends (I (insert x xs0)) (go_foreach f xs) (\<lambda>u. I (insert x xs0 \<union> set xs))"
    by (rule Cons.IH) (simp add: Cons.prems)
  with Cons.prems [of x xs0] show ?case by (auto intro: ends_bind)
qed (simp add: ends_def go_return_def)

section \<open>Calls\<close>

lemma holding_mono: "holding P M s \<Longrightarrow> (\<And>w. P w \<Longrightarrow> Q w) \<Longrightarrow> holding Q M s"
  by (simp add: holding_def)

lemma ends_call:
  assumes "\<And>w. P w \<Longrightarrow> \<exists>a w'. f w = (Inr a, w') \<and> Q a w'"
  shows "ends (holding P M) (call f ev) (\<lambda>a. holding (Q a) M)"
  unfolding ends_def holding_def call_def using assms by fastforce

lemma ends_elapse:
  assumes "\<And>w. P w \<Longrightarrow> P (snd (f w))"
  shows "ends (holding P M) (elapse f) (\<lambda>n. holding P M)"
  unfolding ends_def holding_def elapse_def using assms by (fastforce split: prod.split)

definition preserves :: "('w \<Rightarrow> bool) \<Rightarrow> ('w \<Rightarrow> 'a \<times> 'w) \<Rightarrow> bool" where
  "preserves P f \<longleftrightarrow> (\<forall>w. P w \<longrightarrow> P (snd (f w)))"

text \<open>A call whose error may be that there is no such object.\<close>

lemma ends_call_or:
  assumes "\<And>w a w'. P w \<Longrightarrow> f w = (Inr a, w') \<Longrightarrow> Q a w'"
    and "\<And>w e w'. P w \<Longrightarrow> f w = (Inl e, w') \<Longrightarrow> IsNotFound e \<and> N w'"
    and "\<And>a. ends (holding (Q a) M) (g a) R" and "\<And>e. IsNotFound e \<Longrightarrow> ends (holding N M) (h e) R"
  shows "ends (holding P M) (go_catch (call f ev) h g) R"
  unfolding ends_def
proof (intro allI impI)
  fix s
  assume s: "holding P M s"
  obtain q w where q: "f (world s) = (q, w)" by (cases "f (world s)")
  show "\<exists>v s'. go_catch (call f ev) h g s = (Ok v, s') \<and> R v s'"
  proof (cases q)
    case (Inl e)
    with q s assms(2) have "IsNotFound e" "holding N M (s\<lparr>world := w, trace := trace s @ [ev (Some e)]\<rparr>)"
      by (auto simp: holding_def)
    with assms(4) have "\<exists>v s'. h e (s\<lparr>world := w, trace := trace s @ [ev (Some e)]\<rparr>) = (Ok v, s') \<and> R v s'"
      unfolding ends_def by blast
    with q Inl show ?thesis by (simp add: go_catch_def call_def)
  next
    case (Inr a)
    with q s assms(1) have "holding (Q a) M (s\<lparr>world := w, trace := trace s @ [ev None]\<rparr>)"
      by (auto simp: holding_def)
    with assms(3) have "\<exists>v s'. g a (s\<lparr>world := w, trace := trace s @ [ev None]\<rparr>) = (Ok v, s') \<and> R v s'"
      unfolding ends_def by blast
    with q Inr show ?thesis by (simp add: go_catch_def call_def)
  qed
qed

end
