(* ===== verification/HealthyObjects.thy ===== *)
theory HealthyObjects imports Total begin

text \<open>
  The operations on manifests in a cluster that is well: \<open>healthy_objects\<close> says that the API server answers
  every call about objects as asked, on the worlds \<open>good\<close>, which no call leaves.  Then \<open>Apply\<close> returns
  without an error and every resource is there, \<open>Delete\<close> returns and every resource is gone, and the
  operator's wait for that ends at once.
\<close>

section \<open>A cluster that is well\<close>

definition present :: "'w client \<Rightarrow> obj \<Rightarrow> 'w \<Rightarrow> bool" where
  "present C u w \<longleftrightarrow> (\<exists>v. fst (get_obj C u w) = Inr v)"

definition absent :: "'w client \<Rightarrow> obj \<Rightarrow> 'w \<Rightarrow> bool" where
  "absent C u w \<longleftrightarrow> (\<exists>e. fst (get_obj C u w) = Inl e \<and> IsNotFound e)"

text \<open>The part of an object by which the API server finds it.\<close>

definition same_identity :: "obj \<Rightarrow> obj \<Rightarrow> bool" where
  "same_identity u v \<longleftrightarrow> GetAPIVersion u = GetAPIVersion v \<and> GetKind u = GetKind v \<and>
     GetNamespace u = GetNamespace v \<and> GetName u = GetName v"

definition reads_keep :: "'w client \<Rightarrow> ('w \<Rightarrow> bool) \<Rightarrow> bool" where
  "reads_keep C P \<longleftrightarrow> (\<forall>ns n. preserves P (get_config C ns n)) \<and> (\<forall>ns n. preserves P (get_deployment C ns n)) \<and>
     (\<forall>n. preserves P (get_webhook C n)) \<and> (\<forall>u. preserves P (get_obj C u)) \<and> (\<forall>n. preserves P (poll_ticks C n))"

definition writes_keep :: "'w client \<Rightarrow> ('w \<Rightarrow> bool) \<Rightarrow> bool" where
  "writes_keep C P \<longleftrightarrow> (\<forall>u. preserves P (create_obj C u)) \<and> (\<forall>u. preserves P (update_obj C u))"

definition deletes_keep :: "'w client \<Rightarrow> ('w \<Rightarrow> bool) \<Rightarrow> bool" where
  "deletes_keep C P \<longleftrightarrow> (\<forall>b u. preserves P (delete_obj C b u))"

definition status_keeps :: "'w client \<Rightarrow> ('w \<Rightarrow> bool) \<Rightarrow> bool" where
  "status_keeps C P \<longleftrightarrow> (\<forall>tmp. preserves P (update_status C tmp))"

text \<open>
  What calls do to each other: an object that is there is there until a deletion, one that is gone is gone
  until it is created or updated, and a copy of the Config stays \<open>fresh\<close> until its status is written.
\<close>

definition independent :: "'w client \<Rightarrow> ('w \<Rightarrow> bool) \<Rightarrow> (Config \<Rightarrow> 'w \<Rightarrow> bool) \<Rightarrow> bool" where
  "independent C good fresh \<longleftrightarrow>
     (reads_keep C good \<and> writes_keep C good \<and> deletes_keep C good \<and> status_keeps C good) \<and>
     (\<forall>u. let P = (\<lambda>w. good w \<and> present C u w) in reads_keep C P \<and> writes_keep C P \<and> status_keeps C P) \<and>
     (\<forall>u. let P = (\<lambda>w. good w \<and> absent C u w) in reads_keep C P \<and> deletes_keep C P) \<and>
     (\<forall>c. let P = (\<lambda>w. good w \<and> fresh c w) in reads_keep C P \<and> writes_keep C P \<and> deletes_keep C P)"

text \<open>
  The answers: an object is found or not there, one that is not there can be created, no update is refused,
  and what is deleted is gone.
\<close>

definition answers :: "'w client \<Rightarrow> ('w \<Rightarrow> bool) \<Rightarrow> bool" where
  "answers C good \<longleftrightarrow>
     (\<forall>u w. good w \<longrightarrow> present C u w \<or> absent C u w) \<and>
     (\<forall>u v w. good w \<longrightarrow> absent C v w \<longrightarrow> same_identity u v \<longrightarrow>
        fst (create_obj C u w) = Inr () \<and> present C v (snd (create_obj C u w))) \<and>
     (\<forall>u w. good w \<longrightarrow> fst (update_obj C u w) = Inr ()) \<and>
     (\<forall>b u w. good w \<longrightarrow> absent C u (snd (delete_obj C b u w)) \<and>
        (\<forall>e. fst (delete_obj C b u w) = Inl e \<longrightarrow> IsNotFound e))"

definition healthy_objects :: "'w client \<Rightarrow> ('w \<Rightarrow> bool) \<Rightarrow> (Config \<Rightarrow> 'w \<Rightarrow> bool) \<Rightarrow> bool" where
  "healthy_objects C good fresh \<longleftrightarrow> independent C good fresh \<and> answers C good"

text \<open>A patch to the resource \<open>u\<close> can be made and applied, whatever it looks like on the cluster.\<close>

definition patchable :: "'w client \<Rightarrow> ('w \<Rightarrow> bool) \<Rightarrow> obj \<Rightarrow> bool" where
  "patchable C good u \<longleftrightarrow> (\<forall>w live w'. good w \<longrightarrow> get_obj C u w = (Inr live, w') \<longrightarrow>
     (\<exists>p. patch_New C live u = Inr p \<and> (\<forall>d. p = Some d \<longrightarrow> (\<exists>v. patch_Merge C d live = Inr v))))"

section \<open>What is there and what is gone\<close>

text \<open>The objects \<open>F\<close> are there, the objects \<open>A\<close> are gone, the copies \<open>cs\<close> are fresh.\<close>

definition stocked ::
  "'w client \<Rightarrow> ('w \<Rightarrow> bool) \<Rightarrow> (Config \<Rightarrow> 'w \<Rightarrow> bool) \<Rightarrow> obj set \<Rightarrow> obj set \<Rightarrow> Config set \<Rightarrow> 'w \<Rightarrow> bool" where
  "stocked C good fresh F A cs w \<longleftrightarrow> good w \<and> (\<forall>u \<in> F. present C u w) \<and> (\<forall>u \<in> A. absent C u w) \<and> (\<forall>c \<in> cs. fresh c w)"

lemma stocked_sub:
  "stocked C good fresh F A cs w \<Longrightarrow> F' \<subseteq> F \<Longrightarrow> A' \<subseteq> A \<Longrightarrow> cs' \<subseteq> cs \<Longrightarrow> stocked C good fresh F' A' cs' w"
  by (auto simp: stocked_def)

lemma stocked_insert:
  "stocked C good fresh (insert u F) A cs w \<longleftrightarrow> present C u w \<and> stocked C good fresh F A cs w"
  "stocked C good fresh F (insert u A) cs w \<longleftrightarrow> absent C u w \<and> stocked C good fresh F A cs w"
  by (auto simp: stocked_def)

lemma preserves_stocked:
  assumes "preserves good f" and "\<And>u. u \<in> F \<Longrightarrow> preserves (\<lambda>w. good w \<and> present C u w) f"
    and "\<And>u. u \<in> A \<Longrightarrow> preserves (\<lambda>w. good w \<and> absent C u w) f"
    and "\<And>c. c \<in> cs \<Longrightarrow> preserves (\<lambda>w. good w \<and> fresh c w) f"
  shows "preserves (stocked C good fresh F A cs) f"
  using assms unfolding preserves_def stocked_def by blast

lemma stocked_calls:
  assumes "healthy_objects C good fresh"
  shows "reads_keep C (stocked C good fresh F A cs)" "writes_keep C (stocked C good fresh F {} cs)"
    "deletes_keep C (stocked C good fresh {} A cs)" "status_keeps C (stocked C good fresh F {} {})"
proof -
  have there: "reads_keep C (\<lambda>w. good w \<and> present C u w)" "writes_keep C (\<lambda>w. good w \<and> present C u w)"
    "status_keeps C (\<lambda>w. good w \<and> present C u w)" for u
    using assms by (simp_all add: healthy_objects_def independent_def Let_def)
  have gone: "reads_keep C (\<lambda>w. good w \<and> absent C u w)" "deletes_keep C (\<lambda>w. good w \<and> absent C u w)" for u
    using assms by (simp_all add: healthy_objects_def independent_def Let_def)
  have copy: "reads_keep C (\<lambda>w. good w \<and> fresh c w)" "writes_keep C (\<lambda>w. good w \<and> fresh c w)"
    "deletes_keep C (\<lambda>w. good w \<and> fresh c w)" for c
    using assms by (simp_all add: healthy_objects_def independent_def Let_def)
  have all: "reads_keep C good" "writes_keep C good" "deletes_keep C good" "status_keeps C good"
    using assms by (simp_all add: healthy_objects_def independent_def)
  note defs = reads_keep_def writes_keep_def deletes_keep_def status_keeps_def
  show "reads_keep C (stocked C good fresh F A cs)"
    using all(1) there(1) gone(1) copy(1) unfolding defs by - (intro conjI allI preserves_stocked; simp)
  show "writes_keep C (stocked C good fresh F {} cs)"
    using all(2) there(2) copy(2) unfolding defs by - (intro conjI allI preserves_stocked; simp)
  show "deletes_keep C (stocked C good fresh {} A cs)"
    using all(3) gone(2) copy(3) unfolding defs by - (intro conjI allI preserves_stocked; simp)
  show "status_keeps C (stocked C good fresh F {} {})"
    using all(4) there(3) unfolding defs by - (intro conjI allI preserves_stocked; simp)
qed

lemma stocked_get:
  assumes H: "healthy_objects C good fresh" and w: "stocked C good fresh F A cs w"
    and run: "get_obj C u w = (q, w')"
  shows "stocked C good fresh F A cs w'" and "q = Inr v \<Longrightarrow> present C u w'"
    and "q = Inl e \<Longrightarrow> IsNotFound e \<and> absent C u w'"
proof -
  have kept: "stocked C good fresh F' A' cs w'" if "stocked C good fresh F' A' cs w" for F' A'
    using stocked_calls(1) [OF H, of F' A' cs] that run unfolding reads_keep_def preserves_def by (metis snd_conv)
  from kept [OF w] show "stocked C good fresh F A cs w'" .
  show "q = Inr v \<Longrightarrow> present C u w'"
    using kept [of "insert u F" A] w run by (simp add: stocked_insert present_def)
  have "present C u w \<or> absent C u w"
    using H w unfolding healthy_objects_def answers_def stocked_def by blast
  then show "q = Inl e \<Longrightarrow> IsNotFound e \<and> absent C u w'"
    using kept [of F "insert u A"] w run by (simp add: stocked_insert present_def absent_def)
qed

section \<open>One resource\<close>

lemma same_identity_annotate [simp]: "same_identity (annotate k v u) w = same_identity u w"
  by (simp add: same_identity_def annotate_def)

lemma same_identity_strip [simp]: "same_identity (strip_lastApplied u) w = same_identity u w"
  by (simp add: same_identity_def strip_lastApplied_def split: option.split)

lemma same_identity_refl [simp]: "same_identity u u"
  by (simp add: same_identity_def)

lemma ends_mf_get:
  assumes "healthy_objects C good fresh"
  shows "ends (holding (stocked C good fresh F A cs) M) (mf_get C u) (\<lambda>v.
    holding (\<lambda>w. stocked C good fresh F A cs w \<and> (case v of
      None \<Rightarrow> absent C u w
    | Some live \<Rightarrow> present C u w \<and> (\<exists>w0 w1. good w0 \<and> get_obj C u w0 = (Inr live, w1)))) M)"
  unfolding mf_get_def
proof (rule ends_call_or)
  fix w a w'
  assume w: "stocked C good fresh F A cs w" and run: "get_obj C u w = (Inr a, w')"
  from w have "good w" by (simp add: stocked_def)
  with run stocked_get(1,2) [OF assms w run]
  show "stocked C good fresh F A cs w' \<and> present C u w' \<and> (\<exists>w0 w1. good w0 \<and> get_obj C u w0 = (Inr a, w1))" by blast
next
  fix w e w'
  assume w: "stocked C good fresh F A cs w" and run: "get_obj C u w = (Inl e, w')"
  from stocked_get(1,3) [OF assms w run]
  show "IsNotFound e \<and> stocked C good fresh F A cs w' \<and> absent C u w'" by blast
qed (simp_all add: holding_def)

lemma stocked_write:
  assumes "healthy_objects C good fresh" and "stocked C good fresh F A cs w"
  shows "stocked C good fresh F {} cs (snd (create_obj C u w))" "stocked C good fresh F {} cs (snd (update_obj C u w))"
  using stocked_calls(2) [OF assms(1), of F cs] stocked_sub [OF assms(2), of F "{}" cs]
  by (simp_all add: writes_keep_def preserves_def)

lemma healthy_answers:
  assumes "healthy_objects C good fresh" and "good w"
  shows "absent C v w \<Longrightarrow> same_identity u v \<Longrightarrow> fst (create_obj C u w) = Inr () \<and> present C v (snd (create_obj C u w))"
    and "fst (update_obj C u w) = Inr ()" and "absent C u (snd (delete_obj C b u w))"
    and "fst (delete_obj C b u w) = Inl e \<Longrightarrow> IsNotFound e"
  using assms unfolding healthy_objects_def answers_def by blast+

lemma ends_update:
  assumes H: "healthy_objects C good fresh"
  shows "ends (holding (stocked C good fresh F A cs) M) (mf_update C live spec)
    (\<lambda>(spec', err) s. err = None \<and> holding (stocked C good fresh F {} cs) M s)"
  unfolding mf_update_def Let_def
proof (rule ends_catch, rule ends_call)
  fix w
  assume w: "stocked C good fresh F A cs w"
  then have "good w" by (simp add: stocked_def)
  with healthy_answers(2) [OF H] stocked_write(2) [OF H w]
  show "\<exists>a w'. update_obj C v w = (Inr a, w') \<and> stocked C good fresh F {} cs w'" for v
    by (metis prod.collapse)
qed simp

lemma ends_apply_one:
  assumes H: "healthy_objects C good fresh" and u: "patchable C good u"
  shows "ends (holding (stocked C good fresh F A cs) M) (apply_one C u)
    (\<lambda>(u', err) s. err = None \<and> holding (stocked C good fresh (insert u F) {} cs) M s)"
  unfolding apply_one_def
  apply (rule ends_catch [OF ends_mf_get [OF H]], rule ends_state)
  subgoal premises s for current s
  proof (cases current)
    case None
    from s have w: "holding (\<lambda>w. stocked C good fresh F A cs w \<and> absent C u w) M s" by (simp add: None)
    have create: "ends (\<lambda>t. t = s)
        (go_catch (call (create_obj C v) ev) (\<lambda>err. go_return (spec, Some err)) (\<lambda>u. go_return (spec, None)))
        (\<lambda>(u', err) s. err = None \<and> holding (stocked C good fresh (insert u F) {} cs) M s)"
      if v: "same_identity v u" for v spec ev
    proof (rule ends_weaken [OF ends_catch [OF ends_call]])
      fix w
      assume "stocked C good fresh F A cs w \<and> absent C u w"
      then have w: "stocked C good fresh F A cs w" "absent C u w" "good w" by (simp_all add: stocked_def)
      from healthy_answers(1) [OF H w(3,2) v] stocked_write(1) [OF H w(1), of v]
      show "\<exists>a w'. create_obj C v w = (Inr a, w') \<and> stocked C good fresh (insert u F) {} cs w'"
        by (cases "create_obj C v w") (auto simp: stocked_insert)
    next
      fix a
      show "ends (holding (stocked C good fresh (insert u F) {} cs) M) (go_return (spec, None))
        (\<lambda>(u', err) s. err = None \<and> holding (stocked C good fresh (insert u F) {} cs) M s)" by simp
    qed (use w in simp_all)
    show ?thesis by (simp add: None Let_def create)
  next
    case (Some live)
    from s have "holding (stocked C good fresh (insert u F) A cs) M s"
      by (auto simp: Some holding_def stocked_insert)
    then have s': "holding (stocked C good fresh (insert u F) {} cs) M s"
      by (rule holding_mono) (erule stocked_sub; simp)
    from s obtain w0 w1 where "good w0" "get_obj C u w0 = (Inr live, w1)"
      by (auto simp: Some holding_def)
    with u obtain p where p: "patch_New C live u = Inr p" "\<And>d. p = Some d \<Longrightarrow> \<exists>v. patch_Merge C d live = Inr v"
      unfolding patchable_def by blast
    show ?thesis
    proof (cases p)
      case None
      with p(1) s' show ?thesis by (simp add: Some)
    next
      case diff: (Some d)
      with p(2) obtain v where v: "patch_Merge C d live = Inr v" by blast
      have "ends (\<lambda>t. t = s) (mf_update C v u)
          (\<lambda>(u', err) s. err = None \<and> holding (stocked C good fresh (insert u F) {} cs) M s)"
        by (rule ends_weaken [OF ends_update [OF H]]) (use s' in auto)
      with p(1) diff v show ?thesis by (simp add: Some)
    qed
  qed
  done

section \<open>Manifests\<close>

lemma ends_apply_loop:
  assumes H: "healthy_objects C good fresh" and "\<forall>u \<in> set us. patchable C good u"
  shows "ends (holding (stocked C good fresh F A cs) M) (apply_loop C us)
    (\<lambda>(us', err) s. err = None \<and> holding (stocked C good fresh (F \<union> set us) {} cs) M s)"
  using assms(2)
proof (induction us arbitrary: F A)
  case Nil
  then show ?case by (auto elim!: holding_mono stocked_sub)
next
  case (Cons u us)
  then have u: "patchable C good u" and us: "\<forall>u \<in> set us. patchable C good u" by simp_all
  have rest: "ends (holding (stocked C good fresh (insert u F) {} cs) M)
      (go_bind (apply_loop C us) (\<lambda>(us', err). go_return (u' # us', err)))
      (\<lambda>(us', err) s. err = None \<and> holding (stocked C good fresh (insert u (F \<union> set us)) {} cs) M s)" for u'
    by (rule ends_bind [OF Cons.IH [OF us]]) (auto split: prod.split)
  show ?case
    by (simp only: apply_loop.simps, rule ends_bind [OF ends_apply_one [OF H u]])
      (auto simp: rest split: option.split)
qed

definition usable :: "'w client \<Rightarrow> ('w \<Rightarrow> bool) \<Rightarrow> manifest \<Rightarrow> bool" where
  "usable C good m \<longleftrightarrow> (resources m \<noteq> [] \<longrightarrow> has_client m) \<and> (\<forall>u \<in> set (resources m). patchable C good u)"

lemma usable_Filter: "usable C good m \<Longrightarrow> usable C good (Filter ps m)"
  by (auto simp: usable_def)

lemma ends_Apply:
  assumes H: "healthy_objects C good fresh" and m: "usable C good m"
  shows "ends (holding (stocked C good fresh F A cs) M) (Apply C m)
    (\<lambda>(m', err) s. err = None \<and> holding (stocked C good fresh (F \<union> set (resources m)) {} cs) M s)"
proof (cases "resources m = []")
  case True
  then show ?thesis by (auto simp: Apply_def elim!: holding_mono stocked_sub)
next
  case False
  with m have m': "has_client m" "\<forall>u \<in> set (resources m). patchable C good u" by (simp_all add: usable_def)
  have "ends (holding (stocked C good fresh F A cs) M)
      (go_bind (apply_loop C (resources m)) (\<lambda>(rs, err). go_return (m\<lparr>resources := rs\<rparr>, err)))
      (\<lambda>(m', err) s. err = None \<and> holding (stocked C good fresh (F \<union> set (resources m)) {} cs) M s)"
    by (rule ends_bind [OF ends_apply_loop [OF H m'(2)]]) (auto split: prod.split)
  with False m'(1) show ?thesis by (simp add: Apply_def with_client_def)
qed

lemma ends_apply_copy:
  assumes "healthy_objects C good fresh" and "usable C good m"
  shows "ends (holding (stocked C good fresh F A cs) M) (apply_copy C m)
    (\<lambda>u. holding (stocked C good fresh (F \<union> set (resources m)) {} cs) M)"
  unfolding apply_copy_def
  by (rule ends_bind [OF ends_Apply [OF assms]]) (auto intro!: ends_fact split: prod.split option.split)

section \<open>Deletion\<close>

lemma stocked_delete:
  assumes H: "healthy_objects C good fresh" and w: "stocked C good fresh {} A cs w"
  shows "stocked C good fresh {} (insert u A) cs (snd (delete_obj C b u w))"
proof -
  from w have "good w" by (simp add: stocked_def)
  from healthy_answers(3) [OF H this] stocked_calls(3) [OF H, of A cs] w show ?thesis
    by (simp add: stocked_insert deletes_keep_def preserves_def)
qed

lemma ends_delete_call:
  assumes H: "healthy_objects C good fresh"
  shows "ends (holding (stocked C good fresh {} A cs) M) (delete_call C b u)
    (\<lambda>v. holding (stocked C good fresh {} (insert u A) cs) M)"
  unfolding delete_call_def
proof (rule ends_call_or [where Q = "\<lambda>a. stocked C good fresh {} (insert u A) cs"
      and N = "stocked C good fresh {} (insert u A) cs"])
  fix w assume w: "stocked C good fresh {} A cs w"
  then have "good w" by (simp add: stocked_def)
  with healthy_answers(4) [OF H] stocked_delete [OF H w]
  show "delete_obj C b u w = (Inr a, w') \<Longrightarrow> stocked C good fresh {} (insert u A) cs w'"
    and "delete_obj C b u w = (Inl e, w') \<Longrightarrow> IsNotFound e \<and> stocked C good fresh {} (insert u A) cs w'" for a e w'
    by (metis fst_conv snd_conv)+
qed simp_all

lemma ends_delete_one:
  assumes H: "healthy_objects C good fresh"
  shows "ends (holding (stocked C good fresh {} A cs) M) (delete_one C b u)
    (\<lambda>v. holding (stocked C good fresh {} (insert u A) cs) M)"
  unfolding delete_one_def
proof (rule ends_catch [OF ends_mf_get [OF H]])
  have del: "ends (holding (\<lambda>w. stocked C good fresh {} A cs w \<and> X w) M) (delete_call C b u)
      (\<lambda>v. holding (stocked C good fresh {} (insert u A) cs) M)" for X
    by (rule ends_weaken [OF ends_delete_call [OF H]]) (auto simp: holding_def)
  fix current
  show "ends (holding (\<lambda>w. stocked C good fresh {} A cs w \<and> (case current of
      None \<Rightarrow> absent C u w
    | Some live \<Rightarrow> present C u w \<and> (\<exists>w0 w1. good w0 \<and> get_obj C u w0 = (Inr live, w1)))) M)
    (case current of None \<Rightarrow> go_return () | Some c \<Rightarrow> delete_call C b u)
    (\<lambda>v. holding (stocked C good fresh {} (insert u A) cs) M)"
    using del by (cases current) (auto simp: holding_def stocked_insert)
qed

definition deletable :: "manifest \<Rightarrow> bool" where
  "deletable m \<longleftrightarrow> (resources m \<noteq> [] \<longrightarrow> has_client m) \<and> list_all okToDelete (resources m)"

lemma ends_Delete:
  assumes H: "healthy_objects C good fresh" and m: "deletable m"
  shows "ends (holding (stocked C good fresh {} A cs) M) (Delete C b m)
    (\<lambda>v. holding (stocked C good fresh {} (A \<union> set (resources m)) cs) M)"
proof -
  have "ends (holding (stocked C good fresh {} A cs) M) (Delete C b m)
      (\<lambda>v. holding (stocked C good fresh {} (A \<union> set (rev (resources m))) cs) M)"
    unfolding Delete_def
  proof (rule ends_foreach)
    fix u X assume "u \<in> set (rev (resources m))"
    with m have "okToDelete u" "has_client m" by (auto simp: deletable_def list_all_iff)
    then show "ends (holding (stocked C good fresh {} X cs) M)
        (if okToDelete u then with_client m (delete_one C b u) else go_return ())
        (\<lambda>v. holding (stocked C good fresh {} (insert u X) cs) M)"
      by (simp add: with_client_def ends_delete_one [OF H])
  qed
  then show ?thesis by simp
qed

lemma ends_all_absent:
  assumes H: "healthy_objects C good fresh" and "set us \<subseteq> A"
  shows "ends (holding (stocked C good fresh F A cs) M) (all_absent C us)
    (\<lambda>b s. b \<and> holding (stocked C good fresh F A cs) M s)"
  using assms(2)
proof (induction us)
  case (Cons u us)
  show ?case
    unfolding all_absent.simps
  proof (rule ends_call_or [where Q = "\<lambda>a w. False" and N = "stocked C good fresh F A cs"])
    fix w q w' assume w: "stocked C good fresh F A cs w"
    then have "absent C u w" using Cons.prems by (simp add: stocked_def)
    then show "get_obj C u w = (Inr a, w') \<Longrightarrow> False" for a by (auto simp: absent_def)
    show "get_obj C u w = (Inl e, w') \<Longrightarrow> IsNotFound e \<and> stocked C good fresh F A cs w'" for e
      using stocked_get(1,3) [OF H w] by blast
  qed (use Cons in simp_all)
qed simp

lemma ends_PollImmediate:
  assumes "ends P cond (\<lambda>b s. b \<and> Q s)"
  shows "ends P (PollImmediate C t cond) (\<lambda>u. Q)"
  unfolding PollImmediate_def by (rule ends_bind [OF assms]) (auto intro!: ends_fact)

lemma ends_manifest_absent:
  assumes "healthy_objects C good fresh" and "deletable m" and "set (resources m) \<subseteq> A"
  shows "ends (holding (stocked C good fresh F A cs) M) (manifest_absent C m)
    (\<lambda>b s. b \<and> holding (stocked C good fresh F A cs) M s)"
  using ends_all_absent [OF assms(1,3), of F cs M] assms(2)
  by (auto simp: manifest_absent_def with_client_def deletable_def)

end
