(* ===== verification/WorkQueue.thy ===== *)
theory WorkQueue imports Prelude begin

text \<open>
  The queue of a controller: client-go's \<open>util/workqueue\<close> as \<open>controller.New\<close> sets it up, a rate limiting
  queue over a delaying queue over the queue proper.  Each layer adds its fields to a record, each
  operation runs under the lock of its layer and is one function on the state.  Times and durations
  are natural numbers of nanoseconds, the clock is a field.

  The lemmas say what the comments in the code promise: an item is queued at most once and never
  while it is processed, and an item that was added is kept until it has been processed.
\<close>

section \<open>The queue\<close>

record 'a work_queue =
  queue :: "'a list"
  dirty :: "'a set"
  processing :: "'a set"
  shuttingDown :: bool

definition q_Add :: "'a \<Rightarrow> ('a, 'z) work_queue_scheme \<Rightarrow> ('a, 'z) work_queue_scheme" where
  "q_Add item q =
     (if shuttingDown q then q
      else if item \<in> dirty q then q
      else let q = q\<lparr>dirty := insert item (dirty q)\<rparr>
           in if item \<in> processing q then q else q\<lparr>queue := queue q @ [item]\<rparr>)"

text \<open>\<open>Get\<close> blocks while there is nothing to do; \<open>Drained\<close> is the value \<open>shutdown\<close>.\<close>

datatype 'a got = Blocked | Drained | Got 'a

definition q_Get :: "('a, 'z) work_queue_scheme \<Rightarrow> 'a got \<times> ('a, 'z) work_queue_scheme" where
  "q_Get q = (case queue q of
       [] \<Rightarrow> (if shuttingDown q then Drained else Blocked, q)
     | item # rest \<Rightarrow> (Got item, q\<lparr>queue := rest, processing := insert item (processing q),
         dirty := dirty q - {item}\<rparr>))"

definition q_Done :: "'a \<Rightarrow> ('a, 'z) work_queue_scheme \<Rightarrow> ('a, 'z) work_queue_scheme" where
  "q_Done item q =
     (let q = q\<lparr>processing := processing q - {item}\<rparr>
      in if item \<in> dirty q then q\<lparr>queue := queue q @ [item]\<rparr> else q)"

definition q_ShutDown :: "('a, 'z) work_queue_scheme \<Rightarrow> ('a, 'z) work_queue_scheme" where
  "q_ShutDown q = q\<lparr>shuttingDown := True\<rparr>"

section \<open>Delays\<close>

text \<open>
  \<open>waitingForAddCh\<close> are the items with their times on the way to \<open>waitingLoop\<close>, \<open>waitingEntries\<close> the
  items it holds (\<open>waitingEntryByData\<close>; the heap has the same entries).
\<close>

record 'a delaying_queue = "'a work_queue" +
  clock :: nat
  waitingForAddCh :: "('a \<times> nat) list"
  waitingEntries :: "('a, nat) gomap"

definition AddAfter :: "'a \<Rightarrow> nat \<Rightarrow> ('a, 'z) delaying_queue_scheme \<Rightarrow> ('a, 'z) delaying_queue_scheme" where
  "AddAfter item duration q =
     (if shuttingDown q then q
      else if duration = 0 then q_Add item q
      else q\<lparr>waitingForAddCh := waitingForAddCh q @ [(item, clock q + duration)]\<rparr>)"

text \<open>\<open>insert\<close>: a known entry keeps the earlier of the two times.\<close>

definition insert_entry :: "'a \<Rightarrow> nat \<Rightarrow> ('a, nat) gomap \<Rightarrow> ('a, nat) gomap" where
  "insert_entry item readyAt entries = (case map_of entries item of
       Some existing \<Rightarrow> if readyAt < existing then AList.update item readyAt entries else entries
     | None \<Rightarrow> entries @ [(item, readyAt)])"

text \<open>One entry received from the channel.\<close>

definition receive :: "'a \<times> nat \<Rightarrow> ('a, 'z) delaying_queue_scheme \<Rightarrow> ('a, 'z) delaying_queue_scheme" where
  "receive = (\<lambda>(item, readyAt) q.
     if clock q < readyAt then q\<lparr>waitingEntries := insert_entry item readyAt (waitingEntries q)\<rparr>
     else q_Add item q)"

text \<open>The two halves of a turn of \<open>waitingLoop\<close>: it adds what is ready and drains the channel.\<close>

definition add_ready :: "('a, 'z) delaying_queue_scheme \<Rightarrow> ('a, 'z) delaying_queue_scheme" where
  "add_ready q =
     (if shuttingDown q then q
      else let ready = sort_key snd (filter (\<lambda>e. snd e \<le> clock q) (waitingEntries q))
           in (fold (\<lambda>e. q_Add (fst e)) ready q)
                \<lparr>waitingEntries := filter (\<lambda>e. clock q < snd e) (waitingEntries q)\<rparr>)"

definition drain :: "('a, 'z) delaying_queue_scheme \<Rightarrow> ('a, 'z) delaying_queue_scheme" where
  "drain q = (fold receive (waitingForAddCh q) q)\<lparr>waitingForAddCh := []\<rparr>"

section \<open>Rate limits\<close>

record 'a rate_limiting_queue = "'a delaying_queue" +
  failures :: "('a, nat) gomap"

definition millisecond :: nat where
  "millisecond = 10 ^ 6"

definition seconds :: "nat \<Rightarrow> nat" where
  "seconds n = n * 10 ^ 9"

definition baseDelay :: nat where
  "baseDelay = 5 * millisecond"

definition maxDelay :: nat where
  "maxDelay = seconds 1000"

text \<open>
  The product is computed as a \<open>float64\<close>; it is a small number times a power of two, so it is exact
  until it is far above the bound.
\<close>

definition backoff :: "nat \<Rightarrow> nat" where
  "backoff n =
     (let b = baseDelay * 2 ^ n in if 2 ^ 63 - 1 < b then maxDelay else if maxDelay < b then maxDelay else b)"

definition NumRequeues :: "'a \<Rightarrow> ('a, 'z) rate_limiting_queue_scheme \<Rightarrow> nat" where
  "NumRequeues item q = (case map_of (failures q) item of None \<Rightarrow> 0 | Some n \<Rightarrow> n)"

text \<open>
  \<open>MaxOfRateLimiter.When\<close> over the exponential limiter and the token bucket, which all items of a
  controller share; \<open>bucket\<close> is the delay the bucket asks for.
\<close>

definition When ::
  "nat \<Rightarrow> 'a \<Rightarrow> ('a, 'z) rate_limiting_queue_scheme \<Rightarrow> nat \<times> ('a, 'z) rate_limiting_queue_scheme" where
  "When bucket item q =
     (let n = NumRequeues item q
      in (max (backoff n) bucket, q\<lparr>failures := AList.update item (Suc n) (failures q)\<rparr>))"

definition AddRateLimited ::
  "nat \<Rightarrow> 'a \<Rightarrow> ('a, 'z) rate_limiting_queue_scheme \<Rightarrow> ('a, 'z) rate_limiting_queue_scheme" where
  "AddRateLimited bucket item q = (case When bucket item q of (delay, q') \<Rightarrow> AddAfter item delay q')"

definition Forget :: "'a \<Rightarrow> ('a, 'z) rate_limiting_queue_scheme \<Rightarrow> ('a, 'z) rate_limiting_queue_scheme" where
  "Forget item q = q\<lparr>failures := AList.delete item (failures q)\<rparr>"

definition newQueue :: "'a rate_limiting_queue" where
  "newQueue = \<lparr>queue = [], dirty = {}, processing = {}, shuttingDown = False, clock = 0,
     waitingForAddCh = [], waitingEntries = [], failures = []\<rparr>"

section \<open>The invariant\<close>

text \<open>
  The comment on the field \<open>queue\<close>: every element is in the dirty set and not in the processing set.
  It holds the other way round too, and nothing is queued twice.
\<close>

definition queue_ok :: "('a, 'z) work_queue_scheme \<Rightarrow> bool" where
  "queue_ok q \<longleftrightarrow> distinct (queue q) \<and> set (queue q) = dirty q - processing q"

named_theorems queue_ops

lemma queue_ok_Add [queue_ops]: "queue_ok q \<Longrightarrow> queue_ok (q_Add item q)"
  by (auto simp: queue_ok_def q_Add_def Let_def)

lemma queue_ok_Get: "queue_ok q \<Longrightarrow> q_Get q = (r, q') \<Longrightarrow> queue_ok q'"
  by (auto simp: queue_ok_def q_Get_def split: list.splits)

lemma queue_ok_Done [queue_ops]: "queue_ok q \<Longrightarrow> item \<in> processing q \<Longrightarrow> queue_ok (q_Done item q)"
  by (auto simp: queue_ok_def q_Done_def Let_def)

lemma queue_ok_ShutDown [queue_ops]: "queue_ok q \<Longrightarrow> queue_ok (q_ShutDown q)"
  by (simp add: queue_ok_def q_ShutDown_def)

lemma queue_ok_AddAfter [queue_ops]: "queue_ok q \<Longrightarrow> queue_ok (AddAfter item d q)"
  by (simp add: AddAfter_def queue_ok_Add) (simp add: queue_ok_def)

lemma queue_ok_receive: "queue_ok q \<Longrightarrow> queue_ok (receive e q)"
  by (cases e) (auto simp: receive_def queue_ok_Add, simp add: queue_ok_def)

lemma fold_keeps: "(\<And>x s. x \<in> set xs \<Longrightarrow> P s \<Longrightarrow> P (f x s)) \<Longrightarrow> P s \<Longrightarrow> P (fold f xs s)"
  by (induction xs arbitrary: s) simp_all

lemma queue_ok_drain [queue_ops]: "queue_ok q \<Longrightarrow> queue_ok (drain q)"
  using fold_keeps [of "waitingForAddCh q" queue_ok receive q]
  by (simp add: drain_def queue_ok_receive) (simp add: queue_ok_def)

text \<open>What an addition leaves alone.\<close>

lemma q_Add_frame [simp]:
  "shuttingDown (q_Add item q) = shuttingDown q" "processing (q_Add item q) = processing q"
  by (simp_all add: q_Add_def Let_def)

lemma q_Add_delaying_frame [simp]:
  "clock (q_Add item q) = clock q" "waitingForAddCh (q_Add item q) = waitingForAddCh q"
  "waitingEntries (q_Add item q) = waitingEntries q"
  by (simp_all add: q_Add_def Let_def)

lemma q_Add_dirty: "dirty (q_Add item q) = (if shuttingDown q then dirty q else insert item (dirty q))"
  by (auto simp: q_Add_def Let_def)

lemma fold_q_Add:
  fixes q :: "('a, 'z) delaying_queue_scheme"
  defines "added es \<equiv> fold (\<lambda>e. q_Add (fst (e :: 'a \<times> nat))) es q"
  shows "shuttingDown (added es) = shuttingDown q" "processing (added es) = processing q"
    "clock (added es) = clock q" "waitingForAddCh (added es) = waitingForAddCh q"
    "waitingEntries (added es) = waitingEntries q"
    "\<not> shuttingDown q \<Longrightarrow> dirty (added es) = fst ` set es \<union> dirty q"
  unfolding added_def by (induction es arbitrary: q) (auto simp: q_Add_dirty)

lemma queue_ok_add_ready [queue_ops]:
  assumes "queue_ok q"
  shows "queue_ok (add_ready q)"
proof -
  have "queue_ok (fold (\<lambda>e. q_Add (fst e)) es q)" for es :: "('a \<times> nat) list"
    by (rule fold_keeps) (simp_all add: queue_ok_Add assms)
  then have "queue_ok ((fold (\<lambda>e. q_Add (fst e)) es q)\<lparr>waitingEntries := x\<rparr>)" for es :: "('a \<times> nat) list" and x
    by (simp add: queue_ok_def)
  with assms show ?thesis by (simp add: add_ready_def Let_def)
qed

lemma queue_ok_ratelimits [queue_ops]:
  "queue_ok q \<Longrightarrow> queue_ok (Forget item q)" "queue_ok q \<Longrightarrow> queue_ok (AddRateLimited b item q)"
proof -
  assume ok: "queue_ok q"
  then show "queue_ok (Forget item q)" by (simp add: Forget_def queue_ok_def)
  from ok have "queue_ok (snd (When b item q))" by (simp add: When_def Let_def queue_ok_def)
  then show "queue_ok (AddRateLimited b item q)"
    by (auto simp: AddRateLimited_def split: prod.split intro: queue_ok_AddAfter)
qed

section \<open>Nothing is lost\<close>

text \<open>The queue holds an item that is to be processed, now or later.\<close>

definition holds :: "'a \<Rightarrow> ('a, 'z) delaying_queue_scheme \<Rightarrow> bool" where
  "holds item q \<longleftrightarrow> item \<in> dirty q \<or> item \<in> fst ` set (waitingForAddCh q) \<or> item \<in> fst ` set (waitingEntries q)"

named_theorems queue_keeps

lemma holds_Add [queue_keeps]: "holds x q \<Longrightarrow> holds x (q_Add item q)"
  by (auto simp: holds_def q_Add_dirty)

lemma holds_added: "\<not> shuttingDown q \<Longrightarrow> holds item (q_Add item q)"
  by (simp add: holds_def q_Add_dirty)

lemma holds_Get: "holds x q \<Longrightarrow> q_Get q = (r, q') \<Longrightarrow> r \<noteq> Got x \<Longrightarrow> holds x q'"
  by (auto simp: holds_def q_Get_def split: list.splits if_splits)

lemma holds_Done [queue_keeps]: "holds x q \<Longrightarrow> holds x (q_Done item q)"
  by (auto simp: holds_def q_Done_def Let_def)

lemma holds_ShutDown [queue_keeps]: "holds x q \<Longrightarrow> holds x (q_ShutDown q)"
  by (simp add: holds_def q_ShutDown_def)

lemma holds_AddAfter [queue_keeps]: "holds x q \<Longrightarrow> holds x (AddAfter item d q)"
  by (simp add: AddAfter_def holds_Add) (auto simp: holds_def)

lemma holds_added_after: "\<not> shuttingDown q \<Longrightarrow> holds item (AddAfter item d q)"
  by (simp add: AddAfter_def holds_added) (simp add: holds_def)

lemma insert_entry_keys: "fst ` set (insert_entry item t es) = insert item (fst ` set es)"
proof (cases "map_of es item")
  case (Some u)
  then have "item \<in> fst ` set es" by (force dest: map_of_SomeD)
  with Some show ?thesis by (auto simp: insert_entry_def dom_update)
qed (simp add: insert_entry_def)

lemma receive_holds:
  "\<not> shuttingDown q \<Longrightarrow> shuttingDown (receive e q) = False \<and>
   waitingForAddCh (receive e q) = waitingForAddCh q \<and>
   {x. x \<in> dirty (receive e q) \<or> x \<in> fst ` set (waitingEntries (receive e q))} =
     insert (fst e) {x. x \<in> dirty q \<or> x \<in> fst ` set (waitingEntries q)}"
  by (cases e) (auto simp: receive_def insert_entry_keys q_Add_dirty)

lemma fold_receive_holds:
  "\<not> shuttingDown q \<Longrightarrow>
   {x. x \<in> dirty (fold receive es q) \<or> x \<in> fst ` set (waitingEntries (fold receive es q))} =
     fst ` set es \<union> {x. x \<in> dirty q \<or> x \<in> fst ` set (waitingEntries q)}"
proof (induction es arbitrary: q)
  case (Cons e es)
  from receive_holds [OF Cons.prems, of e] Cons.IH [of "receive e q"] show ?case by auto
qed simp

lemma holds_drain [queue_keeps]: "\<not> shuttingDown q \<Longrightarrow> holds x q \<Longrightarrow> holds x (drain q)"
  using fold_receive_holds [of q "waitingForAddCh q"] by (auto simp: holds_def drain_def set_eq_iff)

lemma holds_add_ready [queue_keeps]: "holds x q \<Longrightarrow> holds x (add_ready q)"
proof (cases "shuttingDown q")
  case False
  let ?ready = "sort_key snd (filter (\<lambda>e. snd e \<le> clock q) (waitingEntries q))"
  assume x: "holds x q"
  have split: "set (waitingEntries q) = set ?ready \<union> {e \<in> set (waitingEntries q). clock q < snd e}"
    by auto
  from x False fold_q_Add [where q = q and es = ?ready] show ?thesis
    unfolding holds_def add_ready_def Let_def
    by (subst (asm) split) auto
qed (simp add: add_ready_def)

lemma holds_Forget [queue_keeps]: "holds x q \<Longrightarrow> holds x (Forget item q)"
  by (simp add: holds_def Forget_def)

lemma When_frame:
  assumes "When b item q = (d, q')"
  shows "holds x q' = holds x q" "shuttingDown q' = shuttingDown q"
  using assms by (auto simp: When_def Let_def holds_def)

lemma holds_AddRateLimited [queue_keeps]: "holds x q \<Longrightarrow> holds x (AddRateLimited b item q)"
  by (auto simp: AddRateLimited_def When_frame split: prod.split intro!: holds_AddAfter)

lemma holds_added_rate_limited: "\<not> shuttingDown q \<Longrightarrow> holds item (AddRateLimited b item q)"
  by (auto simp: AddRateLimited_def When_frame split: prod.split intro!: holds_added_after)

text \<open>The operations that do not shut the queue down, and what they do to the items that are processed.\<close>

lemma queue_frames [simp]:
  "shuttingDown (AddAfter item d q) = shuttingDown q" "processing (AddAfter item d q) = processing q"
  by (simp_all add: AddAfter_def)

lemma queue_done_frame [simp]:
  "shuttingDown (q_Done item q) = shuttingDown q" "processing (q_Done item q) = processing q - {item}"
  by (simp_all add: q_Done_def Let_def)

lemma queue_limit_frames [simp]:
  "shuttingDown (Forget item r) = shuttingDown r" "processing (Forget item r) = processing r"
  "shuttingDown (AddRateLimited b item r) = shuttingDown r" "processing (AddRateLimited b item r) = processing r"
  by (simp_all add: Forget_def AddRateLimited_def When_def Let_def)

lemma queue_add_ready_frame [simp]:
  "shuttingDown (add_ready q) = shuttingDown q" "processing (add_ready q) = processing q"
  "clock (add_ready q) = clock q"
  by (simp_all add: add_ready_def Let_def fold_q_Add)

lemma receive_frame: "shuttingDown (receive e q) = shuttingDown q" "processing (receive e q) = processing q"
  by (cases e; simp add: receive_def)+

lemma fold_receive_frame:
  "shuttingDown (fold receive es q) = shuttingDown q" "processing (fold receive es q) = processing q"
  by (induction es arbitrary: q) (simp_all add: receive_frame)

lemma queue_drain_frame [simp]:
  "shuttingDown (drain q) = shuttingDown q" "processing (drain q) = processing q"
  by (simp_all add: drain_def fold_receive_frame)

section \<open>Properties\<close>

text \<open>
  How long a retry waits: never more than 1000 seconds beyond what the token bucket of the controller
  asks for, and 5 ms doubled with every try since the last success until that bound is reached, after
  eighteen tries; the computation does not overflow.
\<close>

theorem retry_delay_bounded:
  "fst (When bucket item q) =
     max bucket (if NumRequeues item q < 18 then 5 * millisecond * 2 ^ NumRequeues item q else seconds 1000) \<and>
   fst (When bucket item q) \<le> max bucket (seconds 1000)"
proof -
  have small: "backoff n = 5 * millisecond * 2 ^ n \<and> backoff n \<le> seconds 1000" if "n < 18" for n
  proof -
    from that have "(2 :: nat) ^ n \<le> 2 ^ 17" by (intro power_increasing) auto
    then have "baseDelay * 2 ^ n \<le> 655360000000"
      by (simp add: baseDelay_def millisecond_def)
    then show ?thesis
      by (simp add: backoff_def Let_def maxDelay_def seconds_def baseDelay_def)
  qed
  have large: "backoff n = seconds 1000" if "\<not> n < 18" for n
  proof -
    from that have "(2 :: nat) ^ 18 \<le> 2 ^ n" by (intro power_increasing) auto
    then have "maxDelay < baseDelay * 2 ^ n"
      by (simp add: baseDelay_def millisecond_def maxDelay_def seconds_def)
    then show ?thesis by (simp add: backoff_def Let_def maxDelay_def)
  qed
  show ?thesis
    using small [of "NumRequeues item q"] large [of "NumRequeues item q"]
    by (auto simp: When_def Let_def max.commute)
qed

end
