(* ===== verification/Worker.thy ===== *)
theory Worker imports WorkQueue Cluster begin

text \<open>
  A running controller of the controller runtime: informers, queue and one worker around a reconciler
  (\<open>pkg/internal/controller/controller.go\<close>; \<open>MaxConcurrentReconciles\<close> is not set by the operator, so it is 1).

  The steps are those between which other goroutines can come: the rest of the world moves and the
  informers hear of it, an event is handled, time passes, the loop of the delaying queue does half a
  turn, the worker takes a request, reconciles it, and is done with it.  \<open>Do\<close> is the reconciler, \<open>handle\<close> the
  requests an event leads to, \<open>env\<close> what the rest of the world may do and which events it causes.

  The locale \<open>reconciler\<close> is the interface of a reconciler to this loop: what a run that asks for nothing
  more has achieved for one request, that other runs do not undo it, and that the informers report
  whatever else undoes it.  Then a controller that has nothing to do for the request has achieved it.
\<close>

section \<open>The worker\<close>

text \<open>
  \<open>Working\<close>: between \<open>Get\<close> and the end of \<open>reconcileHandler\<close>; \<open>Returned\<close>: before the deferred \<open>Done\<close>;
  \<open>Resting\<close>: \<open>worker\<close> has returned and \<open>wait.Until\<close> waits before it calls it again; a panic of the
  reconciler ends the process.
\<close>

datatype 'a worker = Idle | Working 'a | Returned 'a bool | Resting nat | Stopped | Crashed

record ('s, 'a, 'e) controller =
  c_sys :: 's
  c_queue :: "'a rate_limiting_queue"
  c_worker :: "'a worker"
  c_events :: "'e list"

text \<open>\<open>JitterPeriod\<close>.\<close>

definition JitterPeriod :: nat where
  "JitterPeriod = seconds 1"

text \<open>
  \<open>reconcileHandler\<close>: the value is whether the worker goes on at once.  \<open>bucket\<close> is the delay of the token
  bucket, should the request be rate limited.
\<close>

definition reconcileHandler ::
  "('a \<Rightarrow> ('s, result \<times> go_error option) go) \<Rightarrow> nat \<Rightarrow> 'a \<Rightarrow> 's \<Rightarrow> 'a rate_limiting_queue
   \<Rightarrow> bool res \<times> 's \<times> 'a rate_limiting_queue" where
  "reconcileHandler Do bucket req s q = (case Do req s of
       (Ok (res, err), s') \<Rightarrow>
         if err \<noteq> None then (Ok False, s', AddRateLimited bucket req q)
         else if 0 < RequeueAfter res
           then (Ok True, s', AddAfter req (seconds (RequeueAfter res)) (Forget req q))
         else if Requeue res then (Ok True, s', AddRateLimited bucket req q)
         else (Ok True, s', Forget req q)
     | (Err e, s') \<Rightarrow> (Ok False, s', AddRateLimited bucket req q)
     | (Panic p, s') \<Rightarrow> (Panic p, s', q))"

inductive controller_step ::
  "('a \<Rightarrow> ('s, result \<times> go_error option) go) \<Rightarrow> ('e \<Rightarrow> 'a list) \<Rightarrow> ('s \<Rightarrow> 's \<Rightarrow> 'e list \<Rightarrow> bool)
   \<Rightarrow> ('s, 'a, 'e) controller \<Rightarrow> ('s, 'a, 'e) controller \<Rightarrow> bool"
  for Do :: "'a \<Rightarrow> ('s, result \<times> go_error option) go" and handle :: "'e \<Rightarrow> 'a list"
    and env :: "'s \<Rightarrow> 's \<Rightarrow> 'e list \<Rightarrow> bool" where
  others: "env (c_sys c) s' es \<Longrightarrow>
     controller_step Do handle env c (c\<lparr>c_sys := s', c_events := c_events c @ es\<rparr>)"
| event: "c_events c = es @ e # fs \<Longrightarrow>
     controller_step Do handle env c (c\<lparr>c_events := es @ fs, c_queue := fold q_Add (handle e) (c_queue c)\<rparr>)"
| tick: "controller_step Do handle env c (c\<lparr>c_queue := (c_queue c)\<lparr>clock := clock (c_queue c) + d\<rparr>\<rparr>)"
| ready: "controller_step Do handle env c (c\<lparr>c_queue := add_ready (c_queue c)\<rparr>)"
| drained: "\<not> shuttingDown (c_queue c) \<Longrightarrow>
     controller_step Do handle env c (c\<lparr>c_queue := drain (c_queue c)\<rparr>)"
| take: "c_worker c = Idle \<Longrightarrow> q_Get (c_queue c) = (Got x, q) \<Longrightarrow>
     controller_step Do handle env c (c\<lparr>c_queue := q, c_worker := Working x\<rparr>)"
| reconcile: "c_worker c = Working x \<Longrightarrow> reconcileHandler Do bucket x (c_sys c) (c_queue c) = (Ok again, s', q) \<Longrightarrow>
     controller_step Do handle env c (c\<lparr>c_sys := s', c_queue := q, c_worker := Returned x again\<rparr>)"
| crash: "c_worker c = Working x \<Longrightarrow> reconcileHandler Do bucket x (c_sys c) (c_queue c) = (Panic p, s', q) \<Longrightarrow>
     controller_step Do handle env c (c\<lparr>c_sys := s', c_queue := q, c_worker := Crashed\<rparr>)"
| finish: "c_worker c = Returned x again \<Longrightarrow>
     controller_step Do handle env c (c\<lparr>c_queue := q_Done x (c_queue c),
       c_worker := (if again then Idle else Resting (clock (c_queue c) + JitterPeriod))\<rparr>)"
| wake: "c_worker c = Resting t \<Longrightarrow> t \<le> clock (c_queue c) \<Longrightarrow>
     controller_step Do handle env c (c\<lparr>c_worker := Idle\<rparr>)"
| shutdown: "controller_step Do handle env c (c\<lparr>c_queue := q_ShutDown (c_queue c)\<rparr>)"
| stop: "c_worker c = Idle \<Longrightarrow> q_Get (c_queue c) = (Drained, q) \<Longrightarrow>
     controller_step Do handle env c (c\<lparr>c_queue := q, c_worker := Stopped\<rparr>)"
| stop_resting: "c_worker c = Resting t \<Longrightarrow> shuttingDown (c_queue c) \<Longrightarrow>
     controller_step Do handle env c (c\<lparr>c_worker := Stopped\<rparr>)"

inductive controller_run ::
  "('a \<Rightarrow> ('s, result \<times> go_error option) go) \<Rightarrow> ('e \<Rightarrow> 'a list) \<Rightarrow> ('s \<Rightarrow> 's \<Rightarrow> 'e list \<Rightarrow> bool)
   \<Rightarrow> ('s, 'a, 'e) controller \<Rightarrow> ('s, 'a, 'e) controller \<Rightarrow> bool"
  for Do :: "'a \<Rightarrow> ('s, result \<times> go_error option) go" and handle :: "'e \<Rightarrow> 'a list"
    and env :: "'s \<Rightarrow> 's \<Rightarrow> 'e list \<Rightarrow> bool" and c0 :: "('s, 'a, 'e) controller" where
  run_start: "controller_run Do handle env c0 c0"
| run_step: "controller_run Do handle env c0 c \<Longrightarrow> controller_step Do handle env c c' \<Longrightarrow>
     controller_run Do handle env c0 c'"

text \<open>A controller that has just been started; the events of the objects there are come first.\<close>

definition started :: "('s, 'a, 'e) controller \<Rightarrow> bool" where
  "started c \<longleftrightarrow> c_queue c = newQueue \<and> c_worker c = Idle"

definition live :: "('s, 'a, 'e) controller \<Rightarrow> bool" where
  "live c \<longleftrightarrow> \<not> shuttingDown (c_queue c) \<and> c_worker c \<noteq> Crashed"

text \<open>The controller has the request before it: it is reported, queued, waiting or being reconciled.\<close>

definition due :: "('e \<Rightarrow> 'a list) \<Rightarrow> 'a \<Rightarrow> ('s, 'a, 'e) controller \<Rightarrow> bool" where
  "due handle x c \<longleftrightarrow> holds x (c_queue c) \<or> c_worker c = Working x \<or>
     (\<exists>e \<in> set (c_events c). x \<in> set (handle e))"

text \<open>The result of a reconciliation after which the request is forgotten.\<close>

definition settled :: "(result \<times> go_error option) res \<Rightarrow> bool" where
  "settled r \<longleftrightarrow> (\<exists>res. r = Ok (res, None) \<and> \<not> Requeue res \<and> RequeueAfter res = 0)"

section \<open>The handler\<close>

lemma reconcileHandler_Ok:
  assumes "reconcileHandler Do b x s q = (Ok again, s', q')"
  obtains r where "Do x s = (r, s')" and "\<not> is_panic r"
    and "shuttingDown q' = shuttingDown q" and "processing q' = processing q"
    and "queue_ok q \<Longrightarrow> queue_ok q'" and "\<And>y. holds y q \<Longrightarrow> holds y q'"
    and "\<not> settled r \<Longrightarrow> \<not> shuttingDown q \<Longrightarrow> holds x q'"
proof -
  obtain r t where r: "Do x s = (r, t)" by (cases "Do x s")
  show thesis
    by (rule that [of r]; use assms r in \<open>cases r\<close>;
        auto simp: reconcileHandler_def settled_def holds_added_rate_limited holds_added_after
          queue_ops queue_keeps split: if_splits)
qed

section \<open>One request at a time\<close>

fun in_work :: "'a worker \<Rightarrow> 'a set" where
  "in_work (Working x) = {x}"
| "in_work (Returned x again) = {x}"
| "in_work w = {}"

definition controller_ok :: "('s, 'a, 'e) controller \<Rightarrow> bool" where
  "controller_ok c \<longleftrightarrow> queue_ok (c_queue c) \<and>
     (c_worker c \<noteq> Crashed \<longrightarrow> processing (c_queue c) = in_work (c_worker c)) \<and>
     (c_worker c = Stopped \<longrightarrow> shuttingDown (c_queue c))"

lemma fold_q_Add_queue:
  fixes q :: "('a, 'z) work_queue_scheme"
  shows "queue_ok q \<Longrightarrow> queue_ok (fold q_Add xs q)"
    and "processing (fold q_Add xs q) = processing q" "shuttingDown (fold q_Add xs q) = shuttingDown q"
  by (induction xs arbitrary: q) (simp_all add: queue_ok_Add)

lemma fold_q_Add_holds:
  "holds y q \<Longrightarrow> holds y (fold q_Add xs q)"
  "\<not> shuttingDown q \<Longrightarrow> y \<in> set xs \<Longrightarrow> holds y (fold q_Add xs q)"
proof -
  show keep: "holds y q \<Longrightarrow> holds y (fold q_Add xs q)" for q :: "('a, 'b) delaying_queue_scheme" and xs
    by (induction xs arbitrary: q) (simp_all add: holds_Add)
  show "\<not> shuttingDown q \<Longrightarrow> y \<in> set xs \<Longrightarrow> holds y (fold q_Add xs q)"
    by (induction xs arbitrary: q) (auto simp: holds_added keep)
qed

lemma q_Get_frame: "q_Get q = (r, q') \<Longrightarrow>
    shuttingDown q' = shuttingDown q \<and>
    processing q' = (case r of Got x \<Rightarrow> insert x (processing q) | _ \<Rightarrow> processing q)"
  by (auto simp: q_Get_def split: list.splits if_splits)

lemma clock_frame [simp]:
  "queue_ok (q\<lparr>clock := t\<rparr>) = queue_ok q" "holds x (q\<lparr>clock := t\<rparr>) = holds x q"
  by (simp_all add: queue_ok_def holds_def)

lemma queue_shutdown_frame [simp]: "processing (q_ShutDown q) = processing q" "shuttingDown (q_ShutDown q)"
  by (simp_all add: q_ShutDown_def)

lemma controller_ok_step:
  assumes "controller_step Do handle env c c'" and "controller_ok c"
  shows "controller_ok c'"
  using assms
proof (induction rule: controller_step.induct)
  case (take c x q)
  then show ?case using q_Get_frame [of "c_queue c"] queue_ok_Get [of "c_queue c"]
    by (auto simp: controller_ok_def)
next
  case (reconcile c x b again s' q)
  then show ?case by (elim reconcileHandler_Ok) (auto simp: controller_ok_def)
next
  case (crash c x b p s' q)
  then have "q = c_queue c"
    by (auto simp: reconcileHandler_def split: prod.splits res.splits if_splits)
  with crash show ?case by (simp add: controller_ok_def)
next
  case (stop c q)
  then have "q = c_queue c" "shuttingDown (c_queue c)"
    by (auto simp: q_Get_def split: list.splits if_splits)
  with stop show ?case by (auto simp: controller_ok_def)
qed (auto simp: controller_ok_def fold_q_Add_queue queue_ops)

lemma controller_ok_started: "started c \<Longrightarrow> controller_ok c"
  by (simp add: started_def controller_ok_def newQueue_def queue_ok_def)

section \<open>No request is lost\<close>

lemma live_step: "controller_step Do handle env c c' \<Longrightarrow> live c' \<Longrightarrow> live c"
proof (induction rule: controller_step.induct)
  case (take c x q)
  then show ?case using q_Get_frame [of "c_queue c"] by (simp add: live_def)
next
  case (reconcile c x b again s' q)
  then show ?case by (elim reconcileHandler_Ok) (simp add: live_def)
next
  case (stop c q)
  then show ?case using q_Get_frame [of "c_queue c"] by (simp add: live_def)
qed (auto simp: live_def fold_q_Add_queue)

lemma due_step:
  assumes "controller_step Do handle env c c'" and "due handle x c" and "live c'"
  shows "due handle x c' \<or>
    (\<exists>r. c_worker c = Working x \<and> Do x (c_sys c) = (r, c_sys c') \<and> settled r)"
  using assms
proof (induction rule: controller_step.induct)
  case (event c es e fs)
  then have up: "\<not> shuttingDown (c_queue c)" by (simp add: live_def fold_q_Add_queue)
  from event(1,2) show ?case
    using fold_q_Add_holds(1) [of x "c_queue c"] fold_q_Add_holds(2) [OF up, of x]
    by (auto simp: due_def)
next
  case (take c y q)
  then show ?case using holds_Get [of x "c_queue c" "Got y" q] by (auto simp: due_def)
next
  case (reconcile c y b again s' q)
  from reconcile(2) obtain r where r: "Do y (c_sys c) = (r, s')" "shuttingDown q = shuttingDown (c_queue c)"
    "\<And>z. holds z (c_queue c) \<Longrightarrow> holds z q" "\<not> settled r \<Longrightarrow> \<not> shuttingDown (c_queue c) \<Longrightarrow> holds y q"
    by (elim reconcileHandler_Ok) blast
  with reconcile show ?case by (auto simp: due_def live_def)
next
  case (stop c q)
  then have "q = c_queue c" by (simp add: q_Get_def split: list.splits)
  with stop show ?case by (simp add: due_def)
qed (auto simp: due_def live_def queue_keeps)

section \<open>Reconcilers\<close>

locale reconciler =
  fixes Do :: "'a \<Rightarrow> ('s, result \<times> go_error option) go" and handle :: "'e \<Rightarrow> 'a list"
    and env :: "'s \<Rightarrow> 's \<Rightarrow> 'e list \<Rightarrow> bool" and request :: 'a and goal :: "'s \<Rightarrow> bool"
  assumes settles: "Do request s = (r, s') \<Longrightarrow> settled r \<Longrightarrow> goal s'"
    and stays: "Do req s = (r, s') \<Longrightarrow> goal s \<Longrightarrow> goal s'"
    and reported: "env s s' es \<Longrightarrow> goal s \<Longrightarrow> goal s' \<or> (\<exists>e \<in> set es. request \<in> set (handle e))"
begin

lemma goal_step:
  assumes "controller_step Do handle env c c'" and "due handle request c \<or> goal (c_sys c)" and "live c'"
  shows "due handle request c' \<or> goal (c_sys c')"
proof (cases "due handle request c")
  case True
  from due_step [OF assms(1) this assms(3)] show ?thesis by (auto dest: settles)
next
  case False
  with assms(2) have "goal (c_sys c)" by simp
  with assms(1) show ?thesis
  proof (induction rule: controller_step.induct)
    case (others c s' es)
    then show ?case using reported by (fastforce simp: due_def)
  next
    case (reconcile c y b again s' q)
    then show ?case by (elim reconcileHandler_Ok) (auto dest: stays)
  next
    case (crash c y b p s' q)
    then show ?case
      by (auto simp: reconcileHandler_def split: prod.splits res.splits if_splits dest: stays)
  qed auto
qed

text \<open>A controller that is not shut down and has nothing to do for the request has reached the goal.\<close>

lemma quiet_goal:
  assumes "controller_run Do handle env c0 c" and "due handle request c0 \<or> goal (c_sys c0)" and "live c"
  shows "due handle request c \<or> goal (c_sys c)"
  using assms(1,3)
proof (induction rule: controller_run.induct)
  case run_start
  from assms(2) show ?case .
next
  case (run_step c c')
  then show ?case using goal_step live_step by blast
qed

end

section \<open>The work goes on\<close>

text \<open>The steps the controller makes by itself: the rest of the world stands still.\<close>

abbreviation own_steps ::
  "('a \<Rightarrow> ('s, result \<times> go_error option) go) \<Rightarrow> ('e \<Rightarrow> 'a list)
   \<Rightarrow> ('s, 'a, 'e) controller \<Rightarrow> ('s, 'a, 'e) controller \<Rightarrow> bool" where
  "own_steps Do handle \<equiv> (controller_step Do handle (\<lambda>s s' es. False))\<^sup>*\<^sup>*"

lemma own_step: "controller_step Do handle (\<lambda>s s' es. False) c c' \<Longrightarrow> own_steps Do handle c c'"
  by (rule r_into_rtranclp)

lemma own_ok: "own_steps Do handle c c' \<Longrightarrow> controller_ok c \<Longrightarrow> controller_ok c'"
  by (induction rule: rtranclp_induct) (auto dest: controller_ok_step)

text \<open>The queue only gets longer while a request is reconciled.\<close>

lemma queue_grows:
  "\<exists>zs. queue (q_Add x q) = queue q @ zs" "\<exists>zs. queue (q_Done x q) = queue q @ zs"
  "\<exists>zs. queue (AddAfter x d r) = queue r @ zs"
  by (simp_all add: q_Add_def q_Done_def AddAfter_def Let_def)

lemma reconcileHandler_grows:
  "reconcileHandler Do b x s q = (Ok again, s', q') \<Longrightarrow> \<exists>zs. queue q' = queue q @ zs"
  using queue_grows(3) [of x _ "snd (When b x q)"] queue_grows(3) [of x _ "Forget x q"]
  by (auto simp: reconcileHandler_def AddRateLimited_def When_def Forget_def Let_def
      split: prod.splits res.splits if_splits)

text \<open>The worker gets free, unless it takes up the request itself.\<close>

definition reaches_idle ::
  "('a \<Rightarrow> ('s, result \<times> go_error option) go) \<Rightarrow> ('e \<Rightarrow> 'a list) \<Rightarrow> 'a \<Rightarrow> ('s, 'a, 'e) controller \<Rightarrow> bool" where
  "reaches_idle Do handle x c \<longleftrightarrow> (\<exists>c' zs. own_steps Do handle c c' \<and> live c' \<and> c_worker c' = Idle \<and>
     queue (c_queue c') = queue (c_queue c) @ zs \<and> (holds x (c_queue c) \<longrightarrow> holds x (c_queue c')))"

lemma reaches_idle_step:
  assumes "controller_step Do handle (\<lambda>s s' es. False) c c1" and "reaches_idle Do handle x c1"
    and "queue (c_queue c1) = queue (c_queue c) @ ys" and "holds x (c_queue c) \<longrightarrow> holds x (c_queue c1)"
  shows "reaches_idle Do handle x c"
proof -
  from assms(2) obtain c' zs where "own_steps Do handle c1 c'" "live c'" "c_worker c' = Idle"
      "queue (c_queue c') = queue (c_queue c1) @ zs" "holds x (c_queue c1) \<longrightarrow> holds x (c_queue c')"
    unfolding reaches_idle_def by blast
  with assms(1,3,4) show ?thesis
    unfolding reaches_idle_def
    by (intro exI [of _ c'] exI [of _ "ys @ zs"]) (simp add: converse_rtranclp_into_rtranclp)
qed

lemma resting_reaches_idle:
  assumes "live c" and "c_worker c = Resting t"
  shows "reaches_idle Do handle x c"
proof -
  let ?c1 = "c\<lparr>c_queue := (c_queue c)\<lparr>clock := clock (c_queue c) + t\<rparr>\<rparr>"
  have idle: "reaches_idle Do handle x (?c1\<lparr>c_worker := Idle\<rparr>)"
    using assms(1) unfolding reaches_idle_def
    by (intro exI [of _ "?c1\<lparr>c_worker := Idle\<rparr>"] exI [of _ "[]"]) (simp add: live_def)
  have wake: "controller_step Do handle (\<lambda>s s' es. False) ?c1 (?c1\<lparr>c_worker := Idle\<rparr>)"
    by (rule controller_step.wake [of _ t]) (simp_all add: assms(2))
  have "reaches_idle Do handle x ?c1"
    by (rule reaches_idle_step [OF wake idle, where ys = "[]"]) simp_all
  then show ?thesis
    by (rule reaches_idle_step [OF controller_step.tick, where ys = "[]"]) simp_all
qed

lemma returned_reaches_idle:
  assumes "live c" and "c_worker c = Returned y again"
  shows "reaches_idle Do handle x c"
proof -
  let ?c1 = "c\<lparr>c_queue := q_Done y (c_queue c),
      c_worker := (if again then Idle else Resting (clock (c_queue c) + JitterPeriod))\<rparr>"
  have live: "live ?c1" using assms(1) by (simp add: live_def)
  have idle: "reaches_idle Do handle x ?c1"
  proof (cases again)
    case True
    with live show ?thesis unfolding reaches_idle_def
      by (intro exI [of _ ?c1] exI [of _ "[]"]) simp
  next
    case False
    with live show ?thesis by (intro resting_reaches_idle) simp_all
  qed
  from queue_grows(2) obtain ys where ys: "queue (q_Done y (c_queue c)) = queue (c_queue c) @ ys" ..
  show ?thesis
  proof (rule reaches_idle_step [OF controller_step.finish [OF assms(2)] idle])
    show "queue (c_queue ?c1) = queue (c_queue c) @ ys" using ys by simp
    show "holds x (c_queue c) \<longrightarrow> holds x (c_queue ?c1)" by (simp add: holds_Done)
  qed
qed

lemma worker_reaches_idle:
  assumes "live c" and "controller_ok c" and "c_worker c \<noteq> Working x"
  shows "reaches_idle Do handle x c \<or> (\<exists>c'. own_steps Do handle c c' \<and> c_worker c' = Crashed)"
proof (cases "c_worker c")
  case Idle
  with assms(1) have "reaches_idle Do handle x c" unfolding reaches_idle_def
    by (intro exI [of _ c] exI [of _ "[]"]) simp
  then show ?thesis ..
next
  case (Working y)
  obtain r s' where r: "Do y (c_sys c) = (r, s')" by (cases "Do y (c_sys c)")
  obtain v t q where run: "reconcileHandler Do 0 y (c_sys c) (c_queue c) = (v, t, q)"
    by (cases "reconcileHandler Do 0 y (c_sys c) (c_queue c)")
  show ?thesis
  proof (cases v)
    case (Ok again)
    let ?c1 = "c\<lparr>c_sys := t, c_queue := q, c_worker := Returned y again\<rparr>"
    from run Ok have run': "reconcileHandler Do 0 y (c_sys c) (c_queue c) = (Ok again, t, q)" by simp
    then have q: "shuttingDown q = shuttingDown (c_queue c)" "holds x (c_queue c) \<longrightarrow> holds x q"
      by (elim reconcileHandler_Ok; blast)+
    with assms(1) have idle: "reaches_idle Do handle x ?c1"
      by (intro returned_reaches_idle [of _ y again]) (simp_all add: live_def)
    from reconcileHandler_grows [OF run'] obtain ys where "queue q = queue (c_queue c) @ ys" ..
    with idle q(2) have "reaches_idle Do handle x c"
      by (intro reaches_idle_step [OF controller_step.reconcile [OF Working run']]) simp_all
    then show ?thesis ..
  next
    case (Panic p)
    with run have "reconcileHandler Do 0 y (c_sys c) (c_queue c) = (Panic p, t, q)" by simp
    from own_step [OF controller_step.crash [OF Working this]] show ?thesis
      by (intro disjI2 exI [of _ "c\<lparr>c_sys := t, c_queue := q, c_worker := Crashed\<rparr>"]) simp
  qed (use r run in \<open>auto simp: reconcileHandler_def split: res.splits if_splits\<close>)
next
  case Stopped
  with assms(1,2) show ?thesis by (simp add: live_def controller_ok_def)
next
  case Crashed
  with assms(1) show ?thesis by (simp add: live_def)
qed (use assms(1) in \<open>auto intro: returned_reaches_idle resting_reaches_idle\<close>)

text \<open>A request in the queue is taken up when those before it have been.\<close>

lemma queued_taken:
  "live c \<Longrightarrow> controller_ok c \<Longrightarrow> x \<in> set (queue (c_queue c)) \<Longrightarrow>
    \<exists>c'. own_steps Do handle c c' \<and> (c_worker c' = Working x \<and> live c' \<or> c_worker c' = Crashed)"
proof (induction "length (takeWhile (\<lambda>y. y \<noteq> x) (queue (c_queue c)))" arbitrary: c rule: less_induct)
  case less
  show ?case
  proof (cases "reaches_idle Do handle x c \<and> c_worker c \<noteq> Working x")
    case True
    then obtain c1 zs where
      c1: "own_steps Do handle c c1" "live c1" "c_worker c1 = Idle" "queue (c_queue c1) = queue (c_queue c) @ zs"
      unfolding reaches_idle_def by blast
    from less.prems(3) obtain y ys where ys: "queue (c_queue c) = y # ys" by (cases "queue (c_queue c)") auto
    obtain q where get: "q_Get (c_queue c1) = (Got y, q)" "queue q = ys @ zs" "shuttingDown q = shuttingDown (c_queue c1)"
      using c1(4) ys by (auto simp: q_Get_def)
    let ?c2 = "c1\<lparr>c_queue := q, c_worker := Working y\<rparr>"
    have step: "controller_step Do handle (\<lambda>s s' es. False) c1 ?c2"
      using c1(3) get(1) by (rule controller_step.take)
    with c1(1) have c2: "own_steps Do handle c ?c2" by (rule rtranclp.rtrancl_into_rtrancl)
    have live2: "live ?c2" using c1(2) get(3) by (simp add: live_def)
    show ?thesis
    proof (cases "y = x")
      case True
      with c2 live2 show ?thesis by (intro exI [of _ ?c2]) simp
    next
      case False
      with less.prems(3) ys have x: "x \<in> set ys" by simp
      with False get(2) ys have "length (takeWhile (\<lambda>y. y \<noteq> x) (queue (c_queue ?c2))) <
          length (takeWhile (\<lambda>y. y \<noteq> x) (queue (c_queue c)))"
        by simp
      from less.hyps [OF this live2 own_ok [OF c2 less.prems(2)]] x get(2) obtain c' where
        "own_steps Do handle ?c2 c'" "c_worker c' = Working x \<and> live c' \<or> c_worker c' = Crashed"
        by auto
      with c2 show ?thesis by (meson rtranclp_trans)
    qed
  next
    case False
    show ?thesis
    proof (cases "c_worker c = Working x")
      case True
      with less.prems(1) show ?thesis by (intro exI [of _ c]) simp
    next
      case no: False
      with False worker_reaches_idle [OF less.prems(1,2) no, of Do handle] show ?thesis by auto
    qed
  qed
qed


lemma run_controller_ok: "controller_run Do handle env c0 c \<Longrightarrow> started c0 \<Longrightarrow> controller_ok c"
  by (induction rule: controller_run.induct) (auto intro: controller_ok_started controller_ok_step)

text \<open>What waits in the delaying queue gets into the queue when its time has come.\<close>

lemma add_ready_all:
  assumes "\<not> shuttingDown q" and "waitingForAddCh q = []" and "holds x q"
    and "\<forall>e \<in> set (waitingEntries q). snd e \<le> clock q"
  shows "x \<in> dirty (add_ready q)"
proof -
  have "set (sort_key snd (filter (\<lambda>e. snd e \<le> clock q) (waitingEntries q))) = set (waitingEntries q)"
    using assms(4) by auto
  with assms(1-3) show ?thesis by (auto simp: add_ready_def Let_def fold_q_Add(6) holds_def)
qed

lemma held_queued:
  assumes "live c" and "controller_ok c" and "c_worker c = Idle" and "holds x (c_queue c)"
  shows "\<exists>c'. own_steps Do handle c c' \<and> live c' \<and> controller_ok c' \<and> x \<in> set (queue (c_queue c'))"
proof -
  have up: "\<not> shuttingDown (c_queue c)" using assms(1) by (simp add: live_def)
  define q1 where "q1 = drain (c_queue c)"
  define d where "d = sum_list (map snd (waitingEntries q1))"
  let ?q2 = "q1\<lparr>clock := clock q1 + d\<rparr>"
  let ?c3 = "c\<lparr>c_queue := add_ready ?q2\<rparr>"
  have q1: "holds x q1" "\<not> shuttingDown q1" "waitingForAddCh q1 = []"
    using up assms(4) by (simp_all add: q1_def holds_drain) (simp add: drain_def)
  have "\<forall>e \<in> set (waitingEntries q1). snd e \<le> d"
    unfolding d_def by (auto intro!: member_le_sum_list) (metis image_eqI snd_conv)
  then have dirty: "x \<in> dirty (add_ready ?q2)"
    using q1 by (intro add_ready_all) (auto simp: trans_le_add2)
  have 1: "own_steps Do handle c (c\<lparr>c_queue := q1\<rparr>)"
    unfolding q1_def by (intro own_step controller_step.drained up)
  have 2: "own_steps Do handle (c\<lparr>c_queue := q1\<rparr>) (c\<lparr>c_queue := ?q2\<rparr>)"
    using own_step [OF controller_step.tick [of Do handle _ "c\<lparr>c_queue := q1\<rparr>" d]] by simp
  have 3: "own_steps Do handle (c\<lparr>c_queue := ?q2\<rparr>) ?c3"
    using own_step [OF controller_step.ready [of Do handle _ "c\<lparr>c_queue := ?q2\<rparr>"]] by simp
  from 1 2 3 have steps: "own_steps Do handle c ?c3" by (meson rtranclp_trans)
  from own_ok [OF this assms(2)] have ok: "controller_ok ?c3" .
  with assms(3) dirty have "x \<in> set (queue (add_ready ?q2))"
    by (simp add: controller_ok_def queue_ok_def)
  moreover have "live ?c3" using q1(2) assms(1) by (simp add: live_def)
  ultimately show ?thesis using steps ok by (intro exI [of _ ?c3]) simp
qed

lemma due_held:
  assumes "live c" and "due handle x c"
  shows "\<exists>c'. own_steps Do handle c c' \<and> live c' \<and> (holds x (c_queue c') \<or> c_worker c' = Working x)"
proof (cases "holds x (c_queue c) \<or> c_worker c = Working x")
  case True
  with assms(1) show ?thesis by blast
next
  case False
  with assms(2) obtain e where e: "e \<in> set (c_events c)" "x \<in> set (handle e)" by (auto simp: due_def)
  then obtain es fs where "c_events c = es @ e # fs" by (meson split_list)
  from own_step [OF controller_step.event [OF this]] assms(1) e(2) show ?thesis
    by (intro exI [of _ "c\<lparr>c_events := es @ fs, c_queue := fold q_Add (handle e) (c_queue c)\<rparr>"])
      (simp add: live_def fold_q_Add_queue fold_q_Add_holds(2))
qed

lemma due_taken_live:
  assumes "live c" and "controller_ok c" and "due handle x c"
  shows "\<exists>c'. own_steps Do handle c c' \<and> (c_worker c' = Working x \<and> live c' \<or> c_worker c' = Crashed)"
proof -
  obtain c1 where c1: "own_steps Do handle c c1" "live c1" "holds x (c_queue c1) \<or> c_worker c1 = Working x"
    using due_held [OF assms(1,3)] by blast
  have ok1: "controller_ok c1" using own_ok [OF c1(1) assms(2)] .
  have "\<exists>c'. own_steps Do handle c1 c' \<and> (c_worker c' = Working x \<and> live c' \<or> c_worker c' = Crashed)"
  proof (cases "c_worker c1 = Working x")
    case False
    with c1(3) have x: "holds x (c_queue c1)" by simp
    show ?thesis
    proof (cases "reaches_idle Do handle x c1")
      case True
      with x obtain c2 where c2: "own_steps Do handle c1 c2" "live c2" "c_worker c2 = Idle" "holds x (c_queue c2)"
        unfolding reaches_idle_def by blast
      from held_queued [OF c2(2) own_ok [OF c2(1) ok1] c2(3,4)] obtain c3 where
        c3: "own_steps Do handle c2 c3" "live c3" "controller_ok c3" "x \<in> set (queue (c_queue c3))" by blast
      from queued_taken [OF c3(2-4)] obtain c4 where
        "own_steps Do handle c3 c4" "c_worker c4 = Working x \<and> live c4 \<or> c_worker c4 = Crashed" by blast
      with c2(1) c3(1) show ?thesis by (meson rtranclp_trans)
    next
      case no: False
      with worker_reaches_idle [OF c1(2) ok1 False, of Do handle] show ?thesis by auto
    qed
  qed (use c1(2) in blast)
  with c1(1) show ?thesis by (meson rtranclp_trans)
qed

lemma due_taken:
  assumes "live c" and "controller_ok c" and "due handle x c"
  shows "\<exists>c'. own_steps Do handle c c' \<and> (c_worker c' = Working x \<or> c_worker c' = Crashed)"
  using due_taken_live [OF assms] by blast

section \<open>Properties\<close>


text \<open>Witness: a controller with the event of one object, after it has taken up the request.\<close>

lemma sample_take:
  "controller_run (\<lambda>x s. (Ok (emptyResult, None), s)) (\<lambda>e. [e]) (\<lambda>s s' es. False)
     \<lparr>c_sys = (), c_queue = newQueue, c_worker = Idle, c_events = [''config'']\<rparr>
     \<lparr>c_sys = (), c_queue = newQueue\<lparr>queue := [''config''], dirty := {''config''}\<rparr>, c_worker = Idle, c_events = []\<rparr>"
  (is "controller_run ?Do ?handle ?env ?c0 ?c1")
proof -
  have "controller_step ?Do ?handle ?env ?c0 (?c0\<lparr>c_events := [] @ [],
      c_queue := fold q_Add (?handle ''config'') (c_queue ?c0)\<rparr>)"
    by (rule controller_step.event) simp
  then have "controller_step ?Do ?handle ?env ?c0 ?c1" by (simp add: q_Add_def newQueue_def Let_def)
  with run_start show ?thesis by (rule run_step)
qed


text \<open>
  No request is lost and none waits for ever: in a controller that is not shut down, a request that an
  event has asked for, that is queued, waits for a retry or is being reconciled, can be brought to
  the worker by the controller's own steps alone, unless an earlier reconciliation ends the process.
\<close>

theorem due_request_taken:
  assumes "controller_run Do handle env c0 c" and "started c0" and "live c" and "due handle x c"
  shows "\<exists>c'. own_steps Do handle c c' \<and> (c_worker c' = Working x \<or> c_worker c' = Crashed)"
  using due_taken [OF assms(3) run_controller_ok [OF assms(1,2)] assms(4)] .

theorem due_request_taken_witness:
  "\<exists>c'. own_steps (\<lambda>x s. (Ok (emptyResult, None), s)) (\<lambda>e. [e])
     \<lparr>c_sys = (), c_queue = newQueue\<lparr>queue := [''config''], dirty := {''config''}\<rparr>, c_worker = Idle, c_events = []\<rparr> c' \<and>
     (c_worker c' = Working ''config'' \<or> c_worker c' = Crashed)"
  using due_request_taken [OF sample_take, of "''config''"]
  by (simp add: started_def newQueue_def live_def due_def holds_def)

end
