(* ===== verification/Watches.thy ===== *)
theory Watches imports ConfigTypes ApiScheme begin

text \<open>
  What the controllers watch: the calls of \<open>Watch\<close> in \<open>add\<close> of \<open>config_controller.go\<close> and of
  \<open>rbac_controller.go\<close>, with the predicate (operator-sdk), the event handlers and the event source of the
  controller runtime.  An event of an informer becomes a list of requests for the queue.

  An event carries the metadata of the object, which every object has, so the branches for missing
  metadata are left out, as is \<open>Generic\<close>, which the source \<open>Kind\<close> never sends.
\<close>

section \<open>Events and requests\<close>

text \<open>\<open>reconcile.Request\<close>, and the fields of \<open>metav1.OwnerReference\<close> and \<open>ObjectMeta\<close> the handlers read.\<close>

record Request =
  req_Namespace :: string
  req_Name :: string

record OwnerReference =
  ref_APIVersion :: string
  ref_Kind :: string
  ref_Name :: string
  ref_UID :: string
  ref_Controller :: "bool option"

record ObjectMeta =
  m_Name :: string
  m_Namespace :: string
  m_Generation :: int
  m_OwnerReferences :: "OwnerReference list"

datatype watch_event = Created ObjectMeta | Updated ObjectMeta ObjectMeta | Deleted ObjectMeta

section \<open>The predicate\<close>

text \<open>\<open>predicate.GenerationChangedPredicate\<close>; the embedded \<open>Funcs\<close> let creations and deletions pass.\<close>

fun GenerationChanged :: "watch_event \<Rightarrow> bool" where
  "GenerationChanged (Updated old new) \<longleftrightarrow>
     \<not> (m_Generation new = m_Generation old \<and> m_Generation new \<noteq> 0)"
| "GenerationChanged (Created m) \<longleftrightarrow> True"
| "GenerationChanged (Deleted m) \<longleftrightarrow> True"

section \<open>The handlers\<close>

definition request_for :: "ObjectMeta \<Rightarrow> Request" where
  "request_for m = \<lparr>req_Namespace = m_Namespace m, req_Name = m_Name m\<rparr>"

fun EnqueueRequestForObject :: "watch_event \<Rightarrow> Request list" where
  "EnqueueRequestForObject (Created m) = [request_for m]"
| "EnqueueRequestForObject (Updated old new) = [request_for old, request_for new]"
| "EnqueueRequestForObject (Deleted m) = [request_for m]"

text \<open>\<open>metav1.GetControllerOf\<close>: the first reference that is the controller.\<close>

definition GetControllerOf :: "OwnerReference list \<Rightarrow> OwnerReference option" where
  "GetControllerOf refs = find (\<lambda>r. ref_Controller r = Some True) refs"

text \<open>
  \<open>EnqueueRequestForOwner\<close> with its cached group and kind; \<open>root_scope\<close> is \<open>RESTMapping\<close> of the manager's
  mapper for that kind in a version: whether the kind is not namespaced.
\<close>

record owner_handler =
  IsController :: bool
  groupKind :: "string \<times> string"
  root_scope :: "string \<Rightarrow> go_error + bool"

definition getOwnersReferences :: "owner_handler \<Rightarrow> ObjectMeta \<Rightarrow> OwnerReference list" where
  "getOwnersReferences e m =
     (if \<not> IsController e then m_OwnerReferences m
      else case GetControllerOf (m_OwnerReferences m) of Some ref \<Rightarrow> [ref] | None \<Rightarrow> [])"

fun owner_loop :: "owner_handler \<Rightarrow> ObjectMeta \<Rightarrow> OwnerReference list \<Rightarrow> Request list \<Rightarrow> Request list" where
  "owner_loop e m [] result = result"
| "owner_loop e m (ref # refs) result = (case ParseGroupVersion (ref_APIVersion ref) of
       Inl err \<Rightarrow> []
     | Inr (grp, version) \<Rightarrow>
         if ref_Kind ref = snd (groupKind e) \<and> grp = fst (groupKind e) then
           (case root_scope e version of
              Inl err \<Rightarrow> []
            | Inr root \<Rightarrow> owner_loop e m refs (result @
                [\<lparr>req_Namespace = (if root then [] else m_Namespace m), req_Name = ref_Name ref\<rparr>]))
         else owner_loop e m refs result)"

definition getOwnerReconcileRequest :: "owner_handler \<Rightarrow> ObjectMeta \<Rightarrow> Request list" where
  "getOwnerReconcileRequest e m = owner_loop e m (getOwnersReferences e m) []"

fun EnqueueRequestForOwner :: "owner_handler \<Rightarrow> watch_event \<Rightarrow> Request list" where
  "EnqueueRequestForOwner e (Created m) = getOwnerReconcileRequest e m"
| "EnqueueRequestForOwner e (Updated old new) = getOwnerReconcileRequest e old @ getOwnerReconcileRequest e new"
| "EnqueueRequestForOwner e (Deleted m) = getOwnerReconcileRequest e m"

text \<open>\<open>InjectScheme\<close>, called by \<open>Watch\<close>: the group and kind of the owner type.\<close>

definition parseOwnerTypeGroupKind :: "scheme \<Rightarrow> go_type \<Rightarrow> (string \<times> string) res" where
  "parseOwnerTypeGroupKind s t = res_bind (ObjectKinds s t) (\<lambda>(kinds, unversioned). case kinds of
       [(grp, version, kind)] \<Rightarrow> Ok (grp, kind)
     | _ \<Rightarrow> Err (PlainError (''Expected exactly 1 kind for OwnerType '' @ snd t)))"

section \<open>The watches\<close>

text \<open>
  One call of \<open>Watch\<close>: \<open>OnAdd\<close>, \<open>OnUpdate\<close> and \<open>OnDelete\<close> of the event source ask the predicates in turn
  and call the handler when all let the event pass.
\<close>

record watch =
  predicates :: "(watch_event \<Rightarrow> bool) list"
  event_handler :: "watch_event \<Rightarrow> Request list"

definition deliver :: "watch \<Rightarrow> watch_event \<Rightarrow> Request list" where
  "deliver w e = (if list_all (\<lambda>p. p e) (predicates w) then event_handler w e else [])"

definition config_watch :: watch where
  "config_watch = \<lparr>predicates = [GenerationChanged], event_handler = EnqueueRequestForObject\<rparr>"

definition deployment_watch :: "string \<times> string \<Rightarrow> (string \<Rightarrow> go_error + bool) \<Rightarrow> watch" where
  "deployment_watch gk scope = \<lparr>predicates = [],
     event_handler = EnqueueRequestForOwner \<lparr>IsController = True, groupKind = gk, root_scope = scope\<rparr>\<rparr>"

definition namespace_watch :: watch where
  "namespace_watch = \<lparr>predicates = [GenerationChanged], event_handler = EnqueueRequestForObject\<rparr>"

text \<open>What the informers of the config controller report: events of Configs and of Deployments.\<close>

datatype config_event = ConfigEvent watch_event | DeploymentEvent watch_event

fun config_requests :: "(string \<Rightarrow> go_error + bool) \<Rightarrow> config_event \<Rightarrow> Request list" where
  "config_requests scope (ConfigEvent e) = deliver config_watch e"
| "config_requests scope (DeploymentEvent e) =
     deliver (deployment_watch (fst SchemeGroupVersion, ''Config'') scope) e"

section \<open>The owner of an object\<close>

text \<open>\<open>extractOwnerReference\<close> and \<open>GetOwnerReferences\<close> of an unstructured object.\<close>

definition NestedBool :: "obj \<Rightarrow> string list \<Rightarrow> bool option res" where
  "NestedBool obj path = res_bind (NestedFieldNoCopy obj path) (\<lambda>found. case found of
     None \<Rightarrow> Ok None
   | Some (JBool b) \<Rightarrow> Ok (Some b)
   | Some v \<Rightarrow> Err (accessor_error path ''bool''))"

definition extractOwnerReference :: "obj \<Rightarrow> OwnerReference" where
  "extractOwnerReference v = \<lparr>ref_APIVersion = getNestedString v [''apiVersion''],
     ref_Kind = getNestedString v [''kind''], ref_Name = getNestedString v [''name''],
     ref_UID = getNestedString v [''uid''],
     ref_Controller = (case NestedBool v [''controller''] of Ok (Some b) \<Rightarrow> Some b | _ \<Rightarrow> None)\<rparr>"

fun extract_owners :: "json list \<Rightarrow> OwnerReference list option" where
  "extract_owners [] = Some []"
| "extract_owners (v # vs) = (case v of
     JObj o' \<Rightarrow> map_option (\<lambda>refs. extractOwnerReference o' # refs) (extract_owners vs)
   | _ \<Rightarrow> None)"

definition GetOwnerReferences :: "obj \<Rightarrow> OwnerReference list" where
  "GetOwnerReferences u = (case NestedFieldNoCopy u [''metadata'', ''ownerReferences''] of
     Ok (Some (JList original)) \<Rightarrow> (case extract_owners original of Some refs \<Rightarrow> refs | None \<Rightarrow> [])
   | _ \<Rightarrow> [])"

section \<open>Facts\<close>

lemma deliver_config [simp]:
  "deliver config_watch (Created m) = [request_for m]" "deliver config_watch (Deleted m) = [request_for m]"
  by (simp_all add: deliver_def config_watch_def)

lemma config_type_kind:
  "res_map fst (ObjectKinds s t) = Ok [(grp, version, kind)] \<Longrightarrow>
   parseOwnerTypeGroupKind s t = Ok (grp, kind)"
  by (auto simp: parseOwnerTypeGroupKind_def res_map_eq_Ok)

text \<open>The reference \<open>InjectOwner\<close> writes, read back.\<close>

lemma extract_controller_ref:
  "extract_owners [NewControllerRef ow] = Some [\<lparr>ref_APIVersion = owner_apiVersion ow, ref_Kind = owner_kind ow,
     ref_Name = owner_name ow, ref_UID = owner_uid ow, ref_Controller = Some True\<rparr>]"
  by (simp add: NewControllerRef_def extractOwnerReference_def getNestedString_def NestedString_def
      NestedBool_def NestedFieldNoCopy_def)

lemma ParseGroupVersion_api: "ParseGroupVersion ''operator.tekton.dev/v1alpha1'' = Inr SchemeGroupVersion"
  by code_simp

lemma owner_request:
  assumes "m_OwnerReferences m = [\<lparr>ref_APIVersion = ''operator.tekton.dev/v1alpha1'', ref_Kind = ''Config'',
      ref_Name = name, ref_UID = uid, ref_Controller = Some True\<rparr>]"
    and "scope ''v1alpha1'' = Inr True"
  shows "getOwnerReconcileRequest \<lparr>IsController = True, groupKind = (fst SchemeGroupVersion, ''Config''),
      root_scope = scope\<rparr> m = [\<lparr>req_Namespace = [], req_Name = name\<rparr>]"
  using assms
  by (simp add: getOwnerReconcileRequest_def getOwnersReferences_def GetControllerOf_def
      ParseGroupVersion_api SchemeGroupVersion_def)

end
