(* ===== verification/Images.thy ===== *)
theory Images imports Unstructured Flags begin

text \<open>
  Image overrides: \<open>imagesFromEnv\<close> of the config controller, and from \<open>pkg/utils/transform\<close> the key
  normalisation (\<open>formKey\<close>, \<open>ToLowerCaseKeys\<close>), \<open>splitsByEqual\<close> and the four functions that replace
  images in the containers of a deployment and in the steps and parameters of a task.

  The loop over the arguments of a container writes into the slice it ranges over, so a later
  iteration reads what an earlier one wrote: \<open>args_loop\<close> keeps the index and the slice, and
  \<open>override_args\<close> is its specification by recursion on the list.
\<close>

definition PipelinesImagePrefix :: string where
  "PipelinesImagePrefix = ''IMAGE_PIPELINES_''"

definition TriggersImagePrefix :: string where
  "TriggersImagePrefix = ''IMAGE_TRIGGERS_''"

definition AddonsImagePrefix :: string where
  "AddonsImagePrefix = ''IMAGE_ADDONS_''"

definition ArgPrefix :: string where
  "ArgPrefix = ''arg_''"

definition ParamPrefix :: string where
  "ParamPrefix = ''param_''"

type_synonym images = "(string, string) gomap"

section \<open>Overrides from the environment\<close>

definition imagesFromEnv_step :: "string \<Rightarrow> string \<Rightarrow> images \<Rightarrow> images res" where
  "imagesFromEnv_step pre env images =
     (if \<not> HasPrefix env pre then Ok images
      else let keyValue = Split env (CHR ''='');
               name = TrimPrefix (keyValue ! 0) pre
           in if length keyValue < 2 then Panic ''index out of range''
              else Ok (AList.update name (keyValue ! 1) images))"

definition imagesFromEnv :: "string list \<Rightarrow> string \<Rightarrow> images res" where
  "imagesFromEnv environ pre = res_fold (imagesFromEnv_step pre) environ []"

definition ToLowerCaseKeys :: "images \<Rightarrow> images" where
  "ToLowerCaseKeys keyValues =
     fold (\<lambda>(k, v) newMap. AList.update (ToLower k) v newMap) keyValues []"

definition formKey :: "string \<Rightarrow> string \<Rightarrow> string" where
  "formKey pre arg =
     (let argument = ToLower arg;
          argument = (if pre \<noteq> [] then pre @ argument else argument)
      in ReplaceAll argument (CHR ''-'') (CHR ''_''))"

definition splitsByEqual :: "string \<Rightarrow> string list \<times> bool" where
  "splitsByEqual arg =
     (let values = Split arg (CHR ''='')
      in if length values = 2 then (values, True) else (values, False))"

section \<open>Containers\<close>

text \<open>A \<open>corev1.Container\<close>: the fields the operator reads or writes, and the rest.\<close>

record container =
  c_name :: string
  c_image :: string
  c_args :: "string list"
  c_rest :: obj

text \<open>
  The loop of \<open>replaceContainersArgsImage\<close>: \<open>n\<close> iterations are left, the next one is at index \<open>a\<close>;
  \<open>n + a\<close> is the length of \<open>args\<close> throughout.
\<close>

fun args_loop :: "images \<Rightarrow> nat \<Rightarrow> nat \<Rightarrow> string list \<Rightarrow> string list res" where
  "args_loop images 0 a args = Ok args"
| "args_loop images (Suc n) a args =
     (let arg = args ! a in
      case splitsByEqual arg of
        (argVal, True) \<Rightarrow>
          (case map_of images (formKey ArgPrefix (argVal ! 0)) of
             Some url \<Rightarrow> args_loop images n (Suc a) (args[a := argVal ! 0 @ ''='' @ url])
           | None \<Rightarrow> args_loop images n (Suc a) args)
      | (argVal, False) \<Rightarrow>
          (case map_of images (formKey ArgPrefix arg) of
             Some url \<Rightarrow>
               if Suc a < length args then args_loop images n (Suc a) (args[Suc a := url])
               else Panic ''index out of range''
           | None \<Rightarrow> args_loop images n (Suc a) args))"

definition replaceContainersArgsImage :: "images \<Rightarrow> container \<Rightarrow> container res" where
  "replaceContainersArgsImage images c =
     res_map (\<lambda>args. c\<lparr>c_args := args\<rparr>) (args_loop images (length (c_args c)) 0 (c_args c))"

definition replaceContainerImage :: "images \<Rightarrow> container \<Rightarrow> container res" where
  "replaceContainerImage images c =
     (let name = formKey [] (c_name c);
          c = (case map_of images name of Some url \<Rightarrow> c\<lparr>c_image := url\<rparr> | None \<Rightarrow> c)
      in replaceContainersArgsImage images c)"

definition replaceContainerImages :: "container list \<Rightarrow> images \<Rightarrow> container list res" where
  "replaceContainerImages containers images = res_mapM (replaceContainerImage images) containers"

section \<open>Steps and parameters of a task\<close>

text \<open>The two loops differ in the prefix of the key and in the field they write.\<close>

definition override_entry :: "string \<Rightarrow> string \<Rightarrow> images \<Rightarrow> json \<Rightarrow> json res" where
  "override_entry pre target override s = (case s of
     JObj step \<Rightarrow> Ok (case map_of step ''name'' of
         Some (JStr name) \<Rightarrow>
           (case map_of override (formKey pre name) of
              Some img \<Rightarrow> if img = [] then JObj step
                            else JObj (AList.update target (JStr img) step)
            | None \<Rightarrow> JObj step)
       | _ \<Rightarrow> JObj step)
   | _ \<Rightarrow> Panic ''interface conversion: not a map[string]interface{}'')"

definition replaceStepsImages :: "json list \<Rightarrow> images \<Rightarrow> json list res" where
  "replaceStepsImages steps override = res_mapM (override_entry [] ''image'' override) steps"

definition replaceParamsImage :: "json list \<Rightarrow> images \<Rightarrow> json list res" where
  "replaceParamsImage params override = res_mapM (override_entry ParamPrefix ''default'' override) params"

section \<open>Key normalisation\<close>

lemma formKey_no_dash: "CHR ''-'' \<notin> set (formKey pre arg)"
  by (simp add: formKey_def Let_def ReplaceAll_removes)

lemma formKey_lower: "ToLower pre = pre \<Longrightarrow> ToLower (formKey pre arg) = formKey pre arg"
  by (simp add: formKey_def Let_def ToLower_ReplaceAll_dash)

lemma formKey_idem: "formKey [] (formKey [] arg) = formKey [] arg"
  by (simp add: formKey_def ToLower_ReplaceAll_dash ReplaceAll_idem)

lemma formKey_split: "formKey pre arg = formKey [] pre @ formKey [] arg \<or> ToLower pre \<noteq> pre"
  by (auto simp: formKey_def Let_def ReplaceAll_append ReplaceAll_def)

text \<open>Two names that differ only in case or in \<open>-\<close> against \<open>_\<close> have the same key.\<close>

lemma formKey_cong:
  "ReplaceAll (ToLower a) (CHR ''-'') (CHR ''_'') = ReplaceAll (ToLower b) (CHR ''-'') (CHR ''_'') \<Longrightarrow>
   formKey pre a = formKey pre b"
  by (simp add: formKey_def Let_def ReplaceAll_append)

section \<open>The environment\<close>

lemma imagesFromEnv_step_entry:
  assumes "CHR ''='' \<notin> set pre" and "CHR ''='' \<notin> set name"
  shows "imagesFromEnv_step pre (pre @ name @ ''='' @ val) images =
    Ok (AList.update name (hd (Split val (CHR ''=''))) images)"
proof -
  have "Split (pre @ name @ ''='' @ val) (CHR ''='') = (pre @ name) # Split val (CHR ''='')"
    using assms Split_append_sep [of "CHR ''=''" "pre @ name" val] by simp
  moreover have "Split val (CHR ''='') \<noteq> []" by simp
  then obtain w ws where "Split val (CHR ''='') = w # ws" by (cases "Split val (CHR ''='')") auto
  ultimately show ?thesis by (simp add: imagesFromEnv_step_def Let_def)
qed

lemma imagesFromEnv_step_other:
  "\<not> HasPrefix env pre \<Longrightarrow> imagesFromEnv_step pre env images = Ok images"
  by (simp add: imagesFromEnv_step_def)

lemma imagesFromEnv_step_panic:
  "is_panic (imagesFromEnv_step pre env images) \<longleftrightarrow> HasPrefix env pre \<and> CHR ''='' \<notin> set env"
  by (auto simp: imagesFromEnv_step_def Let_def length_Split count_list_0_iff)

lemma imagesFromEnv_step_no_error: "imagesFromEnv_step pre env images \<noteq> Err e"
  by (simp add: imagesFromEnv_step_def Let_def)

lemma imagesFromEnv_no_error: "imagesFromEnv environ pre \<noteq> Err e"
proof -
  have "res_fold (imagesFromEnv_step pre) environ images \<noteq> Err e" for images
  proof (induction environ arbitrary: images)
    case (Cons env environ)
    then show ?case
      using imagesFromEnv_step_no_error
      by (cases "imagesFromEnv_step pre env images") auto
  qed simp
  then show ?thesis by (simp add: imagesFromEnv_def)
qed

lemma imagesFromEnv_fold_panic:
  "is_panic (res_fold (imagesFromEnv_step pre) environ images) \<longleftrightarrow>
     (\<exists>env \<in> set environ. HasPrefix env pre \<and> CHR ''='' \<notin> set env)"
proof (induction environ arbitrary: images)
  case (Cons env environ)
  show ?case
  proof (cases "imagesFromEnv_step pre env images")
    case (Ok images')
    with imagesFromEnv_step_panic [of pre env images] Cons show ?thesis by auto
  next
    case (Panic p)
    with imagesFromEnv_step_panic [of pre env images] show ?thesis by simp
  qed (simp add: imagesFromEnv_step_no_error)
qed simp

lemma imagesFromEnv_append:
  "imagesFromEnv (environ @ environ') pre =
     res_bind (imagesFromEnv environ pre) (res_fold (imagesFromEnv_step pre) environ')"
  by (simp add: imagesFromEnv_def res_fold_append)

section \<open>Lower case keys\<close>

lemma map_of_lower_fold:
  "map_of (fold (\<lambda>(k, v) newMap. AList.update (ToLower k) v newMap) kvs acc) k =
     (case map_of (rev (List.map (\<lambda>(k, v). (ToLower k, v)) kvs)) k of
        Some v \<Rightarrow> Some v | None \<Rightarrow> map_of acc k)"
  by (induction kvs arbitrary: acc) (auto simp: map_add_def split: option.splits)

lemma map_of_ToLowerCaseKeys:
  "map_of (ToLowerCaseKeys kvs) k = map_of (rev (List.map (\<lambda>(k, v). (ToLower k, v)) kvs)) k"
  by (simp add: ToLowerCaseKeys_def map_of_lower_fold split: option.split)

lemma ToLowerCaseKeys_unique:
  assumes "distinct (List.map (\<lambda>kv. ToLower (fst kv)) kvs)" and "(k, v) \<in> set kvs"
  shows "map_of (ToLowerCaseKeys kvs) (ToLower k) = Some v"
proof -
  let ?kvs = "rev (List.map (\<lambda>(k, v). (ToLower k, v)) kvs)"
  from assms(1) have "distinct (List.map fst ?kvs)"
    by (simp add: rev_map [symmetric] o_def case_prod_beta)
  moreover from assms(2) have "(ToLower k, v) \<in> set ?kvs" by force
  ultimately show ?thesis by (simp add: map_of_ToLowerCaseKeys)
qed

lemma ToLowerCaseKeys_domain:
  "map_of (ToLowerCaseKeys kvs) k \<noteq> None \<longleftrightarrow> (\<exists>k'. k' \<in> fst ` set kvs \<and> ToLower k' = k)"
proof -
  have "map_of (ToLowerCaseKeys kvs) k \<noteq> None \<longleftrightarrow> k \<in> (\<lambda>kv. ToLower (fst kv)) ` set kvs"
    by (simp add: map_of_ToLowerCaseKeys map_of_eq_None_iff image_image case_prod_beta)
  then show ?thesis by auto
qed

section \<open>Arguments of a container\<close>

text \<open>The specification of the loop, by recursion on the arguments.\<close>

function override_args :: "images \<Rightarrow> string list \<Rightarrow> string list res" where
  "override_args images [] = Ok []"
| "override_args images (arg # rest) =
     (case splitsByEqual arg of
        (argVal, True) \<Rightarrow>
          res_map (\<lambda>r. (case map_of images (formKey ArgPrefix (argVal ! 0)) of
              Some url \<Rightarrow> argVal ! 0 @ ''='' @ url | None \<Rightarrow> arg) # r) (override_args images rest)
      | (argVal, False) \<Rightarrow>
          (case map_of images (formKey ArgPrefix arg) of
             None \<Rightarrow> res_map (\<lambda>r. arg # r) (override_args images rest)
           | Some url \<Rightarrow> (case rest of
               [] \<Rightarrow> Panic ''index out of range''
             | old # rest' \<Rightarrow> res_map (\<lambda>r. arg # r) (override_args images (url # rest')))))"
  by pat_completeness auto
termination
  by (relation "measure (\<lambda>(images, args). length args)") auto

lemma args_loop_prefix:
  "length args = n \<Longrightarrow>
   args_loop images n (length done) (done @ args) = res_map (\<lambda>r. done @ r) (override_args images args)"
proof (induction n arbitrary: "done" args)
  case (Suc n)
  then obtain arg rest where args: "args = arg # rest" and n: "length rest = n"
    by (cases args) auto
  have step: "args_loop images n (Suc (length done)) (done @ x # rest') =
      res_map (\<lambda>r. done @ x # r) (override_args images rest')" if "length rest' = n" for x rest'
    using Suc.IH [OF that, of "done @ [x]"] by simp
  obtain argVal b where sp: "splitsByEqual arg = (argVal, b)" by (cases "splitsByEqual arg")
  have comp: "res_map f (res_map g r) = res_map (\<lambda>x. f (g x)) r" for f :: "string list \<Rightarrow> string list" and g r
    by (cases r) auto
  show ?case
  proof (cases b)
    case True
    then show ?thesis
      using sp args step [OF n] by (auto simp: Let_def comp split: option.split)
  next
    case False
    show ?thesis
    proof (cases "map_of images (formKey ArgPrefix arg)")
      case None
      then show ?thesis using False sp args step [OF n] by (simp add: Let_def comp)
    next
      case (Some url)
      show ?thesis
      proof (cases rest)
        case Nil
        then show ?thesis using Some False sp args by (simp add: Let_def)
      next
        case (Cons old rest')
        with n have "length (url # rest') = n" by simp
        from step [OF this, of arg] Cons Some False sp args show ?thesis
          by (simp add: Let_def comp nth_append list_update_append)
      qed
    qed
  qed
qed simp

lemma args_loop_override: "args_loop images (length args) 0 args = override_args images args"
proof -
  have "res_map (\<lambda>r. r) r = r" for r :: "string list res" by (cases r) auto
  with args_loop_prefix [of args "length args" images "[]"] show ?thesis by simp
qed

declare override_args.simps(2) [simp del]

lemma override_args_Cons:
  obtains (equals) argVal x where "splitsByEqual arg = (argVal, True)"
      and "x = (case map_of images (formKey ArgPrefix (argVal ! 0)) of
                  Some url \<Rightarrow> argVal ! 0 @ ''='' @ url | None \<Rightarrow> arg)"
      and "override_args images (arg # rest) = res_map ((#) x) (override_args images rest)"
  | (plain) argVal where "splitsByEqual arg = (argVal, False)"
      and "map_of images (formKey ArgPrefix arg) = None"
      and "override_args images (arg # rest) = res_map ((#) arg) (override_args images rest)"
  | (last) argVal url where "splitsByEqual arg = (argVal, False)"
      and "map_of images (formKey ArgPrefix arg) = Some url" and "rest = []"
      and "override_args images (arg # rest) = Panic ''index out of range''"
  | (follow) argVal url old rest' where "splitsByEqual arg = (argVal, False)"
      and "map_of images (formKey ArgPrefix arg) = Some url" and "rest = old # rest'"
      and "override_args images (arg # rest) = res_map ((#) arg) (override_args images (url # rest'))"
proof -
  obtain argVal b where sp: "splitsByEqual arg = (argVal, b)" by (cases "splitsByEqual arg")
  show thesis
  proof (cases b)
    case True
    with sp show ?thesis
      by (intro equals [OF _ HOL.refl]) (auto simp: override_args.simps(2) [of images arg rest])
  next
    case False
    show ?thesis
    proof (cases "map_of images (formKey ArgPrefix arg)")
      case None
      with sp False show ?thesis
        by (intro plain) (auto simp: override_args.simps(2) [of images arg rest])
    next
      case (Some url)
      show ?thesis
      proof (cases rest)
        case Nil
        with sp False Some show ?thesis
          by (intro last) (auto simp: override_args.simps(2) [of images arg "[]"])
      next
        case (Cons old rest')
        with sp False Some show ?thesis
          by (intro follow) (auto simp: override_args.simps(2) [of images arg "old # rest'"])
      qed
    qed
  qed
qed

text \<open>Induction over the calls of \<open>override_args\<close>.\<close>

lemma override_args_induct [case_names Nil equals plain last follow]:
  assumes "P []"
    and "\<And>arg rest argVal x. splitsByEqual arg = (argVal, True) \<Longrightarrow>
      x = (case map_of images (formKey ArgPrefix (argVal ! 0)) of
             Some url \<Rightarrow> argVal ! 0 @ ''='' @ url | None \<Rightarrow> arg) \<Longrightarrow>
      override_args images (arg # rest) = res_map ((#) x) (override_args images rest) \<Longrightarrow>
      P rest \<Longrightarrow> P (arg # rest)"
    and "\<And>arg rest argVal. splitsByEqual arg = (argVal, False) \<Longrightarrow>
      map_of images (formKey ArgPrefix arg) = None \<Longrightarrow>
      override_args images (arg # rest) = res_map ((#) arg) (override_args images rest) \<Longrightarrow>
      P rest \<Longrightarrow> P (arg # rest)"
    and "\<And>arg argVal url. splitsByEqual arg = (argVal, False) \<Longrightarrow>
      map_of images (formKey ArgPrefix arg) = Some url \<Longrightarrow>
      override_args images [arg] = Panic ''index out of range'' \<Longrightarrow> P [arg]"
    and "\<And>arg argVal url old rest. splitsByEqual arg = (argVal, False) \<Longrightarrow>
      map_of images (formKey ArgPrefix arg) = Some url \<Longrightarrow>
      override_args images (arg # old # rest) = res_map ((#) arg) (override_args images (url # rest)) \<Longrightarrow>
      P (url # rest) \<Longrightarrow> P (arg # old # rest)"
  shows "P args"
proof (induction args rule: length_induct)
  case (1 args)
  show ?case
  proof (cases args)
    case Nil
    with assms(1) show ?thesis by simp
  next
    case (Cons arg rest)
    then have IH: "P rest" "\<And>url old rest'. rest = old # rest' \<Longrightarrow> P (url # rest')"
      using 1 by auto
    show ?thesis unfolding Cons
      by (cases arg images rest rule: override_args_Cons) (use assms IH in auto)
  qed
qed

lemma override_args_length: "override_args images args = Ok r \<Longrightarrow> length r = length args"
  by (induction args arbitrary: r rule: override_args_induct [of _ images])
    (auto simp: res_map_eq_Ok Ok_eq_res_map)

lemma override_args_no_error: "override_args images args \<noteq> Err e"
  by (induction args rule: override_args_induct [of _ images]) (auto simp: res_map_eq_Err)

end
