(* ===== verification/Transform.thy ===== *)
theory Transform imports Manifestival Images begin

text \<open>
  The transformers of \<open>pkg/utils/transform/transform.go\<close>.  \<open>runtime.DefaultUnstructuredConverter\<close>
  converts between objects and the typed structs \<open>corev1.ConfigMap\<close> and \<open>appsv1.Deployment\<close> by
  reflection; it is an argument (the record \<open>converter\<close>), and of a typed struct the model names the
  fields the operator reads or writes.
\<close>

section \<open>The converter\<close>

text \<open>A nil \<open>Data\<close> map is \<open>None\<close>.\<close>

record configmap =
  cm_data :: "(string, string) gomap option"
  cm_rest :: obj

record deployment =
  d_containers :: "container list"
  d_rest :: obj

record converter =
  cm_from :: "obj \<Rightarrow> go_error + configmap"
  cm_to :: "configmap \<Rightarrow> go_error + obj"
  dep_from :: "obj \<Rightarrow> go_error + deployment"
  dep_to :: "deployment \<Rightarrow> go_error + obj"

section \<open>Config maps\<close>

text \<open>
  \<open>InjectDefaultSA\<close> and \<open>SetDisableAffinityAssistant\<close> have the same body up to the name of the config
  map, the key and the value.
\<close>

definition set_configmap_entry :: "converter \<Rightarrow> string \<Rightarrow> string \<Rightarrow> string \<Rightarrow> transformer" where
  "set_configmap_entry conv name key val u =
     (if ToLower (GetKind u) \<noteq> ''configmap'' then Ok u
      else if GetName u \<noteq> name then Ok u
      else res_bind (of_sum (cm_from conv u)) (\<lambda>cm.
        case cm_data cm of
          None \<Rightarrow> Panic ''assignment to entry in nil map''
        | Some d \<Rightarrow> of_sum (cm_to conv (cm\<lparr>cm_data := Some (AList.update key val d)\<rparr>))))"

definition InjectDefaultSA :: "converter \<Rightarrow> string \<Rightarrow> transformer" where
  "InjectDefaultSA conv defaultSA =
     set_configmap_entry conv ''config-defaults'' ''default-service-account'' defaultSA"

definition SetDisableAffinityAssistant :: "converter \<Rightarrow> string \<Rightarrow> transformer" where
  "SetDisableAffinityAssistant conv disableAffinityAssistant =
     set_configmap_entry conv ''feature-flags'' ''disable-affinity-assistant'' disableAffinityAssistant"

section \<open>Namespaces\<close>

definition InjectNamespaceConditional :: "string list \<Rightarrow> string \<Rightarrow> string \<Rightarrow> transformer" where
  "InjectNamespaceConditional environ preserveNamespace targetNamespace u =
     (if lookup_nil (GetAnnotations u) preserveNamespace = Some ''true'' then Ok u
      else mf_InjectNamespace environ targetNamespace u)"

definition InjectNamespaceRoleBindingSubjects :: "string \<Rightarrow> transformer" where
  "InjectNamespaceRoleBindingSubjects targetNamespace u =
     (if ToLower (GetKind u) \<noteq> ''rolebinding'' then Ok u
      else res_bind (NestedFieldNoCopy u [''subjects'']) (\<lambda>found. case found of
        None \<Rightarrow> Ok u
      | Some subjects \<Rightarrow>
          res_map (\<lambda>v. update_at u [''subjects''] (\<lambda>old. v)) (retarget_list targetNamespace subjects)))"

definition InjectNamespaceRoleBindingConditional :: "string \<Rightarrow> string \<Rightarrow> string \<Rightarrow> transformer" where
  "InjectNamespaceRoleBindingConditional preserveNS preserveRBSubjectNS targetNamespace u =
     (let annotations = GetAnnotations u;
          u = (if lookup_nil annotations preserveNS = Some ''true'' then u
               else SetNamespace targetNamespace u)
      in if lookup_nil annotations preserveRBSubjectNS = Some ''true'' then Ok u
         else InjectNamespaceRoleBindingSubjects targetNamespace u)"

definition InjectNamespaceCRDWebhookClientConfig :: "string \<Rightarrow> transformer" where
  "InjectNamespaceCRDWebhookClientConfig targetNamespace u =
     (if ToLower (GetKind u) \<noteq> ''customresourcedefinition'' then Ok u
      else updateService targetNamespace
             [''spec'', ''conversion'', ''webhookClientConfig'', ''service''] u)"

section \<open>Kinds and labels\<close>

definition ReplaceKind :: "string \<Rightarrow> string \<Rightarrow> transformer" where
  "ReplaceKind fromKind toKind u =
     (if GetKind u \<noteq> fromKind then Ok u
      else case SetNestedField u (JStr toKind) [''kind''] of
        Err e \<Rightarrow> Err (PlainError (''failed to change resource Name:'' @ GetName u @ '', KIND from ''
                  @ fromKind @ '' to '' @ toKind @ '', '' @ Error_string e))
      | r \<Rightarrow> r)"

datatype OverwritePolicy = Retain | Overwrite

definition ItemInSlice :: "string \<Rightarrow> string list \<Rightarrow> bool" where
  "ItemInSlice item items = list_ex (\<lambda>v. v = item) items"

definition InjectLabel :: "string \<Rightarrow> string \<Rightarrow> OverwritePolicy \<Rightarrow> string list \<Rightarrow> transformer" where
  "InjectLabel key val overwritePolicy kinds u =
     (let kind = GetKind u
      in if kinds \<noteq> [] \<and> \<not> ItemInSlice kind kinds then Ok u
         else case NestedStringMap u [''metadata'', ''labels''] of
           Err e \<Rightarrow> Err (PlainError (''could not find labels set, '' @ quoted (Error_string e)))
         | Panic p \<Rightarrow> Panic p
         | Ok found \<Rightarrow>
             if overwritePolicy = Retain \<and> lookup_nil found key \<noteq> None then Ok u
             else let labels = AList.update key val (case found of Some l \<Rightarrow> l | None \<Rightarrow> [])
                  in case SetNestedStringMap u labels [''metadata'', ''labels''] of
                       Err e \<Rightarrow> Err (PlainError (''error updating labels for '' @ kind @ '':'' @ GetName u
                                 @ '', '' @ Error_string e))
                     | r \<Rightarrow> r)"

section \<open>Images\<close>

definition DeploymentImages :: "converter \<Rightarrow> images \<Rightarrow> transformer" where
  "DeploymentImages conv images u =
     (if GetKind u \<noteq> ''Deployment'' then Ok u
      else res_bind (of_sum (dep_from conv u)) (\<lambda>d.
           res_bind (replaceContainerImages (d_containers d) images) (\<lambda>containers.
           of_sum (dep_to conv (d\<lparr>d_containers := containers\<rparr>)))))"

text \<open>When the task has no steps the parameters are not looked at.\<close>

definition TaskImages :: "images \<Rightarrow> transformer" where
  "TaskImages images u =
     (if GetKind u \<noteq> ''ClusterTask'' then Ok u
      else res_bind (NestedSlice u [''spec'', ''steps'']) (\<lambda>found. case found of
        None \<Rightarrow> Ok u
      | Some steps \<Rightarrow>
          res_bind (replaceStepsImages steps images) (\<lambda>steps'.
          res_bind (SetNestedField u (JList steps') [''spec'', ''steps'']) (\<lambda>u.
          res_bind (NestedSlice u [''spec'', ''params'']) (\<lambda>found. case found of
            None \<Rightarrow> Ok u
          | Some params \<Rightarrow>
              res_bind (replaceParamsImage params images) (\<lambda>params'.
              SetNestedField u (JList params') [''spec'', ''params'']))))))"

end
