(* ===== verification/Validate.thy ===== *)
theory Validate imports Cluster begin

text \<open>
  The checks of \<open>pkg/utils/validate/validate.go\<close>: whether a deployment is rolled out, whether a
  mutating webhook configuration exists.  \<open>CRD\<close> asks the API extensions client, an argument.
  The replica counts and generations are only compared, so they are integers.
\<close>

text \<open>\<open>client.IgnoreNotFound\<close> and its copies in the packages validate and rbac.\<close>

definition ignoreNotFound :: "go_error \<Rightarrow> go_error option" where
  "ignoreNotFound err = (if IsNotFound err then None else Some err)"

text \<open>A result \<open>(v, err)\<close> whose value counts only with a nil error.\<close>

definition return_or_fail :: "'a \<Rightarrow> go_error option \<Rightarrow> ('s, 'a) go" where
  "return_or_fail v err = (case err of None \<Rightarrow> go_return v | Some e \<Rightarrow> go_fail e)"

definition DeploymentProgressing :: string where
  "DeploymentProgressing = ''Progressing''"

definition getDeploymentCondition ::
  "DeploymentCondition list \<Rightarrow> string \<Rightarrow> DeploymentCondition option" where
  "getDeploymentCondition conditions condType = find (\<lambda>c. CondType c = condType) conditions"

text \<open>The part of \<open>Deployment\<close> after the read: pure.\<close>

definition rollout_done :: "Rollout \<Rightarrow> bool res" where
  "rollout_done deployment =
     (if Generation deployment \<le> ObservedGeneration deployment then
        (if (case getDeploymentCondition (RolloutConditions deployment) DeploymentProgressing of
               Some cond \<Rightarrow> Reason cond = ''ProgressDeadlineExceeded'' | None \<Rightarrow> False)
         then Err (PlainError (''deployment '' @ quoted (DeploymentName deployment) @ '' exceeded its progress deadline''))
         else if (case SpecReplicas deployment of
                    Some replicas \<Rightarrow> UpdatedReplicas deployment < replicas | None \<Rightarrow> False)
         then Ok False
         else if UpdatedReplicas deployment < StatusReplicas deployment then Ok False
         else if AvailableReplicas deployment < UpdatedReplicas deployment then Ok False
         else Ok True)
      else Ok False)"

definition Deployment ::
  "'w client \<Rightarrow> string \<Rightarrow> string \<Rightarrow> (('w, 'z) cluster_scheme, bool) go" where
  "Deployment C name namespace =
     go_catch (call (get_deployment C namespace name) (GetDeployment namespace name))
       (\<lambda>err. return_or_fail False (ignoreNotFound err))
       (\<lambda>deployment. go_lift (rollout_done deployment))"

definition Webhook :: "'w client \<Rightarrow> string \<Rightarrow> (('w, 'z) cluster_scheme, bool) go" where
  "Webhook C name =
     go_catch (call (get_webhook C name) (GetWebhook name))
       (\<lambda>err. return_or_fail False (ignoreNotFound err))
       (\<lambda>u. go_return True)"

text \<open>\<open>new_client\<close> and \<open>get_crd\<close> are the API extensions clientset.\<close>

definition CRD ::
  "('w \<Rightarrow> (go_error + 'c) \<times> 'w) \<Rightarrow> ('c \<Rightarrow> string \<Rightarrow> 'w \<Rightarrow> (go_error + unit) \<times> 'w) \<Rightarrow> string
   \<Rightarrow> 'w \<Rightarrow> bool res \<times> 'w" where
  "CRD new_client get_crd crdName w =
     (case new_client w of
        (Inl err, w) \<Rightarrow> (Err err, w)
      | (Inr clientset, w) \<Rightarrow> (case get_crd clientset crdName w of
            (Inl err, w) \<Rightarrow> (case ignoreNotFound err of None \<Rightarrow> Ok False | Some e \<Rightarrow> Err e, w)
          | (Inr u, w) \<Rightarrow> (Ok True, w)))"

section \<open>Facts\<close>

lemma ignoreNotFound_simps [simp]:
  "ignoreNotFound e = None \<longleftrightarrow> IsNotFound e"
  "ignoreNotFound e = Some e' \<longleftrightarrow> \<not> IsNotFound e \<and> e' = e"
  by (auto simp: ignoreNotFound_def)

lemma getDeploymentCondition_first:
  "getDeploymentCondition cs t = Some c \<Longrightarrow>
     \<exists>before after. cs = before @ c # after \<and> CondType c = t \<and> (\<forall>d \<in> set before. CondType d \<noteq> t)"
  unfolding getDeploymentCondition_def
  by (induction cs) (auto split: if_splits, metis append_Nil empty_iff list.set(1),
      metis append_Cons set_ConsD)

lemma rollout_done_True:
  "rollout_done d = Ok True \<Longrightarrow>
     Generation d \<le> ObservedGeneration d \<and>
     (\<forall>n. SpecReplicas d = Some n \<longrightarrow> n \<le> AvailableReplicas d) \<and>
     StatusReplicas d \<le> UpdatedReplicas d \<and> UpdatedReplicas d \<le> AvailableReplicas d"
  by (auto simp: rollout_done_def split: if_splits option.splits)

lemma rollout_done_not_panic: "rollout_done d \<noteq> Panic p"
  by (simp add: rollout_done_def)

lemma emits_return_or_fail: "emits P (return_or_fail v e)"
  by (cases e) (auto simp: return_or_fail_def intro: emits_intros)

lemma emits_Deployment: "(\<And>e. P (GetDeployment ns name e)) \<Longrightarrow> emits P (Deployment C name ns)"
  unfolding Deployment_def by (intro emits_intros emits_return_or_fail)

lemma emits_Webhook: "(\<And>e. P (GetWebhook name e)) \<Longrightarrow> emits P (Webhook C name)"
  unfolding Webhook_def by (intro emits_intros emits_return_or_fail)

end
