(* ===== verification/ConfigController.thy ===== *)
theory ConfigController imports Transform ManifestOps Validate begin

text \<open>
  The config controller (\<open>pkg/controller/config/config_controller.go\<close>): \<open>Reconcile\<close> and its handlers.

  The receiver \<open>r\<close> and the package variables \<open>pipelineVersion\<close> and \<open>triggersVersion\<close> are the fields
  added to the cluster state (\<open>sys\<close>).  \<open>env\<close> gathers what a handler reads and does not change: the
  flags, the process environment, the converter and the client.  A handler returns the pair of
  \<open>reconcile.Result\<close> and error.  Logging is left out.
\<close>

record 'w sys = "'w cluster" +
  r_pipeline :: manifest
  r_triggers :: manifest
  r_addons :: manifest
  r_community :: manifest
  pipelineVersion :: string
  triggersVersion :: string

record 'w env =
  E_flags :: flags
  E_platform :: platform
  E_conv :: converter
  E_client :: "'w client"

type_synonym 'w handler = "('w sys, result \<times> go_error option) go"

definition replaceTimeout :: nat where
  "replaceTimeout = 60"

definition replaceTimeoutAddons :: nat where
  "replaceTimeoutAddons = 300"

definition recreateResource :: predicate where
  "recreateResource = mf_Any [ByKind ''Deployment'', ByKind ''Service'']"

definition roleBinding :: predicate where
  "roleBinding = mf_Any [ByKind ''RoleBinding'']"

section \<open>The status of the Config\<close>

definition refreshCR :: "'w env \<Rightarrow> Config \<Rightarrow> ('w sys, Config) go" where
  "refreshCR E cfg =
     call (get_config (E_client E) (Cfg_namespace cfg) (Cfg_name cfg))
          (GetConfig (Cfg_namespace cfg) (Cfg_name cfg))"

text \<open>The value is the refreshed Config.\<close>

definition updateStatus :: "'w env \<Rightarrow> Config \<Rightarrow> ConfigCondition \<Rightarrow> ('w sys, Config) go" where
  "updateStatus E cfg c =
     (let tmp = with_condition (OperatorUUID (E_flags E)) c cfg
      in go_bind (call (update_status (E_client E) tmp) (UpdateStatus tmp)) (\<lambda>u.
         refreshCR E cfg))"

text \<open>\<open>_ = r.updateStatus(cfg, c); return res, err\<close>\<close>

definition fail_with ::
  "'w env \<Rightarrow> Config \<Rightarrow> ConfigCondition \<Rightarrow> result \<Rightarrow> go_error \<Rightarrow> 'w handler" where
  "fail_with E cfg c res err =
     go_bind (go_ignore (updateStatus E cfg c)) (\<lambda>u. go_return (res, Some err))"

text \<open>\<open>err = r.updateStatus(cfg, c); return reconcile.Result{Requeue: true}, err\<close>\<close>

definition finish_with :: "'w env \<Rightarrow> Config \<Rightarrow> ConfigCondition \<Rightarrow> 'w handler" where
  "finish_with E cfg c =
     go_catch (updateStatus E cfg c)
       (\<lambda>err. go_return (emptyResult\<lparr>Requeue := True\<rparr>, Some err))
       (\<lambda>cfg'. go_return (emptyResult\<lparr>Requeue := True\<rparr>, None))"

definition markInvalidResource :: "'w env \<Rightarrow> Config \<Rightarrow> ('w sys, unit) go" where
  "markInvalidResource E cfg =
     go_ignore (updateStatus E cfg
       ((condition InvalidResource ''unknown'')
          \<lparr>Details := ''metadata.name must be '' @ ResourceWatched (E_flags E)\<rparr>))"

section \<open>Transforming a manifest\<close>

definition rest_transformers :: "'w env \<Rightarrow> Config \<Rightarrow> transformer list" where
  "rest_transformers E cfg = [
     mf_InjectOwner (Cfg_owner cfg),
     InjectNamespaceConditional (Environ (E_platform E)) AnnotationPreserveNS (Cfg_TargetNamespace cfg),
     InjectNamespaceCRDWebhookClientConfig (Cfg_TargetNamespace cfg),
     InjectDefaultSA (E_conv E) DefaultSA,
     SetDisableAffinityAssistant (E_conv E) DefaultDisableAffinityAssistant]"

definition rb_transformers :: "Config \<Rightarrow> transformer list" where
  "rb_transformers cfg = [
     mf_InjectOwner (Cfg_owner cfg),
     InjectNamespaceRoleBindingConditional AnnotationPreserveNS AnnotationPreserveRBSubjectNS
       (Cfg_TargetNamespace cfg)]"

definition transformManifest :: "'w env \<Rightarrow> Config \<Rightarrow> manifest \<Rightarrow> transformer list \<Rightarrow> manifest res" where
  "transformManifest E cfg m addnTfrms =
     (let rbManifest = Filter [roleBinding] m;
          rest = Filter [mf_Not roleBinding] m
      in res_bind (Transform (rest_transformers E cfg @ addnTfrms) rest) (\<lambda>rest.
         res_bind (Transform (rb_transformers cfg) rbManifest) (\<lambda>rbManifest.
         Ok (Append rest [rbManifest]))))"

text \<open>The first deployment with the name must exist: its labels are read at index 0.\<close>

definition getComponentVersion :: "manifest \<Rightarrow> string \<Rightarrow> string \<Rightarrow> string res" where
  "getComponentVersion m controllerName labelName =
     (case resources (Filter [ByKind ''Deployment'', ByName controllerName] m) of
        [] \<Rightarrow> Panic ''index out of range''
      | d # ds \<Rightarrow> Ok (case lookup_nil (GetLabels d) labelName of Some v \<Rightarrow> v | None \<Rightarrow> []))"

section \<open>Delete and create\<close>

text \<open>
  \<open>deleteAndCreate\<close> and \<open>deleteAndCreateTriggers\<close> are the same function on \<open>r.pipeline\<close> and
  \<open>r.triggers\<close>.
\<close>

definition recreate :: "'w env \<Rightarrow> manifest \<Rightarrow> ('w sys, unit) go" where
  "recreate E m =
     (let C = E_client E; recreated = Filter [recreateResource] m
      in go_bind (Delete C True recreated) (\<lambda>u.
         go_bind (PollImmediate C replaceTimeout (manifest_absent C recreated)) (\<lambda>u.
         apply_copy C recreated)))"

definition deleteAndCreate :: "'w env \<Rightarrow> ('w sys, unit) go" where
  "deleteAndCreate E = go_bind (go_get r_pipeline) (recreate E)"

definition deleteAndCreateTriggers :: "'w env \<Rightarrow> ('w sys, unit) go" where
  "deleteAndCreateTriggers E = go_bind (go_get r_triggers) (recreate E)"

text \<open>
  \<open>deleteAndCreateAddons\<close> applies the manifest itself: \<open>Apply\<close> changes its resources, and the value
  is the changed manifest with the error.
\<close>

definition deleteAndCreateAddons :: "'w env \<Rightarrow> manifest \<Rightarrow> ('w sys, manifest \<times> go_error option) go" where
  "deleteAndCreateAddons E m =
     (let C = E_client E
      in go_catch (Delete C False m) (\<lambda>err. go_return (m, Some err)) (\<lambda>u.
         go_catch (PollImmediate C replaceTimeoutAddons (manifest_absent C m))
           (\<lambda>err. go_return (m, Some err)) (\<lambda>u.
         Apply C m)))"

section \<open>The handlers that apply\<close>

definition applyPipeline :: "'w env \<Rightarrow> Config \<Rightarrow> 'w handler" where
  "applyPipeline E cfg =
     (let C = E_client E;
          version = TektonVersion (E_flags E);
          failure = (\<lambda>err. (condition PipelineApplyError version)\<lparr>Details := Error_string err\<rparr>);
          finish = finish_with E cfg (condition AppliedPipeline version)
      in go_bind (go_lift (imagesFromEnv (Environ (E_platform E)) PipelinesImagePrefix)) (\<lambda>images.
         go_bind (go_get r_pipeline) (\<lambda>m.
         go_catch (go_lift (transformManifest E cfg m [DeploymentImages (E_conv E) (ToLowerCaseKeys images)]))
           (\<lambda>err. fail_with E cfg (failure err) emptyResult err) (\<lambda>newPipeline.
         go_bind (go_modify (\<lambda>s. s\<lparr>r_pipeline := newPipeline\<rparr>)) (\<lambda>u.
         go_catch (apply_copy C (Filter [mf_Not recreateResource] newPipeline))
           (\<lambda>err. fail_with E cfg (failure err) emptyResult
              (WrapError ''failed to apply non deployment and service pipeline manifest'' err)) (\<lambda>u.
         go_catch (apply_copy C (Filter [recreateResource] newPipeline))
           (\<lambda>err. if IsInvalid err then
                go_catch (deleteAndCreate E)
                  (\<lambda>err. fail_with E cfg (failure err) emptyResult
                     (WrapError ''failed to recreate pipeline deployments and services'' err))
                  (\<lambda>u. finish)
              else fail_with E cfg (failure err) emptyResult
                     (WrapError ''failed to apply pipeline deployments and service'' err))
           (\<lambda>u. finish)))))))"

definition applyTriggers :: "'w env \<Rightarrow> Config \<Rightarrow> 'w handler" where
  "applyTriggers E cfg =
     go_bind (go_get pipelineVersion) (\<lambda>pv.
     (let C = E_client E;
          version = TektonVersion (E_flags E);
          failure = (\<lambda>err. (condition TriggersError version)
                       \<lparr>Details := Error_string err, PipelineVersion := pv\<rparr>);
          finish = finish_with E cfg ((condition AppliedTriggers version)\<lparr>PipelineVersion := pv\<rparr>)
      in go_bind (go_lift (imagesFromEnv (Environ (E_platform E)) TriggersImagePrefix)) (\<lambda>triggerImages.
         go_bind (go_get r_triggers) (\<lambda>m.
         go_catch (go_lift (transformManifest E cfg m
                     [DeploymentImages (E_conv E) (ToLowerCaseKeys triggerImages)]))
           (\<lambda>err. fail_with E cfg (failure err) emptyResult err) (\<lambda>newTriggers.
         go_bind (go_modify (\<lambda>s. s\<lparr>r_triggers := newTriggers\<rparr>)) (\<lambda>u.
         go_catch (apply_copy C (Filter [mf_Not recreateResource] newTriggers))
           (\<lambda>err. fail_with E cfg (failure err) emptyResult
              (WrapError ''failed to apply non deployment and service trigger manifest'' err)) (\<lambda>u.
         go_catch (apply_copy C (Filter [recreateResource] newTriggers))
           (\<lambda>err. if IsInvalid err then
                go_catch (deleteAndCreateTriggers E)
                  (\<lambda>err. fail_with E cfg (failure err) emptyResult
                     (WrapError ''failed to recreate trigger deployments and services'' err))
                  (\<lambda>u. finish)
              else fail_with E cfg (failure err) emptyResult
                     (WrapError ''failed to apply trigger deployments and services'' err))
           (\<lambda>u. finish))))))))"

definition applyAddons :: "'w env \<Rightarrow> Config \<Rightarrow> 'w handler" where
  "applyAddons E cfg =
     go_bind (go_get pipelineVersion) (\<lambda>pv.
     go_bind (go_get triggersVersion) (\<lambda>tv.
     (let version = TektonVersion (E_flags E);
          versions = (\<lambda>c. c\<lparr>PipelineVersion := pv, TriggersVersion := tv\<rparr>);
          failure = (\<lambda>err. versions ((condition AddonsError version)\<lparr>Details := Error_string err\<rparr>))
      in go_bind (go_lift (imagesFromEnv (Environ (E_platform E)) AddonsImagePrefix)) (\<lambda>addonImages.
         go_bind (go_get r_addons) (\<lambda>m.
         go_catch (go_lift (transformManifest E cfg m
                     [InjectLabel LabelProviderType ProviderTypeRedHat Overwrite [''ClusterTask''],
                      TaskImages (ToLowerCaseKeys addonImages)]))
           (\<lambda>err. fail_with E cfg (failure err) emptyResult err) (\<lambda>newAddons.
         go_bind (go_modify (\<lambda>s. s\<lparr>r_addons := newAddons\<rparr>)) (\<lambda>u.
         go_bind (deleteAndCreateAddons E newAddons) (\<lambda>(applied, err).
         go_bind (go_modify (\<lambda>s. s\<lparr>r_addons := applied\<rparr>)) (\<lambda>u.
         case err of
           Some err \<Rightarrow> fail_with E cfg (failure err) emptyResult
                         (WrapError ''failed to apply addons yaml manifest'' err)
         | None \<Rightarrow> finish_with E cfg (versions (condition AppliedAddons version)))))))))))"

definition applyCommunityResources :: "'w env \<Rightarrow> Config \<Rightarrow> 'w handler" where
  "applyCommunityResources E cfg =
     go_bind (go_get pipelineVersion) (\<lambda>pv.
     go_bind (go_get triggersVersion) (\<lambda>tv.
     (let version = TektonVersion (E_flags E);
          versions = (\<lambda>c. c\<lparr>PipelineVersion := pv, TriggersVersion := tv\<rparr>);
          failure = (\<lambda>err. versions ((condition CommunityResourcesError version)\<lparr>Details := Error_string err\<rparr>))
      in go_bind (go_lift (imagesFromEnv (Environ (E_platform E)) AddonsImagePrefix)) (\<lambda>addonImages.
         go_bind (go_get r_community) (\<lambda>m.
         go_catch (go_lift (transformManifest E cfg m
                     [ReplaceKind ''Task'' ''ClusterTask'',
                      InjectLabel LabelProviderType ProviderTypeCommunity Overwrite [],
                      TaskImages (ToLowerCaseKeys addonImages)]))
           (\<lambda>err. fail_with E cfg (failure err) emptyResult err) (\<lambda>newCommunityResources.
         go_bind (go_modify (\<lambda>s. s\<lparr>r_community := newCommunityResources\<rparr>)) (\<lambda>u.
         go_bind (deleteAndCreateAddons E newCommunityResources) (\<lambda>(applied, err).
         go_bind (go_modify (\<lambda>s. s\<lparr>r_community := applied\<rparr>)) (\<lambda>u.
         case err of
           Some err \<Rightarrow> fail_with E cfg (failure err) emptyResult err
         | None \<Rightarrow> finish_with E cfg (versions (condition InstalledStatus version)))))))))))"

section \<open>The handlers that validate\<close>

definition validateDeployments ::
  "'w env \<Rightarrow> Config \<Rightarrow> string \<Rightarrow> string \<Rightarrow> ('w sys, bool) go" where
  "validateDeployments E cfg controllerName webhookName =
     go_bind (Deployment (E_client E) controllerName (Cfg_TargetNamespace cfg)) (\<lambda>controller.
     go_bind (Deployment (E_client E) webhookName (Cfg_TargetNamespace cfg)) (\<lambda>webhook.
     go_return (controller \<and> webhook)))"

text \<open>
  \<open>validatePipeline\<close> and \<open>validateTriggers\<close> differ in the names they look for and in the conditions they
  write; the common body takes both.
\<close>

definition later :: result where
  "later = \<lparr>Requeue = True, RequeueAfter = 15\<rparr>"

definition validate_component ::
  "'w env \<Rightarrow> Config \<Rightarrow> string \<Rightarrow> string \<Rightarrow> string \<Rightarrow> (go_error \<Rightarrow> ConfigCondition)
   \<Rightarrow> ConfigCondition \<Rightarrow> 'w handler" where
  "validate_component E cfg controllerName webhookName webhookConfiguration failure success =
     go_catch (validateDeployments E cfg controllerName webhookName)
       (\<lambda>err. fail_with E cfg (failure err) emptyResult err) (\<lambda>running.
     if \<not> running then go_return (later, None)
     else go_catch (Webhook (E_client E) webhookConfiguration)
       (\<lambda>err. fail_with E cfg (failure err) (emptyResult\<lparr>RequeueAfter := 15\<rparr>) err) (\<lambda>found.
     if \<not> found then go_return (later, None)
     else go_catch (updateStatus E cfg success)
       (\<lambda>err. go_return (emptyResult, Some err))
       (\<lambda>cfg'. go_return (later, None))))"

definition validatePipeline :: "'w env \<Rightarrow> Config \<Rightarrow> 'w handler" where
  "validatePipeline E cfg =
     go_bind (go_get pipelineVersion) (\<lambda>pv.
     (let version = TektonVersion (E_flags E)
      in validate_component E cfg PipelineControllerName PipelineWebhookName PipelineWebhookConfiguration
           (\<lambda>err. (condition PipelineValidateError version)\<lparr>Details := Error_string err\<rparr>)
           ((condition ValidatedPipeline version)\<lparr>PipelineVersion := pv\<rparr>)))"

definition validateTriggers :: "'w env \<Rightarrow> Config \<Rightarrow> 'w handler" where
  "validateTriggers E cfg =
     go_bind (go_get pipelineVersion) (\<lambda>pv.
     go_bind (go_get triggersVersion) (\<lambda>tv.
     (let version = TektonVersion (E_flags E)
      in validate_component E cfg TriggerControllerName TriggerWebhookName TriggerWebhookConfiguration
           (\<lambda>err. (condition TriggersValidateError version)
                     \<lparr>Details := Error_string err, PipelineVersion := pv\<rparr>)
           ((condition ValidatedTriggers version)\<lparr>PipelineVersion := pv, TriggersVersion := tv\<rparr>))))"

definition matchesUUID :: "flags \<Rightarrow> string \<Rightarrow> bool" where
  "matchesUUID F target = (OperatorUUID F = [] \<or> OperatorUUID F = target)"

definition uptoDate :: "flags \<Rightarrow> Config \<Rightarrow> bool" where
  "uptoDate F cfg =
     (HasInstalledVersion cfg (TektonVersion F) \<and> matchesUUID F (StatusOperatorUUID (Status cfg)))"

definition validateVersion :: "'w env \<Rightarrow> Config \<Rightarrow> 'w handler" where
  "validateVersion E cfg =
     (if \<not> uptoDate (E_flags E) cfg then applyPipeline E cfg else go_return (emptyResult, None))"

section \<open>Deletion and the dispatch\<close>

definition reconcileDeletion :: "'w env \<Rightarrow> 'w handler" where
  "reconcileDeletion E =
     (let C = E_client E; failed = (\<lambda>err. go_return (emptyResult, Some err))
      in go_bind (go_get r_pipeline) (\<lambda>m.
         go_catch (Delete C True m) failed (\<lambda>u.
         go_bind (go_get r_triggers) (\<lambda>m.
         go_catch (Delete C True m) failed (\<lambda>u.
         go_bind (go_get r_addons) (\<lambda>m.
         go_catch (Delete C True m) failed (\<lambda>u.
         go_return (emptyResult, None))))))))"

text \<open>The \<open>switch\<close> on the status.\<close>

definition dispatch :: "'w env \<Rightarrow> Config \<Rightarrow> 'w handler" where
  "dispatch E cfg = (case InstallStatus_of cfg of
       EmptyStatus \<Rightarrow> applyPipeline E cfg
     | PipelineApplyError \<Rightarrow> applyPipeline E cfg
     | AppliedPipeline \<Rightarrow> validatePipeline E cfg
     | PipelineValidateError \<Rightarrow> validatePipeline E cfg
     | ValidatedPipeline \<Rightarrow> applyTriggers E cfg
     | TriggersError \<Rightarrow> applyTriggers E cfg
     | AppliedTriggers \<Rightarrow> validateTriggers E cfg
     | TriggersValidateError \<Rightarrow> validateTriggers E cfg
     | ValidatedTriggers \<Rightarrow> applyAddons E cfg
     | AddonsError \<Rightarrow> applyAddons E cfg
     | AppliedAddons \<Rightarrow> applyCommunityResources E cfg
     | CommunityResourcesError \<Rightarrow> applyCommunityResources E cfg
     | InstalledStatus \<Rightarrow> validateVersion E cfg
     | _ \<Rightarrow> go_return (emptyResult, None))"

text \<open>The two assignments to the package variables before the \<open>switch\<close>.\<close>

definition read_versions :: "('w sys, unit) go" where
  "read_versions =
     go_bind (go_get r_pipeline) (\<lambda>m.
     go_bind (go_lift (getComponentVersion m PipelineControllerName ''pipeline.tekton.dev/release'')) (\<lambda>pv.
     go_bind (go_modify (\<lambda>s. s\<lparr>pipelineVersion := pv\<rparr>)) (\<lambda>u.
     go_bind (go_get r_triggers) (\<lambda>m.
     go_bind (go_lift (getComponentVersion m TriggerControllerName ''triggers.tekton.dev/release'')) (\<lambda>tv.
     go_modify (\<lambda>s. s\<lparr>triggersVersion := tv\<rparr>))))))"

text \<open>
  \<open>req\<close> is the name of the request; the read uses no namespace.  After a failed read \<open>cfg\<close> is the
  zero Config.
\<close>

definition Reconcile :: "'w env \<Rightarrow> string \<Rightarrow> 'w handler" where
  "Reconcile E req =
     (let get = call (get_config (E_client E) [] req) (GetConfig [] req)
      in if req \<noteq> ResourceWatched (E_flags E) then
           go_catch get
             (\<lambda>err. if IsNotFound err then go_return (emptyResult, None)
                    else go_bind (markInvalidResource E zeroConfig) (\<lambda>u. go_return (emptyResult, None)))
             (\<lambda>cfg. go_bind (markInvalidResource E cfg) (\<lambda>u. go_return (emptyResult, None)))
         else
           go_catch get
             (\<lambda>err. if IsNotFound err then reconcileDeletion E else go_return (emptyResult, Some err))
             (\<lambda>cfg. go_bind read_versions (\<lambda>u. dispatch E cfg)))"

end
