(* ===== verification/Handlers.thy ===== *)
theory Handlers imports ConfigController begin

text \<open>
  What every step of the config controller keeps.  The locale \<open>operator_steps\<close> extends \<open>client_steps\<close> to
  the contract between the client and the controller: a relation on the state that every call of the
  client, the passing of time and every assignment to the receiver respects, and that an update of
  the status respects when the status is one of the \<open>allowed\<close> ones.  Inside it every handler is shown to respect the
  relation when the conditions it writes are allowed; the statement about \<open>dispatch\<close> names them by the
  relation \<open>install_step\<close>, the state machine of the installation.
\<close>

section \<open>The state machine of the installation\<close>

text \<open>
  \<open>install_step a b\<close>: in status \<open>a\<close> the operator writes the status \<open>b\<close> next.  A stage that fails is
  tried again; an installed operator that is out of date starts again with the pipeline.
\<close>

inductive install_step :: "InstallStatus \<Rightarrow> InstallStatus \<Rightarrow> bool" where
  pipeline: "a \<in> {EmptyStatus, PipelineApplyError, InstalledStatus} \<Longrightarrow>
     b \<in> {AppliedPipeline, PipelineApplyError} \<Longrightarrow> install_step a b"
| pipeline_valid: "a \<in> {AppliedPipeline, PipelineValidateError} \<Longrightarrow>
     b \<in> {ValidatedPipeline, PipelineValidateError} \<Longrightarrow> install_step a b"
| triggers: "a \<in> {ValidatedPipeline, TriggersError} \<Longrightarrow>
     b \<in> {AppliedTriggers, TriggersError} \<Longrightarrow> install_step a b"
| triggers_valid: "a \<in> {AppliedTriggers, TriggersValidateError} \<Longrightarrow>
     b \<in> {ValidatedTriggers, TriggersValidateError} \<Longrightarrow> install_step a b"
| addons: "a \<in> {ValidatedTriggers, AddonsError} \<Longrightarrow>
     b \<in> {AppliedAddons, AddonsError} \<Longrightarrow> install_step a b"
| community: "a \<in> {AppliedAddons, CommunityResourcesError} \<Longrightarrow>
     b \<in> {InstalledStatus, CommunityResourcesError} \<Longrightarrow> install_step a b"

code_pred install_step .

inductive_cases install_step_to_installed: "install_step a InstalledStatus"
inductive_cases install_step_to_addons: "install_step a AppliedAddons"
inductive_cases install_step_to_validated_triggers: "install_step a ValidatedTriggers"
inductive_cases install_step_to_triggers: "install_step a AppliedTriggers"
inductive_cases install_step_to_validated_pipeline: "install_step a ValidatedPipeline"

section \<open>The contract of the client's calls\<close>

locale operator_steps = client_steps R "E_client E" for R :: "'w sys \<Rightarrow> 'w sys \<Rightarrow> bool" and E :: "'w env" +
  fixes allowed :: "Config \<Rightarrow> bool"
  assumes get_config_kept: "keeps (call (get_config (E_client E) ns n) (GetConfig ns n))"
    and get_deployment_kept: "keeps (call (get_deployment (E_client E) ns n) (GetDeployment ns n))"
    and get_webhook_kept: "keeps (call (get_webhook (E_client E) n) (GetWebhook n))"
    and assign_kept: "(\<And>s. world (f s) = world s \<and> trace (f s) = trace s) \<Longrightarrow> keeps (go_modify f)"
    and status_kept: "allowed tmp \<Longrightarrow> keeps (call (update_status (E_client E) tmp) (UpdateStatus tmp))"
begin

lemmas call_intros =
  object_intros get_config_kept get_deployment_kept get_webhook_kept assign_kept

lemma keeps_recreate: "keeps (recreate E m)"
  unfolding recreate_def Let_def
  by (intro call_intros keeps_Delete keeps_PollImmediate keeps_manifest_absent keeps_apply_copy)

lemma keeps_deleteAndCreate: "keeps (deleteAndCreate E)" "keeps (deleteAndCreateTriggers E)"
  unfolding deleteAndCreate_def deleteAndCreateTriggers_def by (intro call_intros keeps_recreate)+

lemma keeps_deleteAndCreateAddons: "keeps (deleteAndCreateAddons E m)"
  unfolding deleteAndCreateAddons_def Let_def
  by (intro call_intros keeps_Delete keeps_PollImmediate keeps_manifest_absent keeps_Apply)

lemma keeps_reconcileDeletion: "keeps (reconcileDeletion E)"
  unfolding reconcileDeletion_def Let_def by (intro call_intros keeps_Delete)

lemma keeps_read_versions: "keeps read_versions"
  unfolding read_versions_def by (intro call_intros) auto

text \<open>Validation.\<close>

lemma keeps_return_or_fail: "keeps (return_or_fail v e)"
  unfolding return_or_fail_def by (auto split: option.split intro: call_intros)

lemma keeps_Deployment: "keeps (Deployment (E_client E) n ns)"
  unfolding Deployment_def by (intro call_intros keeps_return_or_fail)

lemma keeps_Webhook: "keeps (Webhook (E_client E) n)"
  unfolding Webhook_def by (intro call_intros keeps_return_or_fail)

lemma keeps_validateDeployments: "keeps (validateDeployments E cfg c w)"
  unfolding validateDeployments_def by (intro call_intros keeps_Deployment)

text \<open>Status.  \<open>writes cfg codes\<close>: a condition with one of the codes may be put on the status of \<open>cfg\<close>.\<close>

definition writes :: "Config \<Rightarrow> InstallStatus set \<Rightarrow> bool" where
  "writes cfg codes \<longleftrightarrow>
     (\<forall>c. Code c \<in> codes \<longrightarrow> allowed (with_condition (OperatorUUID (E_flags E)) c cfg))"

lemma keeps_refreshCR: "keeps (refreshCR E cfg)"
  unfolding refreshCR_def by (rule get_config_kept)

lemma keeps_updateStatus: "writes cfg codes \<Longrightarrow> Code c \<in> codes \<Longrightarrow> keeps (updateStatus E cfg c)"
  unfolding updateStatus_def Let_def writes_def
  by (intro call_intros status_kept keeps_refreshCR) blast

lemma keeps_fail_with:
  "writes cfg codes \<Longrightarrow> Code c \<in> codes \<Longrightarrow> keeps (fail_with E cfg c res err)"
  unfolding fail_with_def by (intro call_intros keeps_updateStatus)

lemma keeps_finish_with: "writes cfg codes \<Longrightarrow> Code c \<in> codes \<Longrightarrow> keeps (finish_with E cfg c)"
  unfolding finish_with_def by (intro call_intros keeps_updateStatus)

lemma keeps_markInvalidResource: "writes cfg {InvalidResource} \<Longrightarrow> keeps (markInvalidResource E cfg)"
  unfolding markInvalidResource_def
  by (intro call_intros keeps_updateStatus) (auto simp: condition_def)

lemmas handler_intros = call_intros keeps_apply_copy keeps_deleteAndCreate
  keeps_deleteAndCreateAddons keeps_fail_with keeps_finish_with

lemma keeps_applyPipeline:
  "writes cfg {AppliedPipeline, PipelineApplyError} \<Longrightarrow> keeps (applyPipeline E cfg)"
  unfolding applyPipeline_def Let_def
  by (intro handler_intros) (auto simp: condition_def)

lemma keeps_applyTriggers:
  "writes cfg {AppliedTriggers, TriggersError} \<Longrightarrow> keeps (applyTriggers E cfg)"
  unfolding applyTriggers_def Let_def
  by (intro handler_intros) (auto simp: condition_def)

lemma keeps_applyAddons: "writes cfg {AppliedAddons, AddonsError} \<Longrightarrow> keeps (applyAddons E cfg)"
  unfolding applyAddons_def Let_def
  by (auto simp: condition_def intro!: handler_intros split: prod.split option.split)

lemma keeps_applyCommunityResources:
  "writes cfg {InstalledStatus, CommunityResourcesError} \<Longrightarrow> keeps (applyCommunityResources E cfg)"
  unfolding applyCommunityResources_def Let_def
  by (auto simp: condition_def intro!: handler_intros split: prod.split option.split)

lemma keeps_validate_component:
  assumes "writes cfg codes" and "\<And>e. Code (failure e) \<in> codes" and "Code success \<in> codes"
  shows "keeps (validate_component E cfg c w wc failure success)"
  unfolding validate_component_def
  using assms by (auto intro!: handler_intros keeps_validateDeployments keeps_Webhook keeps_updateStatus)

lemma keeps_validatePipeline:
  "writes cfg {ValidatedPipeline, PipelineValidateError} \<Longrightarrow> keeps (validatePipeline E cfg)"
  unfolding validatePipeline_def Let_def
  by (auto simp: condition_def intro!: call_intros keeps_validate_component)

lemma keeps_validateTriggers:
  "writes cfg {ValidatedTriggers, TriggersValidateError} \<Longrightarrow> keeps (validateTriggers E cfg)"
  unfolding validateTriggers_def Let_def
  by (auto simp: condition_def intro!: call_intros keeps_validate_component)

lemma keeps_validateVersion:
  "writes cfg {AppliedPipeline, PipelineApplyError} \<Longrightarrow> keeps (validateVersion E cfg)"
  unfolding validateVersion_def by (intro call_intros keeps_applyPipeline)

lemma keeps_dispatch:
  assumes "writes cfg (Collect (install_step (InstallStatus_of cfg)))"
  shows "keeps (dispatch E cfg)"
proof -
  have writes: "writes cfg codes" if "codes \<subseteq> Collect (install_step (InstallStatus_of cfg))" for codes
    using assms that by (auto simp: writes_def)
  show ?thesis
    unfolding dispatch_def
    by (cases "InstallStatus_of cfg")
      (auto intro!: keeps_return keeps_applyPipeline keeps_validatePipeline keeps_applyTriggers
         keeps_validateTriggers keeps_applyAddons keeps_applyCommunityResources keeps_validateVersion
         writes intro: install_step.intros)
qed

end

end
