(* ===== verification/Samples.thy ===== *)
theory Samples imports ConfigController begin

text \<open>
  A small cluster to run the operator on: one \<open>Config\<close> with optimistic concurrency, a list of objects
  found by kind, namespace and name, deployments that are rolled out as soon as they exist.  The
  properties are applied to it where they have hypotheses; it is an instance of the interface of
  \<open>Cluster\<close>, not a model of the API server.
\<close>

record store =
  st_config :: "Config option"
  st_objects :: "obj list"

definition same_object :: "obj \<Rightarrow> obj \<Rightarrow> bool" where
  "same_object u v =
     (GetKind u = GetKind v \<and> GetNamespace u = GetNamespace v \<and> GetName u = GetName v)"

definition not_found :: go_error where
  "not_found = APIError NotFound ''not found''"

definition sample_get_config :: "string \<Rightarrow> string \<Rightarrow> store \<Rightarrow> (go_error + Config) \<times> store" where
  "sample_get_config ns n st = (case st_config st of
     None \<Rightarrow> (Inl not_found, st)
   | Some cfg \<Rightarrow> (if Cfg_name cfg = n then Inr cfg else Inl not_found, st))"

definition sample_update_status :: "Config \<Rightarrow> store \<Rightarrow> (go_error + unit) \<times> store" where
  "sample_update_status tmp st = (case st_config st of
     None \<Rightarrow> (Inl not_found, st)
   | Some cfg \<Rightarrow>
       if Cfg_name tmp \<noteq> Cfg_name cfg then (Inl not_found, st)
       else if Cfg_resourceVersion tmp \<noteq> Cfg_resourceVersion cfg
         then (Inl (APIError OtherReason ''conflict''), st)
       else (Inr (), st\<lparr>st_config := Some (cfg\<lparr>Status := Status tmp,
               Cfg_resourceVersion := CHR ''1'' # Cfg_resourceVersion cfg\<rparr>)\<rparr>))"

definition sample_get :: "obj \<Rightarrow> store \<Rightarrow> (go_error + obj) \<times> store" where
  "sample_get u st = (case find (same_object u) (st_objects st) of
     None \<Rightarrow> (Inl not_found, st) | Some v \<Rightarrow> (Inr v, st))"

definition sample_create :: "obj \<Rightarrow> store \<Rightarrow> (go_error + unit) \<times> store" where
  "sample_create u st =
     (if list_ex (same_object u) (st_objects st)
      then (Inl (APIError AlreadyExists ''exists''), st)
      else (Inr (), st\<lparr>st_objects := st_objects st @ [u]\<rparr>))"

definition sample_update :: "obj \<Rightarrow> store \<Rightarrow> (go_error + unit) \<times> store" where
  "sample_update u st =
     (Inr (), st\<lparr>st_objects := List.map (\<lambda>v. if same_object u v then u else v) (st_objects st)\<rparr>)"

definition sample_delete :: "bool \<Rightarrow> obj \<Rightarrow> store \<Rightarrow> (go_error + unit) \<times> store" where
  "sample_delete foreground u st =
     (if list_ex (same_object u) (st_objects st)
      then (Inr (), st\<lparr>st_objects := filter (\<lambda>v. \<not> same_object u v) (st_objects st)\<rparr>)
      else (Inl not_found, st))"

definition rolled_out :: "string \<Rightarrow> Rollout" where
  "rolled_out name = \<lparr>DeploymentName = name, Generation = 1, SpecReplicas = Some 1,
     ObservedGeneration = 1, StatusReplicas = 1, UpdatedReplicas = 1, AvailableReplicas = 1,
     RolloutConditions = []\<rparr>"

definition sample_client :: "store client" where
  "sample_client = \<lparr>
     get_config = sample_get_config,
     update_status = sample_update_status,
     create_config = (\<lambda>cfg st. case st_config st of
        None \<Rightarrow> (Inr (), st\<lparr>st_config := Some cfg\<rparr>)
      | Some c \<Rightarrow> (Inl (APIError AlreadyExists ''exists''), st)),
     get_deployment = (\<lambda>ns n st.
        (if list_ex (\<lambda>v. GetKind v = ''Deployment'' \<and> GetNamespace v = ns \<and> GetName v = n) (st_objects st)
         then Inr (rolled_out n) else Inl not_found, st)),
     get_webhook = (\<lambda>n st. (Inr (), st)),
     get_obj = sample_get,
     create_obj = sample_create,
     update_obj = sample_update,
     delete_obj = sample_delete,
     poll_ticks = (\<lambda>n st. (n, st)),
     known_types = NewScheme,
     strategic_new = (\<lambda>t original spec live. Inr ''{}''),
     strategic_merge = (\<lambda>t diff live. Inr live),
     marshal = (\<lambda>u. ''{}''),
     unmarshal = (\<lambda>text. Inr [])\<rparr>"

text \<open>A converter that keeps the whole object beside the fields the operator writes.\<close>

definition sample_converter :: converter where
  "sample_converter = \<lparr>
     cm_from = (\<lambda>u. case NestedStringMap u [''data''] of
        Ok d \<Rightarrow> Inr \<lparr>cm_data = d, cm_rest = u\<rparr> | _ \<Rightarrow> Inl (PlainError ''no config map'')),
     cm_to = (\<lambda>cm. case cm_data cm of
        None \<Rightarrow> Inr (cm_rest cm)
      | Some d \<Rightarrow> (case SetNestedStringMap (cm_rest cm) d [''data''] of
           Ok u \<Rightarrow> Inr u | _ \<Rightarrow> Inl (PlainError ''no config map''))),
     dep_from = (\<lambda>u. Inr \<lparr>d_containers = [], d_rest = u\<rparr>),
     dep_to = (\<lambda>d. Inr (d_rest d))\<rparr>"

definition sample_env :: "store env" where
  "sample_env = \<lparr>E_flags = (flag_init (Inr ''u1''))\<lparr>TektonVersion := ''v1''\<rparr>,
     E_platform = \<lparr>Environ = [''IMAGE_PIPELINES_CONTROLLER=q'', ''HOME=h''], GOARCH = ''amd64''\<rparr>,
     E_conv = sample_converter, E_client = sample_client\<rparr>"

definition sample_object :: "string \<Rightarrow> string \<Rightarrow> obj" where
  "sample_object kind name = [(''kind'', JStr kind), (''metadata'', JObj [(''name'', JStr name)])]"

definition sample_deployment :: "string \<Rightarrow> string \<Rightarrow> obj" where
  "sample_deployment name label =
     [(''kind'', JStr ''Deployment''),
      (''metadata'', JObj [(''name'', JStr name),
        (''labels'', JObj [(label, JStr ''v9'')])])]"

definition sample_owner :: owner where
  "sample_owner = \<lparr>owner_apiVersion = ''operator.tekton.dev/v1alpha1'', owner_kind = ''Config'',
     owner_name = ClusterCRName, owner_uid = ''1''\<rparr>"

definition sample_config :: Config where
  "sample_config = \<lparr>Cfg_owner = sample_owner, Cfg_resourceVersion = ''0'', Cfg_namespace = [],
     Cfg_TargetNamespace = ''ns'', Status = \<lparr>StatusOperatorUUID = [], Conditions = []\<rparr>\<rparr>"

definition sample_manifest :: "obj list \<Rightarrow> manifest" where
  "sample_manifest us = \<lparr>resources = us, has_client = True\<rparr>"

definition sample_sys :: "Config option \<Rightarrow> store sys" where
  "sample_sys cfg = \<lparr>world = \<lparr>st_config = cfg, st_objects = []\<rparr>, trace = [],
     r_pipeline = sample_manifest [sample_object ''Namespace'' ''tekton-pipelines'',
       sample_deployment PipelineControllerName ''pipeline.tekton.dev/release'',
       sample_deployment PipelineWebhookName ''app''],
     r_triggers = sample_manifest [
       sample_deployment TriggerControllerName ''triggers.tekton.dev/release'',
       sample_deployment TriggerWebhookName ''app''],
     r_addons = sample_manifest [sample_object ''ClusterTask'' ''t''],
     r_community = emptyManifest,
     pipelineVersion = [], triggersVersion = []\<rparr>"

lemma sample_found [simp]:
  "get_config (E_client sample_env) [] (ResourceWatched (E_flags sample_env))
     (world (sample_sys (Some sample_config))) = (Inr sample_config, world (sample_sys (Some sample_config)))"
  by (simp add: sample_env_def sample_client_def flag_init_def sample_sys_def sample_get_config_def
      sample_config_def sample_owner_def)

lemma sample_names: "E_client sample_env = sample_client"
  "ResourceWatched (E_flags sample_env) = ClusterCRName" "ClusterCRName \<noteq> []"
  by (simp_all add: sample_env_def flag_init_def ClusterCRName_def)

text \<open>The same Config, installed by this operator.\<close>

definition sample_installed :: Config where
  "sample_installed = with_condition ''u1'' (condition InstalledStatus ''v1'') sample_config"

lemma sample_found_installed [simp]:
  "get_config (E_client sample_env) [] (ResourceWatched (E_flags sample_env))
     (world (sample_sys (Some sample_installed))) =
   (Inr sample_installed, world (sample_sys (Some sample_installed)))"
  by (simp add: sample_env_def sample_client_def flag_init_def sample_sys_def sample_get_config_def
      sample_installed_def sample_config_def sample_owner_def)

lemma sample_installed_up_to_date: "uptoDate (E_flags sample_env) sample_installed"
  by code_simp

end
