(* ===== verification/Reconciliation.thy ===== *)
theory Reconciliation imports Handlers Samples begin

text \<open>
  What one call of \<open>Reconcile\<close> does, for every client: how many status updates it makes, which
  condition it writes, and how the result tells the controller runtime to go on.  \<open>outcome Q m\<close> relates
  the result of a run of \<open>m\<close> to the status updates it has made; \<open>stage_outcome\<close> is the contract of a
  stage of the installation, and every handler meets it.
\<close>

section \<open>Status updates in a trace\<close>

fun status_write :: "event \<Rightarrow> (Config \<times> go_error option) list" where
  "status_write (UpdateStatus tmp e) = [(tmp, e)]"
| "status_write ev = []"

definition status_writes :: "event list \<Rightarrow> (Config \<times> go_error option) list" where
  "status_writes es = concat (List.map status_write es)"

lemma status_writes_simps [simp]:
  "status_writes [] = []"
  "status_writes (ev # es) = status_write ev @ status_writes es"
  "status_writes (es @ fs) = status_writes es @ status_writes fs"
  by (simp_all add: status_writes_def)

fun status_ok :: "(Config \<Rightarrow> bool) \<Rightarrow> event \<Rightarrow> bool" where
  "status_ok Q (UpdateStatus tmp e) = Q tmp"
| "status_ok Q ev = True"

interpretation st: operator_steps "appends (status_ok Q)" E Q for Q and E :: "'w env"
  by unfold_locales (intro emits_intros; simp)+

abbreviation quiet :: "('w sys, 'a) go \<Rightarrow> bool" where
  "quiet \<equiv> emits (status_ok (\<lambda>tmp. False))"

lemma quiet_writes: "list_all (status_ok (\<lambda>tmp. False)) es \<Longrightarrow> status_writes es = []"
proof (induction es)
  case (Cons ev es)
  then show ?case by (cases ev) auto
qed simp

lemma quietE:
  assumes "quiet m" and "m s = (r, s')"
  obtains es where "trace s' = trace s @ es" and "status_writes es = []"
  using assms by (auto elim!: emitsD dest: quiet_writes)

section \<open>Outcomes\<close>

definition outcome ::
  "('a res \<Rightarrow> (Config \<times> go_error option) list \<Rightarrow> bool) \<Rightarrow> ('w sys, 'a) go \<Rightarrow> bool" where
  "outcome Q m \<longleftrightarrow> (\<forall>s. \<exists>es. trace (snd (m s)) = trace s @ es \<and> Q (fst (m s)) (status_writes es))"

lemma outcomeD:
  assumes "outcome Q m" and "m s = (r, s')"
  obtains es where "trace s' = trace s @ es" and "Q r (status_writes es)"
  using assms by (metis fst_conv outcome_def snd_conv)

lemma outcomeI:
  "(\<And>s r s'. m s = (r, s') \<Longrightarrow> \<exists>es. trace s' = trace s @ es \<and> Q r (status_writes es)) \<Longrightarrow> outcome Q m"
  unfolding outcome_def by (metis prod.collapse)

lemma outcome_return: "Q (Ok v) [] \<Longrightarrow> outcome Q (go_return v)"
  by (simp add: outcome_def go_defs)

lemma outcome_If: "(b \<Longrightarrow> outcome Q m) \<Longrightarrow> (\<not> b \<Longrightarrow> outcome Q n) \<Longrightarrow> outcome Q (if b then m else n)"
  by simp

lemma outcome_weaken: "outcome Q m \<Longrightarrow> (\<And>r ws. Q r ws \<Longrightarrow> P r ws) \<Longrightarrow> outcome P m"
  unfolding outcome_def by blast

lemma outcome_catch:
  assumes m: "quiet m" and panic: "\<And>p. Q (Panic p) []"
    and "\<And>e. outcome Q (h e)" and "\<And>a. outcome Q (f a)"
  shows "outcome Q (go_catch m h f)"
proof (rule outcomeI)
  fix s r s'
  assume run: "go_catch m h f s = (r, s')"
  obtain q t where q: "m s = (q, t)" by (cases "m s")
  from m q obtain es where es: "trace t = trace s @ es" "status_writes es = []"
    by (rule quietE)
  have "\<exists>fs. trace s' = trace t @ fs \<and> Q r (status_writes fs)"
  proof (cases q)
    case (Ok a)
    with run q have "f a t = (r, s')" by (simp add: go_run)
    with assms(4) show ?thesis by (blast elim: outcomeD)
  next
    case (Err e)
    with run q have "h e t = (r, s')" by (simp add: go_run)
    with assms(3) show ?thesis by (blast elim: outcomeD)
  next
    case (Panic p)
    with run q panic show ?thesis by (auto simp: go_run)
  qed
  with es show "\<exists>es. trace s' = trace s @ es \<and> Q r (status_writes es)" by auto
qed

lemma outcome_bind:
  assumes "quiet m" and "returns (\<lambda>v. True) m" and "\<And>p. Q (Panic p) []" and "\<And>a. outcome Q (f a)"
  shows "outcome Q (go_bind m f)"
proof (rule outcomeI)
  fix s r s'
  assume run: "go_bind m f s = (r, s')"
  have "go_catch m (\<lambda>e. go_panic []) f s = (r, s')"
    using run returns_not_Err [OF assms(2)]
    by (auto simp: go_bind_eq_cases go_catch_eq_cases split: prod.splits res.splits)
  moreover have "outcome Q (go_catch m (\<lambda>e. go_panic []) f)"
    using assms by (intro outcome_catch) (auto simp: outcome_def go_defs)
  ultimately show "\<exists>es. trace s' = trace s @ es \<and> Q r (status_writes es)"
    by (blast elim: outcomeD)
qed

lemma outcome_updateStatus:
  "outcome (\<lambda>r ws. \<exists>e. ws = [(with_condition (OperatorUUID (E_flags E)) c cfg, e)] \<and>
      (case r of Ok cfg' \<Rightarrow> e = None | Err x \<Rightarrow> e \<noteq> None \<longrightarrow> e = Some x | Panic p \<Rightarrow> False))
     (updateStatus E cfg c)"
  by (rule outcomeI)
    (auto simp: updateStatus_def refreshCR_def go_bind_eq_cases call_def Let_def
       split: prod.splits sum.splits)

lemma outcome_fail_with:
  assumes "\<And>e. Q (Ok (res, Some err)) [(with_condition (OperatorUUID (E_flags E)) c cfg, e)]"
  shows "outcome Q (fail_with E cfg c res err)"
proof (rule outcomeI)
  fix s r s'
  assume run: "fail_with E cfg c res err s = (r, s')"
  obtain q t where q: "updateStatus E cfg c s = (q, t)" by (cases "updateStatus E cfg c s")
  with outcome_updateStatus obtain es e where es: "trace t = trace s @ es"
      "status_writes es = [(with_condition (OperatorUUID (E_flags E)) c cfg, e)]" "\<forall>p. q \<noteq> Panic p"
    by (fastforce elim: outcomeD)
  with run q have "r = Ok (res, Some err)" "s' = t"
    by (cases q; auto simp: fail_with_def go_defs)+
  with es assms show "\<exists>es. trace s' = trace s @ es \<and> Q r (status_writes es)" by auto
qed

lemma outcome_status_catch:
  assumes "\<And>e err. e \<noteq> None \<longrightarrow> e = Some err \<Longrightarrow>
      Q (Ok (h err)) [(with_condition (OperatorUUID (E_flags E)) c cfg, e)]"
    and "Q (Ok v) [(with_condition (OperatorUUID (E_flags E)) c cfg, None)]"
  shows "outcome Q (go_catch (updateStatus E cfg c) (\<lambda>err. go_return (h err)) (\<lambda>cfg'. go_return v))"
proof (rule outcomeI)
  fix s r s'
  assume run: "go_catch (updateStatus E cfg c) (\<lambda>err. go_return (h err)) (\<lambda>cfg'. go_return v) s = (r, s')"
  obtain q t where q: "updateStatus E cfg c s = (q, t)" by (cases "updateStatus E cfg c s")
  with outcome_updateStatus obtain es e where es: "trace t = trace s @ es"
      "status_writes es = [(with_condition (OperatorUUID (E_flags E)) c cfg, e)]"
      "case q of Ok cfg' \<Rightarrow> e = None | Err x \<Rightarrow> e \<noteq> None \<longrightarrow> e = Some x | Panic p \<Rightarrow> False"
    by (fastforce elim: outcomeD)
  with run q assms show "\<exists>es. trace s' = trace s @ es \<and> Q r (status_writes es)"
    by (cases q) (auto simp: go_defs)
qed

section \<open>The contract of a stage\<close>

text \<open>
  A stage ends with an error and the status \<open>bad\<close>, or with the status \<open>good\<close> and a requeue, or it only
  waits (no status update, no error, a requeue).  When the update to \<open>good\<close> itself fails, its error
  is returned.  The new condition carries the operator's version.
\<close>

fun stage_outcome ::
  "flags \<Rightarrow> Config \<Rightarrow> InstallStatus \<Rightarrow> InstallStatus \<Rightarrow> bool
   \<Rightarrow> (result \<times> go_error option) res \<Rightarrow> (Config \<times> go_error option) list \<Rightarrow> bool" where
  "stage_outcome F cfg good bad waits (Ok (res, err)) ws \<longleftrightarrow>
     (\<exists>c e. ws = [(with_condition (OperatorUUID F) c cfg, e)] \<and> CVersion c = TektonVersion F \<and>
        (Code c = bad \<and> err \<noteq> None \<or>
         Code c = good \<and> (e \<noteq> None \<longrightarrow> err = e) \<and> (err = None \<longrightarrow> Requeue res))) \<or>
     waits \<and> ws = [] \<and> err = None \<and> Requeue res"
| "stage_outcome F cfg good bad waits (Err e) ws \<longleftrightarrow> False"
| "stage_outcome F cfg good bad waits (Panic p) ws \<longleftrightarrow> ws = []"

text \<open>Programs that never end with an error of their own.\<close>

abbreviation never_fails :: "('s, 'a) go \<Rightarrow> bool" where
  "never_fails \<equiv> returns (\<lambda>v. True)"

lemma never_fails_imagesFromEnv: "never_fails (go_lift (imagesFromEnv environ pre))"
  by (rule returns_lift) (auto simp: imagesFromEnv_no_error)

lemma never_fails_get: "never_fails (go_get f)"
  and never_fails_modify: "never_fails (go_modify g)"
  by (simp_all add: returns_get returns_modify)

lemma never_fails_apply_one: "never_fails (apply_one C spec)"
  unfolding apply_one_def mf_update_def Let_def
  by (auto intro!: returns_catch returns_return split: option.split sum.split)

lemma never_fails_bind:
  "never_fails m \<Longrightarrow> (\<And>a. never_fails (f a)) \<Longrightarrow> never_fails (go_bind m f)"
  by (rule returns_bind)

lemma never_fails_Apply: "never_fails (Apply C m)"
proof -
  have "never_fails (apply_loop C specs)" for specs
    by (induction specs)
      (auto intro!: never_fails_bind never_fails_apply_one returns_return split: option.split)
  then show ?thesis
    unfolding Apply_def with_client_def
    by (auto intro!: never_fails_bind returns_return returns_panic)
qed

lemma never_fails_deleteAndCreateAddons: "never_fails (deleteAndCreateAddons E m)"
  unfolding deleteAndCreateAddons_def Let_def
  by (intro returns_catch returns_return never_fails_Apply TrueI)

lemma never_fails_read_versions: "never_fails read_versions"
  unfolding read_versions_def
  by (intro never_fails_bind never_fails_get never_fails_modify returns_lift)
    (auto simp: getComponentVersion_def split: list.splits)

lemmas outcome_intros =
  outcome_return outcome_If outcome_catch outcome_bind
  never_fails_imagesFromEnv never_fails_get never_fails_modify never_fails_deleteAndCreateAddons
  st.call_intros st.keeps_apply_copy st.keeps_deleteAndCreate st.keeps_deleteAndCreateAddons

lemma stage_finish_with:
  "CVersion c = TektonVersion (E_flags E) \<Longrightarrow> Code c = good \<Longrightarrow>
   outcome (stage_outcome (E_flags E) cfg good bad waits) (finish_with E cfg c)"
  unfolding finish_with_def by (rule outcome_status_catch) auto

lemma stage_fail_with:
  "CVersion c = TektonVersion (E_flags E) \<Longrightarrow> Code c = bad \<Longrightarrow>
   outcome (stage_outcome (E_flags E) cfg good bad waits) (fail_with E cfg c res err)"
  by (rule outcome_fail_with) auto

lemma stage_applyPipeline:
  "outcome (stage_outcome (E_flags E) cfg AppliedPipeline PipelineApplyError False) (applyPipeline E cfg)"
  unfolding applyPipeline_def Let_def
  by (intro outcome_intros stage_finish_with stage_fail_with) (auto simp: condition_def)

lemma stage_applyTriggers:
  "outcome (stage_outcome (E_flags E) cfg AppliedTriggers TriggersError False) (applyTriggers E cfg)"
  unfolding applyTriggers_def Let_def
  by (intro outcome_intros stage_finish_with stage_fail_with) (auto simp: condition_def)

lemma stage_applyAddons:
  "outcome (stage_outcome (E_flags E) cfg AppliedAddons AddonsError False) (applyAddons E cfg)"
  unfolding applyAddons_def Let_def
  by (auto simp: condition_def intro!: outcome_intros stage_finish_with stage_fail_with split: prod.split option.split)

lemma stage_applyCommunityResources:
  "outcome (stage_outcome (E_flags E) cfg InstalledStatus CommunityResourcesError False)
     (applyCommunityResources E cfg)"
  unfolding applyCommunityResources_def Let_def
  by (auto simp: condition_def intro!: outcome_intros stage_finish_with stage_fail_with split: prod.split option.split)

lemma stage_validate_component:
  assumes "\<And>e. Code (failure e) = bad \<and> CVersion (failure e) = TektonVersion (E_flags E)"
    and "Code success = good \<and> CVersion success = TektonVersion (E_flags E)"
  shows "outcome (stage_outcome (E_flags E) cfg good bad True)
           (validate_component E cfg c w wc failure success)"
  unfolding validate_component_def using assms
  by (intro outcome_intros outcome_status_catch stage_fail_with st.keeps_validateDeployments st.keeps_Webhook)
    (auto simp: later_def)

lemma stage_validatePipeline:
  "outcome (stage_outcome (E_flags E) cfg ValidatedPipeline PipelineValidateError True)
     (validatePipeline E cfg)"
  unfolding validatePipeline_def Let_def
  by (intro outcome_intros stage_validate_component) (auto simp: condition_def)

lemma stage_validateTriggers:
  "outcome (stage_outcome (E_flags E) cfg ValidatedTriggers TriggersValidateError True)
     (validateTriggers E cfg)"
  unfolding validateTriggers_def Let_def
  by (intro outcome_intros stage_validate_component) (auto simp: condition_def)

section \<open>One reconciliation\<close>

definition is_error_status :: "InstallStatus \<Rightarrow> bool" where
  "is_error_status c = (c \<in> {PipelineApplyError, PipelineValidateError, TriggersError,
     TriggersValidateError, AddonsError, CommunityResourcesError})"

text \<open>The statuses the \<open>switch\<close> has no case for.\<close>

definition unhandled_status :: "InstallStatus \<Rightarrow> bool" where
  "unhandled_status c = (case c of InvalidResource \<Rightarrow> True | OtherStatus x \<Rightarrow> True | _ \<Rightarrow> False)"

fun reconciled ::
  "flags \<Rightarrow> Config \<Rightarrow> (result \<times> go_error option) res \<Rightarrow> (Config \<times> go_error option) list \<Rightarrow> bool" where
  "reconciled F cfg (Ok (res, err)) ws \<longleftrightarrow>
     (\<exists>c e. ws = [(with_condition (OperatorUUID F) c cfg, e)] \<and> CVersion c = TektonVersion F \<and>
        install_step (InstallStatus_of cfg) (Code c) \<and>
        (is_error_status (Code c) \<and> err \<noteq> None \<or>
         \<not> is_error_status (Code c) \<and> (e \<noteq> None \<longrightarrow> err = e) \<and> (err = None \<longrightarrow> Requeue res))) \<or>
     ws = [] \<and> err = None \<and>
       (Requeue res \<or> uptoDate F cfg \<or> unhandled_status (InstallStatus_of cfg))"
| "reconciled F cfg (Err e) ws \<longleftrightarrow> False"
| "reconciled F cfg (Panic p) ws \<longleftrightarrow> ws = []"

lemma stage_reconciled:
  assumes "stage_outcome F cfg good bad waits r ws" and "install_step (InstallStatus_of cfg) good"
    and "install_step (InstallStatus_of cfg) bad" and "is_error_status bad" and "\<not> is_error_status good"
  shows "reconciled F cfg r ws"
  using assms by (cases r) auto

lemma reconciled_stage:
  assumes "outcome (stage_outcome F cfg good bad waits) m"
    and "install_step (InstallStatus_of cfg) good" and "install_step (InstallStatus_of cfg) bad"
    and "is_error_status bad" and "\<not> is_error_status good"
  shows "outcome (reconciled F cfg) m"
  using assms by (blast intro: outcome_weaken stage_reconciled)

lemmas reconciled_stages =
  stage_applyPipeline [THEN reconciled_stage] stage_validatePipeline [THEN reconciled_stage]
  stage_applyTriggers [THEN reconciled_stage] stage_validateTriggers [THEN reconciled_stage]
  stage_applyAddons [THEN reconciled_stage] stage_applyCommunityResources [THEN reconciled_stage]

lemma outcome_validateVersion:
  assumes "InstallStatus_of cfg = InstalledStatus"
  shows "outcome (reconciled (E_flags E) cfg) (validateVersion E cfg)"
  unfolding validateVersion_def
proof (rule outcome_If)
  show "outcome (reconciled (E_flags E) cfg) (applyPipeline E cfg)"
    by (rule reconciled_stages) (auto simp: assms is_error_status_def intro: install_step.intros)
  assume "\<not> \<not> uptoDate (E_flags E) cfg"
  then show "outcome (reconciled (E_flags E) cfg) (go_return (emptyResult, None))"
    by (intro outcome_return) simp
qed

lemma outcome_dispatch: "outcome (reconciled (E_flags E) cfg) (dispatch E cfg)"
proof (cases "unhandled_status (InstallStatus_of cfg)")
  case True
  then show ?thesis
    by (auto simp: dispatch_def unhandled_status_def intro!: outcome_return split: InstallStatus.splits)
next
  case False
  show ?thesis
    unfolding dispatch_def
    by (cases "InstallStatus_of cfg"; simp only: InstallStatus.case;
        (rule reconciled_stages outcome_validateVersion)?; insert False;
        simp add: is_error_status_def unhandled_status_def install_step.simps)
qed

lemma outcome_found:
  "outcome (reconciled (E_flags E) cfg) (go_bind read_versions (\<lambda>u. dispatch E cfg))"
  by (intro outcome_intros st.keeps_read_versions never_fails_read_versions outcome_dispatch) simp

text \<open>\<open>Reconcile\<close> on the watched name, by what the read returns.\<close>

lemma Reconcile_found:
  assumes "get_config (E_client E) [] (ResourceWatched (E_flags E)) (world s) = (Inr cfg, w)"
  shows "Reconcile E (ResourceWatched (E_flags E)) s =
    go_bind read_versions (\<lambda>u. dispatch E cfg)
      (s\<lparr>world := w, trace := trace s @ [GetConfig [] (ResourceWatched (E_flags E)) None]\<rparr>)"
  using assms by (simp add: Reconcile_def Let_def go_catch_eq_cases call_def)

lemma Reconcile_lost:
  assumes "get_config (E_client E) [] (ResourceWatched (E_flags E)) (world s) = (Inl e, w)"
  shows "Reconcile E (ResourceWatched (E_flags E)) s =
    (if IsNotFound e then reconcileDeletion E else go_return (emptyResult, Some e))
      (s\<lparr>world := w, trace := trace s @ [GetConfig [] (ResourceWatched (E_flags E)) (Some e)]\<rparr>)"
  using assms by (simp add: Reconcile_def Let_def go_catch_eq_cases call_def)

lemma Reconcile_found_outcome:
  assumes "get_config (E_client E) [] (ResourceWatched (E_flags E)) (world s) = (Inr cfg, w)"
    and "Reconcile E (ResourceWatched (E_flags E)) s = (r, s')"
  obtains es where "trace s' = trace s @ GetConfig [] (ResourceWatched (E_flags E)) None # es"
    and "reconciled (E_flags E) cfg r (status_writes es)"
  using outcomeD [OF outcome_found assms(2) [unfolded Reconcile_found [OF assms(1)]]]
  by auto

lemma trace_suffix_unique: "xs @ a # es = xs @ a # fs \<Longrightarrow> es = fs"
  by simp

text \<open>Both controllers' deployments are in the manifests, so their versions can be read.\<close>

definition has_controllers :: "'w sys \<Rightarrow> bool" where
  "has_controllers s \<longleftrightarrow>
     resources (Filter [ByKind ''Deployment'', ByName PipelineControllerName] (r_pipeline s)) \<noteq> [] \<and>
     resources (Filter [ByKind ''Deployment'', ByName TriggerControllerName] (r_triggers s)) \<noteq> []"

lemma getComponentVersion_cases:
  "(resources (Filter [ByKind ''Deployment'', ByName n] m) = [] \<and>
      is_panic (getComponentVersion m n l)) \<or>
   (resources (Filter [ByKind ''Deployment'', ByName n] m) \<noteq> [] \<and>
      (\<exists>v. getComponentVersion m n l = Ok v))"
  unfolding getComponentVersion_def by (cases "resources (Filter [ByKind ''Deployment'', ByName n] m)") auto

lemma read_versions_run:
  "read_versions s =
     (case getComponentVersion (r_pipeline s) PipelineControllerName ''pipeline.tekton.dev/release'' of
        Ok pv \<Rightarrow> (case getComponentVersion (r_triggers s) TriggerControllerName ''triggers.tekton.dev/release'' of
            Ok tv \<Rightarrow> (Ok (), s\<lparr>pipelineVersion := pv, triggersVersion := tv\<rparr>)
          | Err e \<Rightarrow> (Err e, s\<lparr>pipelineVersion := pv\<rparr>)
          | Panic p \<Rightarrow> (Panic p, s\<lparr>pipelineVersion := pv\<rparr>))
      | Err e \<Rightarrow> (Err e, s)
      | Panic p \<Rightarrow> (Panic p, s\<lparr>pipelineVersion := pipelineVersion s\<rparr>))"
  by (simp add: read_versions_def go_bind_eq_cases go_get_def go_lift_def go_modify_def split: res.split)

lemma read_versions_cases:
  "(has_controllers s \<and> (\<exists>pv tv. read_versions s = (Ok (), s\<lparr>pipelineVersion := pv, triggersVersion := tv\<rparr>))) \<or>
   (\<not> has_controllers s \<and> (\<exists>p pv. read_versions s = (Panic p, s\<lparr>pipelineVersion := pv\<rparr>)))"
proof -
  let ?p = "getComponentVersion (r_pipeline s) PipelineControllerName ''pipeline.tekton.dev/release''"
  let ?t = "getComponentVersion (r_triggers s) TriggerControllerName ''triggers.tekton.dev/release''"
  consider pv tv where "has_controllers s" "?p = Ok pv" "?t = Ok tv"
    | pv p where "\<not> has_controllers s" "?p = Ok pv" "?t = Panic p"
    | p where "\<not> has_controllers s" "?p = Panic p"
    using getComponentVersion_cases [of PipelineControllerName "r_pipeline s" "''pipeline.tekton.dev/release''"]
      getComponentVersion_cases [of TriggerControllerName "r_triggers s" "''triggers.tekton.dev/release''"]
    unfolding has_controllers_def by (cases ?p; cases ?t) (auto simp del: resources_Filter)
  then show ?thesis
    by cases (simp only: read_versions_run res.case; blast)+
qed

text \<open>A Config that is up to date is left alone.\<close>

lemma up_to_date_run:
  assumes "get_config (E_client E) [] (ResourceWatched (E_flags E)) (world s) = (Inr cfg, w)"
    and "uptoDate (E_flags E) cfg"
    and "Reconcile E (ResourceWatched (E_flags E)) s = (r, s')"
  shows "(if has_controllers s then r = Ok (emptyResult, None) else is_panic r) \<and>
     trace s' = trace s @ [GetConfig [] (ResourceWatched (E_flags E)) None] \<and> world s' = w \<and>
     r_pipeline s' = r_pipeline s \<and> r_triggers s' = r_triggers s \<and>
     r_addons s' = r_addons s \<and> r_community s' = r_community s"
proof -
  let ?t = "s\<lparr>world := w, trace := trace s @ [GetConfig [] (ResourceWatched (E_flags E)) None]\<rparr>"
  from assms(2) have "dispatch E cfg = go_return (emptyResult, None)"
    by (simp add: dispatch_def validateVersion_def uptoDate_def HasInstalledVersion_def)
  with assms(3) have run: "go_bind read_versions (\<lambda>u. go_return (emptyResult, None)) ?t = (r, s')"
    by (simp add: Reconcile_found [OF assms(1)])
  have "has_controllers ?t = has_controllers s" by (simp add: has_controllers_def)
  with read_versions_cases [of ?t] run show ?thesis
    by (auto simp: go_bind_eq_cases go_return_def)
qed

section \<open>What validation has seen\<close>

text \<open>A deployment that \<open>rollout_done\<close> accepts: current, and with every wanted replica available.\<close>

definition available :: "Rollout \<Rightarrow> bool" where
  "available d \<longleftrightarrow> Generation d \<le> ObservedGeneration d \<and>
     (\<forall>n. SpecReplicas d = Some n \<longrightarrow> n \<le> AvailableReplicas d) \<and>
     StatusReplicas d \<le> UpdatedReplicas d \<and> UpdatedReplicas d \<le> AvailableReplicas d"

lemma Deployment_True:
  assumes "Deployment C n ns s = (Ok True, t)"
  obtains d where "get_deployment C ns n (world s) = (Inr d, world t)" and "available d"
  using assms rollout_done_True
  by (auto simp: Deployment_def go_catch_eq_cases call_def return_or_fail_def go_return_def go_fail_def
      go_lift_def available_def split: prod.splits sum.splits option.splits)

lemma Webhook_True:
  assumes "Webhook C n s = (Ok True, t)"
  shows "get_webhook C n (world s) = (Inr (), world t)"
  using assms
  by (auto simp: Webhook_def go_catch_eq_cases call_def return_or_fail_def go_return_def go_fail_def
      split: prod.splits sum.splits option.splits)

text \<open>Both deployments are available and the webhook configuration is there, read in this order.\<close>

definition ready :: "'w client \<Rightarrow> string \<Rightarrow> string \<Rightarrow> string \<Rightarrow> string \<Rightarrow> 'w \<Rightarrow> bool" where
  "ready C ns controllerName webhookName webhookConfiguration w \<longleftrightarrow>
     (\<exists>d1 w1 d2 w2 w3. get_deployment C ns controllerName w = (Inr d1, w1) \<and> available d1 \<and>
        get_deployment C ns webhookName w1 = (Inr d2, w2) \<and> available d2 \<and>
        get_webhook C webhookConfiguration w2 = (Inr (), w3))"

lemma failed_write:
  assumes "fail_with E cfg c res err t = (r, s')" and "trace s' = trace t @ es"
    and "(tmp, e) \<in> set (status_writes es)"
  shows "InstallStatus_of tmp = Code c"
proof -
  have written: "outcome (\<lambda>r ws. \<exists>e. ws = [(with_condition (OperatorUUID (E_flags E)) c cfg, e)])
      (fail_with E cfg c res err)"
    by (rule outcome_fail_with) simp
  obtain gs e' where "trace s' = trace t @ gs"
      "status_writes gs = [(with_condition (OperatorUUID (E_flags E)) c cfg, e')]"
    by (rule outcomeD [OF written assms(1)]) auto
  with assms(2,3) show ?thesis by simp
qed

lemma validate_component_ready:
  assumes run: "validate_component E cfg c h wc failure success s = (r, s')" and es: "trace s' = trace s @ es"
    and w: "(tmp, e) \<in> set (status_writes es)" and good: "\<And>err. Code (failure err) \<noteq> InstallStatus_of tmp"
  shows "ready (E_client E) (Cfg_TargetNamespace cfg) c h wc (world s)"
proof -
  let ?C = "E_client E" and ?ns = "Cfg_TargetNamespace cfg"
  have failed: False
    if "fail_with E cfg (failure err) res err t = (r, s')" "trace t = trace s @ fs" "status_writes fs = []"
    for err res t fs
  proof -
    have written: "outcome (\<lambda>r ws. True) (fail_with E cfg (failure err) res err)"
      by (rule outcome_fail_with) simp
    note failing = that(1)
    obtain gs where gs: "trace s' = trace t @ gs" by (rule outcomeD [OF written failing])
    with es that(2,3) w have "(tmp, e) \<in> set (status_writes gs)" by auto
    from failed_write [OF that(1) gs this] good show False by metis
  qed
  have silent: False if "s' = t" "trace t = trace s @ fs" "status_writes fs = []" for t fs
    using that es w by simp
  obtain q t where q: "validateDeployments E cfg c h s = (q, t)" by (cases "validateDeployments E cfg c h s")
  obtain fs where fs: "trace t = trace s @ fs" "status_writes fs = []"
    by (rule quietE [OF st.keeps_validateDeployments q])
  have q_True: "q = Ok True"
    using run q failed [OF _ fs] silent [OF _ fs]
    by (cases q) (auto simp: validate_component_def go_catch_eq_cases go_return_def split: if_splits)
  obtain p v where p: "Webhook ?C wc t = (p, v)" by (cases "Webhook ?C wc t")
  obtain gs where "trace v = trace t @ gs" "status_writes gs = []"
    by (rule quietE [OF st.keeps_Webhook p])
  with fs have gs: "trace v = trace s @ (fs @ gs)" "status_writes (fs @ gs) = []" by simp_all
  have "p = Ok True"
    using run q q_True p failed [OF _ gs] silent [OF _ gs]
    by (cases p) (auto simp: validate_component_def go_catch_eq_cases go_return_def split: if_splits)
  with p have hook: "get_webhook ?C wc (world t) = (Inr (), world v)" using Webhook_True by blast
  from q q_True obtain x where "Deployment ?C c ?ns s = (Ok True, x)" "Deployment ?C h ?ns x = (Ok True, t)"
    by (auto simp: validateDeployments_def go_bind_Ok_iff go_return_def)
  with hook show ?thesis unfolding ready_def by (metis Deployment_True)
qed

section \<open>Properties\<close>

text \<open>C5:
  A reconciliation of the watched Config makes at most one status update.  It is the Config that was
  read, with one condition in front and the operator's UUID; the condition carries the operator's
  version and its code is a step of the installation's state machine from the status that was read.
\<close>

theorem Reconcile_one_step:
  assumes "get_config (E_client E) [] (ResourceWatched (E_flags E)) (world s) = (Inr cfg, w)"
    and "Reconcile E (ResourceWatched (E_flags E)) s = (r, s')"
  shows "\<exists>es. trace s' = trace s @ GetConfig [] (ResourceWatched (E_flags E)) None # es \<and>
     (status_writes es = [] \<or>
      (\<exists>c e. status_writes es = [(with_condition (OperatorUUID (E_flags E)) c cfg, e)] \<and>
         CVersion c = TektonVersion (E_flags E) \<and> install_step (InstallStatus_of cfg) (Code c)))"
  by (rule Reconcile_found_outcome [OF assms]) (cases r; auto)

theorem Reconcile_one_step_witness:
  "\<exists>es. trace (snd (Reconcile sample_env (ResourceWatched (E_flags sample_env)) (sample_sys (Some sample_config)))) =
     trace (sample_sys (Some sample_config)) @ GetConfig [] (ResourceWatched (E_flags sample_env)) None # es \<and>
     (status_writes es = [] \<or>
      (\<exists>c e. status_writes es = [(with_condition (OperatorUUID (E_flags sample_env)) c sample_config, e)] \<and>
         CVersion c = TektonVersion (E_flags sample_env) \<and>
         install_step (InstallStatus_of sample_config) (Code c)))"
  by (rule Reconcile_one_step [OF sample_found prod.collapse [symmetric]])

text \<open>
  The controller never forgets an unfinished installation: when the watched Config is read and the
  reconciliation returns, it returns an error or asks to be called again, unless the Config is
  installed and up to date or has a status that is not one of the installation's.
\<close>

theorem Reconcile_goes_on:
  assumes "get_config (E_client E) [] (ResourceWatched (E_flags E)) (world s) = (Inr cfg, w)"
    and "Reconcile E (ResourceWatched (E_flags E)) s = (Ok (res, err), s')"
  shows "err \<noteq> None \<or> Requeue res \<or> uptoDate (E_flags E) cfg \<or> unhandled_status (InstallStatus_of cfg)"
  by (rule Reconcile_found_outcome [OF assms]) auto

text \<open>The first reconciliation of the sample Config.\<close>

lemma sample_reconciled_once:
  "case Reconcile sample_env (ResourceWatched (E_flags sample_env)) (sample_sys (Some sample_config)) of
     (r, t) \<Rightarrow> r = Ok (emptyResult\<lparr>Requeue := True\<rparr>, None) \<and>
       list_ex (\<lambda>(tmp, e). InstallStatus_of tmp = AppliedPipeline) (status_writes (trace t)) \<and>
       map_option Cfg_name (st_config (world t)) = Some ClusterCRName"
  by code_simp

lemma sample_first_run:
  "fst (Reconcile sample_env (ResourceWatched (E_flags sample_env)) (sample_sys (Some sample_config))) =
     Ok (emptyResult\<lparr>Requeue := True\<rparr>, None)"
  using sample_reconciled_once by (simp split: prod.splits)

lemma sample_first_config:
  "map_option Cfg_name (st_config (world (snd (Reconcile sample_env (ResourceWatched (E_flags sample_env))
     (sample_sys (Some sample_config)))))) = Some ClusterCRName"
  using sample_reconciled_once by (simp split: prod.splits)

text \<open>C17:
  Status and result agree: when the reconciliation writes an error status it returns an error; when it
  returns no error, the status it wrote was accepted by the API server, is a status of progress, and
  the request is queued again for the next stage.
\<close>

theorem Reconcile_status_result:
  assumes "get_config (E_client E) [] (ResourceWatched (E_flags E)) (world s) = (Inr cfg, w)"
    and "Reconcile E (ResourceWatched (E_flags E)) s = (Ok (res, err), s')"
    and "trace s' = trace s @ es" and "(tmp, e) \<in> set (status_writes es)"
  shows "(is_error_status (InstallStatus_of tmp) \<longrightarrow> err \<noteq> None) \<and>
     (err = None \<longrightarrow> \<not> is_error_status (InstallStatus_of tmp) \<and> e = None \<and> Requeue res)"
proof -
  obtain fs where "trace s' = trace s @ GetConfig [] (ResourceWatched (E_flags E)) None # fs"
    "reconciled (E_flags E) cfg (Ok (res, err)) (status_writes fs)"
    by (rule Reconcile_found_outcome [OF assms(1,2)])
  with assms(3,4) show ?thesis by auto
qed

theorem Reconcile_status_result_witness:
  "\<exists>res err s' es tmp e.
     Reconcile sample_env (ResourceWatched (E_flags sample_env)) (sample_sys (Some sample_config)) =
       (Ok (res, err), s') \<and> trace s' = trace (sample_sys (Some sample_config)) @ es \<and>
     (tmp, e) \<in> set (status_writes es) \<and> InstallStatus_of tmp = AppliedPipeline \<and>
     (err = None \<longrightarrow> e = None \<and> Requeue res)"
proof -
  let ?run = "Reconcile sample_env (ResourceWatched (E_flags sample_env)) (sample_sys (Some sample_config))"
  have "list_ex (\<lambda>(tmp, e). InstallStatus_of tmp = AppliedPipeline) (status_writes (trace (snd ?run)))"
    using sample_reconciled_once by (simp split: prod.splits)
  then obtain tmp e where "(tmp, e) \<in> set (status_writes (trace (snd ?run)))"
      "InstallStatus_of tmp = AppliedPipeline"
    by (auto simp: list_ex_iff)
  moreover have "trace (snd ?run) = trace (sample_sys (Some sample_config)) @ trace (snd ?run)"
    by (simp add: sample_sys_def)
  moreover have "?run = (Ok (emptyResult\<lparr>Requeue := True\<rparr>, None), snd ?run)"
    using sample_first_run by (metis prod.collapse)
  ultimately show ?thesis
    using Reconcile_status_result [OF sample_found] by blast
qed

text \<open>C30:
  An up-to-date installation is left alone: the only call is the read of the Config, the objects of the
  cluster and the manifests in memory stay as they are, and the request is not queued again.  The
  read of the component versions before the \<open>switch\<close> panics exactly when a controller's deployment is
  missing from the manifests.
\<close>

theorem Reconcile_up_to_date:
  assumes "get_config (E_client E) [] (ResourceWatched (E_flags E)) (world s) = (Inr cfg, w)"
    and "uptoDate (E_flags E) cfg"
    and "Reconcile E (ResourceWatched (E_flags E)) s = (r, s')"
  shows "(if has_controllers s then r = Ok (emptyResult, None) else is_panic r) \<and>
     trace s' = trace s @ [GetConfig [] (ResourceWatched (E_flags E)) None] \<and> world s' = w \<and>
     r_pipeline s' = r_pipeline s \<and> r_triggers s' = r_triggers s \<and>
     r_addons s' = r_addons s \<and> r_community s' = r_community s"
  by (rule up_to_date_run [OF assms])

theorem Reconcile_up_to_date_witness:
  "fst (Reconcile sample_env (ResourceWatched (E_flags sample_env)) (sample_sys (Some sample_installed))) =
     Ok (emptyResult, None) \<and>
   trace (snd (Reconcile sample_env (ResourceWatched (E_flags sample_env)) (sample_sys (Some sample_installed)))) =
     [GetConfig [] (ResourceWatched (E_flags sample_env)) None]"
proof -
  have "has_controllers (sample_sys (Some sample_installed))"
    by code_simp
  moreover have "trace (sample_sys (Some sample_installed)) = []"
    by (simp add: sample_sys_def)
  ultimately show ?thesis
    using Reconcile_up_to_date [OF sample_found_installed sample_installed_up_to_date
        prod.collapse [symmetric]]
    by simp
qed

text \<open>
  The installation converges: when the last stage returns without an error, the status it has written
  makes the Config up to date, so the next reconciliation leaves it alone.
\<close>

theorem applyCommunityResources_converges:
  assumes "applyCommunityResources E cfg s = (Ok (res, None), s')"
  shows "\<exists>es tmp. trace s' = trace s @ es \<and> status_writes es = [(tmp, None)] \<and> uptoDate (E_flags E) tmp"
proof -
  obtain es where "trace s' = trace s @ es"
    "stage_outcome (E_flags E) cfg InstalledStatus CommunityResourcesError False (Ok (res, None))
       (status_writes es)"
    using outcomeD [OF stage_applyCommunityResources assms] by blast
  then show ?thesis
    by (auto simp: uptoDate_def matchesUUID_def HasInstalledVersion_def)
qed

theorem applyCommunityResources_converges_witness:
  "\<exists>s' es tmp. applyCommunityResources sample_env sample_config (sample_sys (Some sample_config)) =
      (Ok (emptyResult\<lparr>Requeue := True\<rparr>, None), s') \<and>
     trace s' = trace (sample_sys (Some sample_config)) @ es \<and>
     status_writes es = [(tmp, None)] \<and> uptoDate (E_flags sample_env) tmp"
proof -
  have "fst (applyCommunityResources sample_env sample_config (sample_sys (Some sample_config))) =
      Ok (emptyResult\<lparr>Requeue := True\<rparr>, None)"
    by code_simp
  then obtain s' where "applyCommunityResources sample_env sample_config (sample_sys (Some sample_config)) =
      (Ok (emptyResult\<lparr>Requeue := True\<rparr>, None), s')"
    by (metis prod.collapse)
  with applyCommunityResources_converges [OF this] show ?thesis by blast
qed



text \<open>C14:
  Validation is not a formality: the pipeline is recorded as validated only when the deployments of its
  controller and of its webhook have been read, current and with every wanted replica available, and
  its webhook configuration has been found; and so for the triggers.
\<close>

theorem validated_means_ready:
  assumes "(if triggers then validateTriggers E cfg else validatePipeline E cfg) s = (r, s')"
    and "trace s' = trace s @ es" and "(tmp, e) \<in> set (status_writes es)"
    and "InstallStatus_of tmp = (if triggers then ValidatedTriggers else ValidatedPipeline)"
  shows "if triggers
     then ready (E_client E) (Cfg_TargetNamespace cfg) TriggerControllerName TriggerWebhookName
            TriggerWebhookConfiguration (world s)
     else ready (E_client E) (Cfg_TargetNamespace cfg) PipelineControllerName PipelineWebhookName
            PipelineWebhookConfiguration (world s)"
proof (cases triggers)
  case True
  with assms validate_component_ready [of E cfg TriggerControllerName TriggerWebhookName
      TriggerWebhookConfiguration _ _ s r s' es tmp e]
  show ?thesis
    by (auto simp: validateTriggers_def Let_def go_bind_eq_cases go_get_def condition_def)
next
  case False
  with assms validate_component_ready [of E cfg PipelineControllerName PipelineWebhookName
      PipelineWebhookConfiguration _ _ s r s' es tmp e]
  show ?thesis
    by (auto simp: validatePipeline_def Let_def go_bind_eq_cases go_get_def condition_def)
qed

text \<open>A cluster where the deployments of the pipeline have been created.\<close>

definition sample_deployed :: "store sys" where
  "sample_deployed = (sample_sys (Some sample_config))\<lparr>world := \<lparr>st_config = Some sample_config,
     st_objects = List.map (SetNamespace ''ns'') (resources (r_pipeline (sample_sys None)))\<rparr>\<rparr>"

theorem validated_means_ready_witness:
  "ready sample_client ''ns'' PipelineControllerName PipelineWebhookName PipelineWebhookConfiguration
     (world sample_deployed)"
proof -
  let ?run = "validatePipeline sample_env sample_config sample_deployed"
  have "list_ex (\<lambda>(tmp, e). InstallStatus_of tmp = ValidatedPipeline) (status_writes (trace (snd ?run)))"
    by code_simp
  then obtain tmp e where w: "(tmp, e) \<in> set (status_writes (trace (snd ?run)))"
      "InstallStatus_of tmp = ValidatedPipeline"
    by (auto simp: list_ex_iff)
  have "trace (snd ?run) = trace sample_deployed @ trace (snd ?run)"
    by (simp add: sample_deployed_def sample_sys_def)
  with validated_means_ready [of False sample_env sample_config sample_deployed _ _ _ tmp e] w
  have "ready (E_client sample_env) (Cfg_TargetNamespace sample_config) PipelineControllerName
      PipelineWebhookName PipelineWebhookConfiguration (world sample_deployed)"
    by (metis (full_types) prod.collapse)
  then show ?thesis by (simp add: sample_env_def sample_config_def)
qed

end
