(* ===== verification/ConfigLoop.thy ===== *)
theory ConfigLoop imports Worker Watches Reconciliation begin

text \<open>
  The config controller at work: its reconciler, its watches and the loop of the controller runtime put
  together.  The rest of the world may create and delete the watched Config and change everything but
  its status (\<open>config_env\<close>); the controller is an instance of \<open>reconciler\<close> whose goal is that the Config,
  if there is one, is installed by this version of the operator.
\<close>

section \<open>The status on the server\<close>

text \<open>
  What the API server promises about the status of the Config \<open>name\<close>: \<open>view w\<close> is the status in the world
  \<open>w\<close>, or none when the Config is not there.  A read reports it and only an update of the status changes
  it; an update that is accepted stores the status it was sent, one that returns an error has been applied
  or not.  The empty string is not the name of an object.
\<close>

definition keeps_view :: "('w \<Rightarrow> 'v) \<Rightarrow> ('w \<Rightarrow> 'a \<times> 'w) \<Rightarrow> bool" where
  "keeps_view view f \<longleftrightarrow> (\<forall>w. view (snd (f w)) = view w)"

definition config_server :: "'w client \<Rightarrow> string \<Rightarrow> ('w \<Rightarrow> ConfigStatus option) \<Rightarrow> bool" where
  "config_server C name view \<longleftrightarrow> name \<noteq> [] \<and>
     (\<forall>ns n. keeps_view view (get_config C ns n)) \<and>
     (\<forall>ns n w cfg. fst (get_config C ns n w) = Inr cfg \<longrightarrow>
        Cfg_name cfg = n \<and> (n = name \<longrightarrow> view w = Some (Status cfg))) \<and>
     (\<forall>ns w e. fst (get_config C ns name w) = Inl e \<longrightarrow> IsNotFound e \<longrightarrow> view w = None) \<and>
     (\<forall>tmp w. view (snd (update_status C tmp w)) = view w \<or>
        Cfg_name tmp = name \<and> view w \<noteq> None \<and> view (snd (update_status C tmp w)) = Some (Status tmp)) \<and>
     (\<forall>ns n. keeps_view view (get_deployment C ns n)) \<and>
     (\<forall>n. keeps_view view (get_webhook C n)) \<and>
     (\<forall>u. keeps_view view (get_obj C u)) \<and>
     (\<forall>u. keeps_view view (create_obj C u)) \<and>
     (\<forall>u. keeps_view view (update_obj C u)) \<and>
     (\<forall>b u. keeps_view view (delete_obj C b u)) \<and>
     (\<forall>n. keeps_view view (poll_ticks C n))"

text \<open>Whether a status needs no more work: installed by this operator, or one of the statuses it ignores.\<close>

definition finished :: "flags \<Rightarrow> ConfigStatus \<Rightarrow> bool" where
  "finished F st \<longleftrightarrow> uptoDate F (zeroConfig\<lparr>Status := st\<rparr>) \<or>
     unhandled_status (InstallStatus_of (zeroConfig\<lparr>Status := st\<rparr>))"

lemma finished_status:
  "finished F (Status cfg) \<longleftrightarrow> uptoDate F cfg \<or> unhandled_status (InstallStatus_of cfg)"
  by (simp add: finished_def uptoDate_def HasInstalledVersion_def InstallStatus_of_def)

section \<open>What a reconciliation does to the status\<close>

text \<open>Without an update of the status the view stays as it is.\<close>

definition unwritten :: "('w \<Rightarrow> ConfigStatus option) \<Rightarrow> 'w sys \<Rightarrow> 'w sys \<Rightarrow> bool" where
  "unwritten view s t \<longleftrightarrow>
     (\<exists>es. trace t = trace s @ es \<and> (status_writes es = [] \<longrightarrow> view (world t) = view (world s)))"

definition same_status :: "('w \<Rightarrow> ConfigStatus option) \<Rightarrow> 'w sys \<Rightarrow> 'w sys \<Rightarrow> bool" where
  "same_status view s t \<longleftrightarrow> view (world t) = view (world s)"

interpretation uw: step_relation "unwritten view" for view :: "'w \<Rightarrow> ConfigStatus option"
proof
  fix s t u :: "'w sys"
  show "unwritten view s s" by (auto simp: unwritten_def)
  assume "unwritten view s t" and "unwritten view t u"
  then obtain es fs where "trace t = trace s @ es" "trace u = trace t @ fs"
      "status_writes es = [] \<longrightarrow> view (world t) = view (world s)"
      "status_writes fs = [] \<longrightarrow> view (world u) = view (world t)"
    by (auto simp: unwritten_def)
  then show "unwritten view s u" unfolding unwritten_def by (intro exI [of _ "es @ fs"]) auto
qed

interpretation ss: step_relation "same_status view" for view :: "'w \<Rightarrow> ConfigStatus option"
  by unfold_locales (simp_all add: same_status_def)

lemma view_call:
  assumes "keeps_view view f"
  shows "unwritten view s (snd (call f ev s))" "same_status view s (snd (call f ev s))"
  using assms by (auto simp: unwritten_def same_status_def keeps_view_def call_def split: prod.split sum.split)
    (metis snd_conv)+

lemma view_elapse:
  assumes "keeps_view view f"
  shows "unwritten view s (snd (elapse f s))" "same_status view s (snd (elapse f s))"
  using assms by (auto simp: unwritten_def same_status_def keeps_view_def elapse_def split: prod.split)
    (metis snd_conv)+

lemma operator_steps_unwritten:
  assumes "config_server (E_client E) name view"
  shows "operator_steps (unwritten view) E (\<lambda>tmp. True)"
proof -
  note C = assms [unfolded config_server_def]
  show ?thesis
  proof (intro operator_steps.intro operator_steps_axioms.intro client_steps.intro
      client_steps_axioms.intro uw.step_relation_axioms)
    show "uw.keeps view (call (update_status (E_client E) tmp) (UpdateStatus tmp))" for tmp
      by (rule uw.keepsI) (auto simp: unwritten_def call_def split: prod.split sum.split)
    show "uw.keeps view (go_modify f)" if "\<And>s. world (f s) = world s \<and> trace (f s) = trace s" for f
      using that by (intro uw.keepsI) (simp add: go_defs unwritten_def)
  qed (rule uw.keepsI, rule view_call view_elapse, simp add: C)+
qed

lemma operator_steps_same:
  assumes "config_server (E_client E) name view"
  shows "operator_steps (same_status view) E (\<lambda>tmp. Cfg_name tmp \<noteq> name)"
proof -
  note C = assms [unfolded config_server_def]
  show ?thesis
  proof (intro operator_steps.intro operator_steps_axioms.intro client_steps.intro
      client_steps_axioms.intro ss.step_relation_axioms)
    show "ss.keeps view (call (update_status (E_client E) tmp) (UpdateStatus tmp))"
      if "Cfg_name tmp \<noteq> name" for tmp
    proof -
      from that C have "keeps_view view (update_status (E_client E) tmp)" unfolding keeps_view_def by blast
      then show ?thesis by (intro ss.keepsI view_call)
    qed
    show "ss.keeps view (go_modify f)" if "\<And>s. world (f s) = world s \<and> trace (f s) = trace s" for f
      using that by (intro ss.keepsI) (simp add: go_defs same_status_def)
  qed (rule ss.keepsI, rule view_call view_elapse, simp add: C)+
qed


text \<open>The reads of the watched Config.\<close>

lemma server_config:
  assumes "config_server C name view" and "get_config C ns name w = (q, w')"
  shows "view w' = view w" and "q = Inr cfg \<Longrightarrow> view w = Some (Status cfg)"
    and "q = Inl e \<Longrightarrow> IsNotFound e \<Longrightarrow> view w = None"
proof -
  note C = assms(1) [unfolded config_server_def]
  from C have "keeps_view view (get_config C ns name)" by blast
  with assms(2) show "view w' = view w" by (metis keeps_view_def snd_conv)
  from assms(2) have q: "fst (get_config C ns name w) = q" by simp
  show "q = Inr cfg \<Longrightarrow> view w = Some (Status cfg)" using C q by blast
  show "q = Inl e \<Longrightarrow> IsNotFound e \<Longrightarrow> view w = None" using C q by blast
qed

lemma unwritten_run:
  assumes "uw.keeps view m" and "m s = (r, s')" and "trace s' = trace s @ es" and "status_writes es = []"
  shows "view (world s') = view (world s)"
  using uw.keepsD [OF assms(1,2)] assms(3,4) by (auto simp: unwritten_def)

text \<open>A reconciliation that writes no status leaves the view alone.\<close>

lemma Reconcile_found_view:
  assumes C: "config_server (E_client E) (ResourceWatched (E_flags E)) view"
    and found: "get_config (E_client E) [] (ResourceWatched (E_flags E)) (world s) = (Inr cfg, w)"
    and run: "Reconcile E (ResourceWatched (E_flags E)) s = (r, s')"
    and es: "trace s' = trace s @ es" "status_writes es = []"
  shows "view (world s') = view (world s)"
proof -
  note steps = operator_steps_unwritten [OF C]
  let ?t = "s\<lparr>world := w, trace := trace s @ [GetConfig [] (ResourceWatched (E_flags E)) None]\<rparr>"
  have "operator_steps.writes E (\<lambda>tmp. True) cfg codes" for codes
    by (simp add: operator_steps.writes_def [OF steps])
  then have "uw.keeps view (go_bind read_versions (\<lambda>u. dispatch E cfg))"
    by (intro uw.keeps_bind operator_steps.keeps_read_versions [OF steps] operator_steps.keeps_dispatch [OF steps])
  from uw.keepsD [OF this run [unfolded Reconcile_found [OF found]]] es
  have "view (world s') = view w" by (auto simp: unwritten_def)
  with server_config(1) [OF C found] show ?thesis by simp
qed

lemma Reconcile_lost_view:
  assumes C: "config_server (E_client E) (ResourceWatched (E_flags E)) view"
    and lost: "get_config (E_client E) [] (ResourceWatched (E_flags E)) (world s) = (Inl e, w)"
    and run: "Reconcile E (ResourceWatched (E_flags E)) s = (r, s')"
  shows "view (world s') = view (world s)"
proof -
  let ?t = "s\<lparr>world := w, trace := trace s @ [GetConfig [] (ResourceWatched (E_flags E)) (Some e)]\<rparr>"
  have "ss.keeps view (if IsNotFound e then reconcileDeletion E else go_return (emptyResult, Some e))"
    by (intro ss.keeps_If ss.keeps_return operator_steps.keeps_reconcileDeletion [OF operator_steps_same [OF C]])
  from ss.keepsD [OF this run [unfolded Reconcile_lost [OF lost]]]
  have "view (world s') = view w" by (simp add: same_status_def)
  with server_config(1) [OF C lost] show ?thesis by simp
qed

text \<open>A status that is finished stays so.\<close>

lemma unhandled_no_step: "unhandled_status a \<Longrightarrow> \<not> install_step a b"
  by (auto simp: unhandled_status_def install_step.simps split: InstallStatus.splits)

lemma Reconcile_finished_silent:
  assumes found: "get_config (E_client E) [] (ResourceWatched (E_flags E)) (world s) = (Inr cfg, w)"
    and run: "Reconcile E (ResourceWatched (E_flags E)) s = (r, s')"
    and fin: "finished (E_flags E) (Status cfg)"
  obtains es where "trace s' = trace s @ es" and "status_writes es = []"
proof (cases "uptoDate (E_flags E) cfg")
  case True
  from up_to_date_run [OF found this run] show thesis
    by (intro that [of "[GetConfig [] (ResourceWatched (E_flags E)) None]"]) auto
next
  case False
  with fin have "unhandled_status (InstallStatus_of cfg)" by (simp add: finished_status)
  moreover obtain es where "trace s' = trace s @ GetConfig [] (ResourceWatched (E_flags E)) None # es"
    "reconciled (E_flags E) cfg r (status_writes es)"
    by (rule Reconcile_found_outcome [OF found run])
  ultimately show thesis
    by (intro that [of "GetConfig [] (ResourceWatched (E_flags E)) None # es"]; cases r)
      (auto simp: unhandled_no_step)
qed

text \<open>A request for another name does not touch the status of the watched Config.\<close>

lemma Reconcile_other_view:
  assumes C: "config_server (E_client E) (ResourceWatched (E_flags E)) view"
    and req: "req \<noteq> ResourceWatched (E_flags E)" and run: "Reconcile E req s = (r, s')"
  shows "view (world s') = view (world s)"
proof -
  note steps = operator_steps_same [OF C]
  let ?get = "call (get_config (E_client E) [] req) (GetConfig [] req)"
  obtain q t where q: "?get s = (q, t)" by (cases "?get s")
  have first: "same_status view s t"
    by (rule ss.keepsD [OF operator_steps.get_config_kept [OF steps] q])
  have mark: "ss.keeps view (go_bind (markInvalidResource E cfg) (\<lambda>u. go_return (emptyResult, None)))"
    if "Cfg_name cfg \<noteq> ResourceWatched (E_flags E)" for cfg
    using that
    by (intro ss.keeps_bind ss.keeps_return operator_steps.keeps_markInvalidResource [OF steps])
      (simp add: operator_steps.writes_def [OF steps])
  have "same_status view t s'"
  proof (cases q)
    case (Ok cfg)
    with q have "fst (get_config (E_client E) [] req (world s)) = Inr cfg"
      by (auto simp: call_def split: prod.splits sum.splits)
    with C have "Cfg_name cfg = req" unfolding config_server_def by blast
    with mark [of cfg] req Ok run q show ?thesis
      by (auto simp: Reconcile_def Let_def go_catch_eq_cases dest: ss.keepsD)
  next
    case (Err e)
    have "Cfg_name zeroConfig \<noteq> ResourceWatched (E_flags E)"
      using C by (auto simp: config_server_def zeroConfig_def)
    with mark [of zeroConfig] req Err run q show ?thesis
      by (auto simp: Reconcile_def Let_def go_catch_eq_cases go_return_def ss.refl dest: ss.keepsD split: if_splits)
  next
    case (Panic p)
    with req run q show ?thesis by (auto simp: Reconcile_def Let_def go_catch_eq_cases ss.refl)
  qed
  with first show ?thesis by (simp add: same_status_def)
qed


section \<open>The controller\<close>

text \<open>\<open>Reconcile\<close> reads the name of the request; the Config has no namespace.\<close>

definition config_reconciler :: "'w env \<Rightarrow> Request \<Rightarrow> 'w handler" where
  "config_reconciler E req = Reconcile E (req_Name req)"

definition config_request :: "flags \<Rightarrow> Request" where
  "config_request F = \<lparr>req_Namespace = [], req_Name = ResourceWatched F\<rparr>"

text \<open>The informer reports the creation or the deletion of the watched Config.\<close>

definition config_reported :: "string \<Rightarrow> bool \<Rightarrow> config_event list \<Rightarrow> bool" where
  "config_reported name there es \<longleftrightarrow> (\<exists>m. m_Name m = name \<and> m_Namespace m = [] \<and>
     ConfigEvent (if there then Created m else Deleted m) \<in> set es)"

text \<open>
  What others may do: anything but to the status of the watched Config, and the Config may come and
  go, which the informer reports.
\<close>

definition config_env ::
  "string \<Rightarrow> ('w \<Rightarrow> ConfigStatus option) \<Rightarrow> 'w sys \<Rightarrow> 'w sys \<Rightarrow> config_event list \<Rightarrow> bool" where
  "config_env name view s s' es \<longleftrightarrow> s' = s\<lparr>world := world s'\<rparr> \<and>
     (view (world s') = view (world s) \<or> config_reported name (view (world s') \<noteq> None) es)"

definition config_goal :: "'w env \<Rightarrow> ('w \<Rightarrow> ConfigStatus option) \<Rightarrow> 'w sys \<Rightarrow> bool" where
  "config_goal E view s \<longleftrightarrow> (config_server (E_client E) (ResourceWatched (E_flags E)) view \<longrightarrow>
     (\<forall>st. view (world s) = Some st \<longrightarrow> finished (E_flags E) st))"

lemma config_reported_request:
  "config_reported name there es \<Longrightarrow>
   \<exists>e \<in> set es. \<lparr>req_Namespace = [], req_Name = name\<rparr> \<in> set (config_requests scope e)"
  unfolding config_reported_def
  by (elim exE conjE, rule bexI [where x = "ConfigEvent (if there then Created m else Deleted m)" for m])
    (auto simp: request_for_def)

lemma Reconcile_settles:
  assumes C: "config_server (E_client E) (ResourceWatched (E_flags E)) view"
    and run: "Reconcile E (ResourceWatched (E_flags E)) s = (r, s')" and "settled r"
    and st: "view (world s') = Some st"
  shows "finished (E_flags E) st"
proof -
  from \<open>settled r\<close> obtain res where r: "r = Ok (res, None)" "\<not> Requeue res" by (auto simp: settled_def)
  obtain q w where q: "get_config (E_client E) [] (ResourceWatched (E_flags E)) (world s) = (q, w)"
    by (cases "get_config (E_client E) [] (ResourceWatched (E_flags E)) (world s)")
  show ?thesis
  proof (cases q)
    case (Inr cfg)
    with q have found: "get_config (E_client E) [] (ResourceWatched (E_flags E)) (world s) = (Inr cfg, w)" by simp
    obtain es where es: "trace s' = trace s @ GetConfig [] (ResourceWatched (E_flags E)) None # es"
      "reconciled (E_flags E) cfg r (status_writes es)"
      by (rule Reconcile_found_outcome [OF found run])
    with r have fin: "status_writes es = []" "uptoDate (E_flags E) cfg \<or> unhandled_status (InstallStatus_of cfg)"
      by auto
    have "view (world s') = view (world s)"
      by (rule Reconcile_found_view [OF C found run es(1)]) (simp add: fin(1))
    with st server_config(2) [OF C found refl] fin(2) show ?thesis by (simp add: finished_status [symmetric])
  next
    case (Inl e)
    with q have lost: "get_config (E_client E) [] (ResourceWatched (E_flags E)) (world s) = (Inl e, w)" by simp
    have "IsNotFound e"
      using run r by (auto simp: Reconcile_lost [OF lost] go_return_def split: if_splits)
    with server_config(3) [OF C lost refl] Reconcile_lost_view [OF C lost run] st show ?thesis by simp
  qed
qed

lemma Reconcile_finished_stays:
  assumes C: "config_server (E_client E) (ResourceWatched (E_flags E)) view"
    and run: "Reconcile E req s = (r, s')"
    and fin: "\<forall>st. view (world s) = Some st \<longrightarrow> finished (E_flags E) st"
  shows "view (world s') = view (world s)"
proof (cases "req = ResourceWatched (E_flags E)")
  case True
  with run have run: "Reconcile E (ResourceWatched (E_flags E)) s = (r, s')" by simp
  obtain q w where q: "get_config (E_client E) [] (ResourceWatched (E_flags E)) (world s) = (q, w)"
    by (cases "get_config (E_client E) [] (ResourceWatched (E_flags E)) (world s)")
  show ?thesis
  proof (cases q)
    case (Inr cfg)
    with q have found: "get_config (E_client E) [] (ResourceWatched (E_flags E)) (world s) = (Inr cfg, w)" by simp
    from fin server_config(2) [OF C found refl] have "finished (E_flags E) (Status cfg)" by simp
    then obtain es where "trace s' = trace s @ es" "status_writes es = []"
      by (rule Reconcile_finished_silent [OF found run])
    then show ?thesis by (rule Reconcile_found_view [OF C found run])
  next
    case (Inl e)
    with q show ?thesis by (intro Reconcile_lost_view [OF C _ run]) simp
  qed
qed (rule Reconcile_other_view [OF C _ run])

interpretation config: reconciler "config_reconciler E" "config_requests scope"
    "config_env (ResourceWatched (E_flags E)) view" "config_request (E_flags E)" "config_goal E view"
  for E :: "'w env" and scope and view
proof
  fix s s' :: "'w sys" and r req es
  show "config_reconciler E (config_request (E_flags E)) s = (r, s') \<Longrightarrow> settled r \<Longrightarrow> config_goal E view s'"
    by (auto simp: config_reconciler_def config_request_def config_goal_def intro: Reconcile_settles)
  show "config_reconciler E req s = (r, s') \<Longrightarrow> config_goal E view s \<Longrightarrow> config_goal E view s'"
    using Reconcile_finished_stays [of E view "req_Name req" s r s']
    by (auto simp: config_reconciler_def config_goal_def)
  show "config_env (ResourceWatched (E_flags E)) view s s' es \<Longrightarrow> config_goal E view s \<Longrightarrow>
      config_goal E view s' \<or> (\<exists>e \<in> set es. config_request (E_flags E) \<in> set (config_requests scope e))"
    using config_reported_request [of "ResourceWatched (E_flags E)" _ es scope]
    by (auto simp: config_env_def config_goal_def config_request_def)
qed

section \<open>Properties\<close>



text \<open>C19:
  A new target namespace comes too late: when the spec of an installed Config is changed, the change queues
  its request, but the reconciliation only reads the Config and goes away; what was installed stays in
  the old namespace, and the status still says installed.
\<close>

theorem spec_change_ignored:
  assumes "uptoDate (E_flags E) cfg" and "m_Generation new \<noteq> m_Generation old"
    and "m_Name new = ResourceWatched (E_flags E)" and "m_Namespace new = []"
    and "get_config (E_client E) [] (ResourceWatched (E_flags E)) (world s) = (Inr (cfg\<lparr>Cfg_TargetNamespace := ns\<rparr>), w)"
    and "config_reconciler E (config_request (E_flags E)) s = (r, s')"
  shows "config_request (E_flags E) \<in> set (config_requests scope (ConfigEvent (Updated old new))) \<and>
     trace s' = trace s @ [GetConfig [] (ResourceWatched (E_flags E)) None] \<and> world s' = w \<and>
     (has_controllers s \<longrightarrow> r = Ok (emptyResult, None))"
proof -
  have "uptoDate (E_flags E) (cfg\<lparr>Cfg_TargetNamespace := ns\<rparr>)"
    using assms(1) by (simp add: uptoDate_def HasInstalledVersion_def InstallStatus_of_def)
  from up_to_date_run [OF assms(5) this] assms(2-4,6) show ?thesis
    by (auto simp: config_reconciler_def config_request_def deliver_def config_watch_def request_for_def)
qed

section \<open>A run\<close>

definition sample_view :: "store \<Rightarrow> ConfigStatus option" where
  "sample_view w = (case st_config w of
     Some cfg \<Rightarrow> if Cfg_name cfg = ClusterCRName then Some (Status cfg) else None | None \<Rightarrow> None)"

lemma sample_config_server: "config_server sample_client ClusterCRName sample_view"
proof -
  have view: "sample_view w' = sample_view w" if "st_config w' = st_config w" for w w'
    using that by (simp add: sample_view_def)
  have kept: "keeps_view sample_view (sample_get_config ns n)" "keeps_view sample_view (sample_get u)"
    "keeps_view sample_view (sample_create u)" "keeps_view sample_view (sample_update u)"
    "keeps_view sample_view (sample_delete b u)" "keeps_view sample_view (\<lambda>st. (f st, st))"
    for ns n u b and f :: "store \<Rightarrow> 'a"
    unfolding keeps_view_def
    by (intro allI view; simp add: sample_get_config_def sample_get_def sample_create_def sample_update_def
        sample_delete_def split: option.split)+
  have reads: "Cfg_name cfg = n \<and> (n = ClusterCRName \<longrightarrow> sample_view w = Some (Status cfg))"
    if "fst (sample_get_config ns n w) = Inr cfg" for ns n w cfg
    using that by (auto simp: sample_get_config_def sample_view_def split: option.splits if_splits)
  have lost: "sample_view w = None" if "fst (sample_get_config ns ClusterCRName w) = Inl e" for ns w e
    using that by (auto simp: sample_get_config_def sample_view_def split: option.splits if_splits)
  have writes: "sample_view (snd (sample_update_status tmp w)) = sample_view w \<or>
      Cfg_name tmp = ClusterCRName \<and> sample_view w \<noteq> None \<and>
      sample_view (snd (sample_update_status tmp w)) = Some (Status tmp)" for tmp w
    by (auto simp: sample_update_status_def sample_view_def split: option.split)
  show ?thesis
    unfolding config_server_def sample_client_def client.simps
    by (intro conjI allI impI; (rule kept writes)?; auto simp: keeps_view_def sample_names(3) dest: reads lost)
qed

text \<open>The controller after the first event, and after the first reconciliation.\<close>

definition sample_boot :: "(store sys, Request, config_event) controller" where
  "sample_boot = \<lparr>c_sys = sample_sys (Some sample_config), c_queue = newQueue, c_worker = Idle,
     c_events = [ConfigEvent (Created \<lparr>m_Name = ClusterCRName, m_Namespace = [], m_Generation = 1,
       m_OwnerReferences = []\<rparr>)]\<rparr>"

abbreviation sample_request :: Request where
  "sample_request \<equiv> config_request (E_flags sample_env)"

lemma sample_reconciled:
  "\<exists>q. controller_run (config_reconciler sample_env) (config_requests (\<lambda>v. Inr True))
     (config_env (ResourceWatched (E_flags sample_env)) sample_view) sample_boot
     \<lparr>c_sys = snd (Reconcile sample_env ClusterCRName (sample_sys (Some sample_config))),
        c_queue = q, c_worker = Returned sample_request True, c_events = []\<rparr> \<and> \<not> shuttingDown q"
proof -
  let ?c3 = "\<lambda>q. \<lparr>c_sys = snd (Reconcile sample_env ClusterCRName (sample_sys (Some sample_config))),
        c_queue = q, c_worker = Returned sample_request True, c_events = []\<rparr>"
  let ?step = "controller_step (config_reconciler sample_env) (config_requests (\<lambda>v. Inr True))
     (config_env (ResourceWatched (E_flags sample_env)) sample_view)"
  let ?q1 = "newQueue\<lparr>queue := [sample_request], dirty := {sample_request}\<rparr>"
  let ?q2 = "?q1\<lparr>queue := [], dirty := {}, processing := {sample_request}\<rparr>"
  let ?c1 = "sample_boot\<lparr>c_events := [], c_queue := ?q1\<rparr>"
  let ?c2 = "?c1\<lparr>c_queue := ?q2, c_worker := Working sample_request\<rparr>"
  have ev: "c_events sample_boot = [] @ hd (c_events sample_boot) # []" by (simp add: sample_boot_def)
  have 1: "?step sample_boot ?c1"
    using controller_step.event [OF ev, of "config_reconciler sample_env" "config_requests (\<lambda>v. Inr True)"]
    by (simp add: sample_boot_def request_for_def config_request_def sample_names q_Add_def newQueue_def Let_def)
  have 2: "?step ?c1 ?c2"
    using controller_step.take [of ?c1 sample_request ?q2]
    by (simp add: sample_boot_def q_Get_def newQueue_def)
  obtain t where t: "Reconcile sample_env ClusterCRName (sample_sys (Some sample_config)) =
      (Ok (emptyResult\<lparr>Requeue := True\<rparr>, None), t)"
    using sample_first_run by (metis prod.collapse sample_names)
  let ?q3 = "AddRateLimited 0 sample_request ?q2"
  have "reconcileHandler (config_reconciler sample_env) 0 sample_request (c_sys ?c2) (c_queue ?c2) =
      (Ok True, t, ?q3)"
    using t by (simp add: reconcileHandler_def config_reconciler_def config_request_def sample_names
        sample_boot_def emptyResult_def)
  from controller_step.reconcile [OF _ this] have 3: "?step ?c2 (?c3 ?q3)"
    using t by (simp add: sample_boot_def)
  note run_step [OF run_step [OF run_step [OF run_start 1] 2] 3]
  moreover have "\<not> shuttingDown ?q3" by (simp add: newQueue_def)
  ultimately show ?thesis by blast
qed




theorem spec_change_ignored_witness:
  "trace (snd (config_reconciler sample_env sample_request
      (sample_sys (Some (sample_installed\<lparr>Cfg_TargetNamespace := ''other''\<rparr>))))) =
   [GetConfig [] (ResourceWatched (E_flags sample_env)) None]"
proof -
  let ?s = "sample_sys (Some (sample_installed\<lparr>Cfg_TargetNamespace := ''other''\<rparr>))"
  let ?meta = "\<lambda>g. \<lparr>m_Name = ClusterCRName, m_Namespace = [], m_Generation = g, m_OwnerReferences = []\<rparr>"
  have "get_config (E_client sample_env) [] (ResourceWatched (E_flags sample_env)) (world ?s) =
      (Inr (sample_installed\<lparr>Cfg_TargetNamespace := ''other''\<rparr>), world ?s)"
    by (simp add: sample_names sample_client_def sample_sys_def sample_get_config_def sample_installed_def
        sample_config_def sample_owner_def)
  from spec_change_ignored [OF sample_installed_up_to_date, of "?meta 2" "?meta 1", OF _ _ _ this prod.collapse [symmetric]]
  show ?thesis by (simp add: sample_names sample_sys_def)
qed

end
