(* ===== verification/HealthyRuns.thy ===== *)
theory HealthyRuns imports HealthyObjects ConfigLoop begin

text \<open>
  The handlers of the config controller in a cluster that is well: \<open>healthy\<close> adds to \<open>healthy_objects\<close> that the
  watched Config can be read and its status written, that a deployment that is there is rolled out, and
  that a webhook configuration that is there is found.  When the manifest a handler works on can be
  transformed, it returns without an error and writes the status of the next stage.
\<close>

section \<open>A cluster that is well\<close>

text \<open>
  \<open>cfg0\<close> has the owner and the target namespace that the Config has; the status of a fresh copy is
  accepted.
\<close>

definition healthy_config ::
  "'w client \<Rightarrow> ('w \<Rightarrow> ConfigStatus option) \<Rightarrow> ('w \<Rightarrow> bool) \<Rightarrow> (Config \<Rightarrow> 'w \<Rightarrow> bool) \<Rightarrow> Config \<Rightarrow> bool" where
  "healthy_config C view good fresh cfg0 \<longleftrightarrow> Cfg_namespace cfg0 = [] \<and>
     (\<forall>w. good w \<longrightarrow> view w \<noteq> None \<longrightarrow> (\<exists>cfg w'. get_config C [] (Cfg_name cfg0) w = (Inr cfg, w') \<and> fresh cfg w' \<and>
        Cfg_owner cfg = Cfg_owner cfg0 \<and> Cfg_TargetNamespace cfg = Cfg_TargetNamespace cfg0 \<and> Cfg_namespace cfg = [])) \<and>
     (\<forall>w c st. good w \<longrightarrow> fresh c w \<longrightarrow> fst (update_status C (c\<lparr>Status := st\<rparr>) w) = Inr () \<and>
        view (snd (update_status C (c\<lparr>Status := st\<rparr>) w)) = Some st)"

definition healthy_workloads :: "'w client \<Rightarrow> ('w \<Rightarrow> bool) \<Rightarrow> bool" where
  "healthy_workloads C good \<longleftrightarrow>
     (\<forall>u w. good w \<longrightarrow> present C u w \<longrightarrow> GetKind u = ''Deployment'' \<longrightarrow>
        (\<exists>d. fst (get_deployment C (GetNamespace u) (GetName u) w) = Inr d \<and> rollout_done d = Ok True)) \<and>
     (\<forall>u w. good w \<longrightarrow> present C u w \<longrightarrow> GetKind u = ''MutatingWebhookConfiguration'' \<longrightarrow>
        fst (get_webhook C (GetName u) w) = Inr ())"

definition healthy ::
  "'w env \<Rightarrow> ('w \<Rightarrow> ConfigStatus option) \<Rightarrow> ('w \<Rightarrow> bool) \<Rightarrow> (Config \<Rightarrow> 'w \<Rightarrow> bool) \<Rightarrow> Config \<Rightarrow> bool" where
  "healthy E view good fresh cfg0 \<longleftrightarrow> Cfg_name cfg0 = ResourceWatched (E_flags E) \<and>
     config_server (E_client E) (ResourceWatched (E_flags E)) view \<and> healthy_objects (E_client E) good fresh \<and>
     healthy_config (E_client E) view good fresh cfg0 \<and> healthy_workloads (E_client E) good"

lemma healthyD:
  assumes "healthy E view good fresh cfg0"
  shows "Cfg_name cfg0 = ResourceWatched (E_flags E)" "config_server (E_client E) (ResourceWatched (E_flags E)) view"
    "healthy_objects (E_client E) good fresh" "healthy_config (E_client E) view good fresh cfg0"
    "healthy_workloads (E_client E) good"
  using assms by (simp_all add: healthy_def)

section \<open>Reading and writing the Config\<close>

text \<open>A copy of the Config that was read.\<close>

definition copy_of :: "Config \<Rightarrow> Config \<Rightarrow> bool" where
  "copy_of cfg0 cfg \<longleftrightarrow> Cfg_owner cfg = Cfg_owner cfg0 \<and> Cfg_TargetNamespace cfg = Cfg_TargetNamespace cfg0 \<and>
     Cfg_namespace cfg = []"

lemma read_config:
  assumes H: "healthy E view good fresh cfg0" and w: "stocked (E_client E) good fresh F A {} w" and "view w = Some st"
  obtains cfg w' where "get_config (E_client E) [] (ResourceWatched (E_flags E)) w = (Inr cfg, w')"
    and "stocked (E_client E) good fresh F A {cfg} w'" and "view w' = Some st" and "Status cfg = st"
    and "copy_of cfg0 cfg"
proof -
  note H' = healthyD [OF H]
  from w have "good w" by (simp add: stocked_def)
  with H'(1,4) assms(3) obtain cfg w' where get: "get_config (E_client E) [] (ResourceWatched (E_flags E)) w = (Inr cfg, w')"
      "fresh cfg w'" "copy_of cfg0 cfg"
    unfolding healthy_config_def copy_of_def by (metis option.distinct(1))
  have "stocked (E_client E) good fresh F A {} w'"
    using stocked_calls(1) [OF H'(3), of F A "{}"] w get(1) unfolding reads_keep_def preserves_def by (metis snd_conv)
  with get(2) have "stocked (E_client E) good fresh F A {cfg} w'" by (simp add: stocked_def)
  with that get server_config(1,2) [OF H'(2) get(1)] assms(3) show thesis by auto
qed

definition next_status :: "flags \<Rightarrow> Config \<Rightarrow> ConfigCondition \<Rightarrow> ConfigStatus" where
  "next_status F cfg c = \<lparr>StatusOperatorUUID = OperatorUUID F, Conditions = c # Conditions (Status cfg)\<rparr>"

lemma ends_updateStatus:
  assumes H: "healthy E view good fresh cfg0" and cfg: "copy_of cfg0 cfg"
  shows "ends (holding (stocked (E_client E) good fresh F {} {cfg}) M) (updateStatus E cfg c)
    (\<lambda>cfg'. holding (\<lambda>w. stocked (E_client E) good fresh F {} {} w \<and> view w = Some (next_status (E_flags E) cfg c)) M)"
  unfolding updateStatus_def Let_def
proof (rule ends_bind [OF ends_call])
  note H' = healthyD [OF H]
  let ?tmp = "with_condition (OperatorUUID (E_flags E)) c cfg"
  fix w assume w: "stocked (E_client E) good fresh F {} {cfg} w"
  then have "good w" "fresh cfg w" by (simp_all add: stocked_def)
  with H'(4) have "fst (update_status (E_client E) ?tmp w) = Inr ()"
    "view (snd (update_status (E_client E) ?tmp w)) = Some (next_status (E_flags E) cfg c)"
    unfolding healthy_config_def with_condition_def next_status_def by blast+
  moreover have "stocked (E_client E) good fresh F {} {} (snd (update_status (E_client E) ?tmp w))"
    using stocked_calls(4) [OF H'(3), of F] stocked_sub [OF w, of F "{}" "{}"]
    by (simp add: status_keeps_def preserves_def)
  ultimately show "\<exists>a w'. update_status (E_client E) ?tmp w = (Inr a, w') \<and>
      stocked (E_client E) good fresh F {} {} w' \<and> view w' = Some (next_status (E_flags E) cfg c)"
    by (metis prod.collapse)
next
  fix u
  show "ends (holding (\<lambda>w. stocked (E_client E) good fresh F {} {} w \<and> view w = Some (next_status (E_flags E) cfg c)) M)
    (refreshCR E cfg)
    (\<lambda>cfg'. holding (\<lambda>w. stocked (E_client E) good fresh F {} {} w \<and> view w = Some (next_status (E_flags E) cfg c)) M)"
    unfolding refreshCR_def
  proof (rule ends_call)
    fix w assume "stocked (E_client E) good fresh F {} {} w \<and> view w = Some (next_status (E_flags E) cfg c)"
    then have w: "stocked (E_client E) good fresh F {} {} w" "view w = Some (next_status (E_flags E) cfg c)" by simp_all
    from cfg healthyD(1) [OF H] have n: "Cfg_namespace cfg = []" "Cfg_name cfg = ResourceWatched (E_flags E)"
      by (simp_all add: copy_of_def)
    from read_config [OF H w] show "\<exists>a w'. get_config (E_client E) (Cfg_namespace cfg) (Cfg_name cfg) w = (Inr a, w') \<and>
        stocked (E_client E) good fresh F {} {} w' \<and> view w' = Some (next_status (E_flags E) cfg c)"
      unfolding n by (metis stocked_sub empty_subsetI subset_refl)
  qed
qed

lemma ends_finish_with:
  assumes "healthy E view good fresh cfg0" and "copy_of cfg0 cfg"
  shows "ends (holding (stocked (E_client E) good fresh F {} {cfg}) M) (finish_with E cfg c)
    (\<lambda>(res, err) s. err = None \<and>
       holding (\<lambda>w. stocked (E_client E) good fresh F {} {} w \<and> view w = Some (next_status (E_flags E) cfg c)) M s)"
  unfolding finish_with_def by (rule ends_catch [OF ends_updateStatus [OF assms]]) simp

section \<open>Validation\<close>

text \<open>Among the objects \<open>F\<close> are the deployments and the webhook configuration that are looked for.\<close>

definition serves :: "string \<Rightarrow> string \<Rightarrow> string \<Rightarrow> string \<Rightarrow> obj set \<Rightarrow> bool" where
  "serves ns controllerName webhookName webhookConfiguration F \<longleftrightarrow>
     (\<forall>n \<in> {controllerName, webhookName}. \<exists>u \<in> F. GetKind u = ''Deployment'' \<and> GetNamespace u = ns \<and> GetName u = n) \<and>
     (\<exists>u \<in> F. GetKind u = ''MutatingWebhookConfiguration'' \<and> GetName u = webhookConfiguration)"

lemma ends_Deployment:
  assumes H: "healthy E view good fresh cfg0" and u: "u \<in> F" "GetKind u = ''Deployment''"
  shows "ends (holding (stocked (E_client E) good fresh F A cs) M) (Deployment (E_client E) (GetName u) (GetNamespace u))
    (\<lambda>b s. b \<and> holding (stocked (E_client E) good fresh F A cs) M s)"
  unfolding Deployment_def
proof (rule ends_catch [OF ends_call [where Q = "\<lambda>d w. rollout_done d = Ok True \<and> stocked (E_client E) good fresh F A cs w"]])
  note H' = healthyD [OF H]
  fix w assume w: "stocked (E_client E) good fresh F A cs w"
  then have "good w" "present (E_client E) u w" using u(1) by (simp_all add: stocked_def)
  with H'(5) u(2) obtain d where "fst (get_deployment (E_client E) (GetNamespace u) (GetName u) w) = Inr d" "rollout_done d = Ok True"
    unfolding healthy_workloads_def by blast
  moreover have "stocked (E_client E) good fresh F A cs (snd (get_deployment (E_client E) (GetNamespace u) (GetName u) w))"
    using stocked_calls(1) [OF H'(3), of F A cs] w by (simp add: reads_keep_def preserves_def)
  ultimately show "\<exists>a w'. get_deployment (E_client E) (GetNamespace u) (GetName u) w = (Inr a, w') \<and>
      rollout_done a = Ok True \<and> stocked (E_client E) good fresh F A cs w'"
    by (metis prod.collapse)
qed (auto simp: ends_def go_lift_def holding_def)

lemma ends_Webhook:
  assumes H: "healthy E view good fresh cfg0" and u: "u \<in> F" "GetKind u = ''MutatingWebhookConfiguration''"
  shows "ends (holding (stocked (E_client E) good fresh F A cs) M) (Webhook (E_client E) (GetName u))
    (\<lambda>b s. b \<and> holding (stocked (E_client E) good fresh F A cs) M s)"
  unfolding Webhook_def
proof (rule ends_catch [OF ends_call [where Q = "\<lambda>d. stocked (E_client E) good fresh F A cs"]])
  note H' = healthyD [OF H]
  fix w assume w: "stocked (E_client E) good fresh F A cs w"
  then have "good w" "present (E_client E) u w" using u(1) by (simp_all add: stocked_def)
  with H'(5) u(2) have "fst (get_webhook (E_client E) (GetName u) w) = Inr ()"
    unfolding healthy_workloads_def by blast
  moreover have "stocked (E_client E) good fresh F A cs (snd (get_webhook (E_client E) (GetName u) w))"
    using stocked_calls(1) [OF H'(3), of F A cs] w by (simp add: reads_keep_def preserves_def)
  ultimately show "\<exists>a w'. get_webhook (E_client E) (GetName u) w = (Inr a, w') \<and> stocked (E_client E) good fresh F A cs w'"
    by (metis prod.collapse)
qed simp

lemma ends_validate_component:
  assumes H: "healthy E view good fresh cfg0" and cfg: "copy_of cfg0 cfg"
    and F: "serves (Cfg_TargetNamespace cfg0) controllerName webhookName wc F"
  shows "ends (holding (stocked (E_client E) good fresh F {} {cfg}) M)
    (validate_component E cfg controllerName webhookName wc failure success)
    (\<lambda>(res, err) s. err = None \<and>
       holding (\<lambda>w. stocked (E_client E) good fresh F {} {} w \<and> view w = Some (next_status (E_flags E) cfg success)) M s)"
proof -
  let ?I = "holding (stocked (E_client E) good fresh F {} {cfg}) M"
  have dep: "ends ?I (Deployment (E_client E) n (Cfg_TargetNamespace cfg)) (\<lambda>b s. b \<and> ?I s)"
    if "n \<in> {controllerName, webhookName}" for n
    using F that cfg ends_Deployment [OF H] unfolding serves_def copy_of_def by metis
  have deps: "ends ?I (validateDeployments E cfg controllerName webhookName) (\<lambda>b s. b \<and> ?I s)"
    unfolding validateDeployments_def
    by (rule ends_bind [OF dep] ends_fact | simp)+
  have hook: "ends ?I (Webhook (E_client E) wc) (\<lambda>b s. b \<and> ?I s)"
    using F ends_Webhook [OF H] unfolding serves_def by metis
  show ?thesis
    unfolding validate_component_def
    by (rule ends_catch [OF deps] ends_catch [OF hook] ends_catch [OF ends_updateStatus [OF H cfg]] ends_fact | simp)+
qed

section \<open>Applying\<close>

text \<open>The manifest as a handler transforms it; it depends on the owner and the target namespace of the Config.\<close>

definition transformed ::
  "'w env \<Rightarrow> Config \<Rightarrow> string \<Rightarrow> (images \<Rightarrow> transformer list) \<Rightarrow> manifest \<Rightarrow> manifest res" where
  "transformed E cfg pre extra m =
     res_bind (imagesFromEnv (Environ (E_platform E)) pre) (\<lambda>images.
       transformManifest E cfg m (extra (ToLowerCaseKeys images)))"

lemma transformed_copy: "copy_of cfg0 cfg \<Longrightarrow> transformed E cfg0 = transformed E cfg"
  by (intro ext) (simp add: transformed_def transformManifest_def rest_transformers_def rb_transformers_def copy_of_def)

lemma transformedE:
  assumes "transformed E cfg0 pre extra m = Ok m'" and "copy_of cfg0 cfg"
  obtains images where "imagesFromEnv (Environ (E_platform E)) pre = Ok images"
    and "transformManifest E cfg m (extra (ToLowerCaseKeys images)) = Ok m'"
  using assms(1) unfolding transformed_copy [OF assms(2)] by (auto simp: transformed_def res_bind_eq_Ok)

lemma memory_read:
  assumes "holding P (cluster.more t) s"
  shows "r_pipeline s = r_pipeline t" "r_triggers s = r_triggers t" "r_addons s = r_addons t"
    "r_community s = r_community t" "pipelineVersion s = pipelineVersion t" "triggersVersion s = triggersVersion t"
  using assms by (cases s; cases t; simp add: holding_def)+

lemma memory_written:
  assumes "holding P (cluster.more t) s"
  shows "holding P (cluster.more (t\<lparr>r_pipeline := m\<rparr>)) (s\<lparr>r_pipeline := m\<rparr>)"
    "holding P (cluster.more (t\<lparr>r_triggers := m\<rparr>)) (s\<lparr>r_triggers := m\<rparr>)"
    "holding P (cluster.more (t\<lparr>r_addons := m\<rparr>)) (s\<lparr>r_addons := m\<rparr>)"
    "holding P (cluster.more (t\<lparr>r_community := m\<rparr>)) (s\<lparr>r_community := m\<rparr>)"
  using assms by (cases s; cases t; simp add: holding_def)+

text \<open>What a handler leaves that has finished: the objects \<open>F\<close> are there and the status has the condition \<open>c\<close> on top.\<close>

definition finished_with ::
  "'w env \<Rightarrow> ('w \<Rightarrow> ConfigStatus option) \<Rightarrow> ('w \<Rightarrow> bool) \<Rightarrow> (Config \<Rightarrow> 'w \<Rightarrow> bool) \<Rightarrow> Config \<Rightarrow> obj set \<Rightarrow> ConfigCondition
   \<Rightarrow> 'w sys \<Rightarrow> result \<times> go_error option \<Rightarrow> 'w sys \<Rightarrow> bool" where
  "finished_with E view good fresh cfg F c s0 v s \<longleftrightarrow> snd v = None \<and>
     holding (\<lambda>w. stocked (E_client E) good fresh F {} {} w \<and> view w = Some (next_status (E_flags E) cfg c)) (cluster.more s0) s"

lemma ends_finished:
  assumes "healthy E view good fresh cfg0" and "copy_of cfg0 cfg"
  shows "ends (holding (stocked (E_client E) good fresh F {} {cfg}) (cluster.more s0)) (finish_with E cfg c)
    (finished_with E view good fresh cfg F c s0)"
  by (rule ends_weaken [OF ends_finish_with [OF assms]]) (auto simp: finished_with_def)

text \<open>The two passes of \<open>Apply\<close> over the parts of a manifest.\<close>

lemma ends_both_parts:
  assumes H: "healthy E view good fresh cfg0" and m: "usable (E_client E) good m"
    and rest: "ends (holding (stocked (E_client E) good fresh (set (resources m)) {} cs) M) act Q"
  shows "ends (holding (stocked (E_client E) good fresh {} A cs) M)
    (go_catch (apply_copy (E_client E) (Filter [mf_Not recreateResource] m)) h1 (\<lambda>u.
     go_catch (apply_copy (E_client E) (Filter [recreateResource] m)) h2 (\<lambda>u. act))) Q"
proof -
  have all: "{} \<union> set (resources (Filter [mf_Not recreateResource] m)) \<union> set (resources (Filter [recreateResource] m)) =
      set (resources m)"
    by auto
  note ap = ends_apply_copy [OF healthyD(3) [OF H] usable_Filter [OF m]]
  show ?thesis
    by (rule ends_catch [OF ap], rule ends_catch [OF ap]) (use rest in \<open>simp only: all\<close>)
qed

lemma ends_applyPipeline:
  assumes H: "healthy E view good fresh cfg0" and cfg: "copy_of cfg0 cfg"
    and t: "transformed E cfg0 PipelinesImagePrefix (\<lambda>images. [DeploymentImages (E_conv E) images]) (r_pipeline s0) = Ok m"
    and m: "usable (E_client E) good m"
  shows "ends (holding (stocked (E_client E) good fresh {} {} {cfg}) (cluster.more s0)) (applyPipeline E cfg)
    (finished_with E view good fresh cfg (set (resources m)) (condition AppliedPipeline (TektonVersion (E_flags E)))
       (s0\<lparr>r_pipeline := m\<rparr>))"
proof -
  obtain images where images: "imagesFromEnv (Environ (E_platform E)) PipelinesImagePrefix = Ok images"
    "transformManifest E cfg (r_pipeline s0) [DeploymentImages (E_conv E) (ToLowerCaseKeys images)] = Ok m"
    by (rule transformedE [OF t cfg])
  show ?thesis
    unfolding applyPipeline_def Let_def
    by (rule ends_bind_lift [OF images(1)], rule ends_bind_get [where v = "r_pipeline s0"],
        erule memory_read, rule ends_catch_lift [OF images(2)],
        rule ends_bind_modify [where P' = "holding (stocked (E_client E) good fresh {} {} {cfg}) (cluster.more (s0\<lparr>r_pipeline := m\<rparr>))"],
        erule memory_written, rule ends_both_parts [OF H m ends_finished [OF H cfg]])
qed

lemma ends_applyTriggers:
  assumes H: "healthy E view good fresh cfg0" and cfg: "copy_of cfg0 cfg"
    and t: "transformed E cfg0 TriggersImagePrefix (\<lambda>images. [DeploymentImages (E_conv E) images]) (r_triggers s0) = Ok m"
    and m: "usable (E_client E) good m"
  shows "ends (holding (stocked (E_client E) good fresh {} {} {cfg}) (cluster.more s0)) (applyTriggers E cfg)
    (finished_with E view good fresh cfg (set (resources m))
       ((condition AppliedTriggers (TektonVersion (E_flags E)))\<lparr>PipelineVersion := pipelineVersion s0\<rparr>) (s0\<lparr>r_triggers := m\<rparr>))"
proof -
  obtain images where images: "imagesFromEnv (Environ (E_platform E)) TriggersImagePrefix = Ok images"
    "transformManifest E cfg (r_triggers s0) [DeploymentImages (E_conv E) (ToLowerCaseKeys images)] = Ok m"
    by (rule transformedE [OF t cfg])
  show ?thesis
    unfolding applyTriggers_def Let_def
    by (rule ends_bind_get [where v = "pipelineVersion s0"], erule memory_read,
        rule ends_bind_lift [OF images(1)], rule ends_bind_get [where v = "r_triggers s0"],
        erule memory_read, rule ends_catch_lift [OF images(2)],
        rule ends_bind_modify [where P' = "holding (stocked (E_client E) good fresh {} {} {cfg}) (cluster.more (s0\<lparr>r_triggers := m\<rparr>))"],
        erule memory_written, rule ends_both_parts [OF H m ends_finished [OF H cfg]])
qed

text \<open>The addons are deleted first.  \<open>Apply\<close> annotates the manifest it is called on.\<close>

lemma ends_deleteAndCreateAddons:
  assumes H: "healthy E view good fresh cfg0" and m: "usable (E_client E) good m" "deletable m"
  shows "ends (holding (stocked (E_client E) good fresh {} {} cs) M) (deleteAndCreateAddons E m)
    (\<lambda>(applied, err) s. err = None \<and> holding (stocked (E_client E) good fresh (set (resources m)) {} cs) M s)"
proof -
  note H' = healthyD(3) [OF H]
  let ?A = "{} \<union> set (resources m)"
  have gone: "ends (holding (stocked (E_client E) good fresh {} ?A cs) M)
      (PollImmediate (E_client E) replaceTimeoutAddons (manifest_absent (E_client E) m))
      (\<lambda>u. holding (stocked (E_client E) good fresh {} ?A cs) M)"
    by (rule ends_PollImmediate [OF ends_manifest_absent [OF H' m(2)]]) simp
  show ?thesis
    unfolding deleteAndCreateAddons_def Let_def
    by (rule ends_catch [OF ends_Delete [OF H' m(2)]], rule ends_catch [OF gone], rule ends_weaken [OF ends_Apply [OF H' m(1)]])
      auto
qed

text \<open>The end of both handlers of addons: \<open>upd\<close> is the assignment to the receiver's manifest.\<close>

lemma ends_addons:
  assumes H: "healthy E view good fresh cfg0" and cfg: "copy_of cfg0 cfg"
    and m: "usable (E_client E) good m" "deletable m"
    and upd: "\<And>P t s a. holding P (cluster.more t) s \<Longrightarrow> holding P (cluster.more (upd a t)) (upd a s)"
  shows "ends (holding (stocked (E_client E) good fresh {} {} {cfg}) (cluster.more s0))
    (go_bind (go_modify (upd m)) (\<lambda>u. go_bind (deleteAndCreateAddons E m) (\<lambda>(applied, err).
       go_bind (go_modify (upd applied)) (\<lambda>u. case err of Some err \<Rightarrow> failed err | None \<Rightarrow> finish_with E cfg c))))
    (\<lambda>v s. \<exists>a. finished_with E view good fresh cfg (set (resources m)) c (upd a (upd m s0)) v s)"
proof -
  let ?st = "\<lambda>F s. holding (stocked (E_client E) good fresh F {} {cfg}) (cluster.more s)"
  let ?post = "\<lambda>v s. \<exists>a. finished_with E view good fresh cfg (set (resources m)) c (upd a (upd m s0)) v s"
  have fin: "ends (?st (set (resources m)) (upd m s0)) (go_bind (go_modify (upd a)) (\<lambda>u. finish_with E cfg c)) ?post" for a
    by (rule ends_bind_modify [where P' = "?st (set (resources m)) (upd a (upd m s0))"], erule upd,
        rule ends_weaken [OF ends_finished [OF H cfg]]) auto
  show ?thesis
    by (rule ends_bind_modify [where P' = "?st {} (upd m s0)"], erule upd,
        rule ends_bind [OF ends_deleteAndCreateAddons [OF H m]])
      (auto simp: fin split: option.split)
qed

lemma ends_applyAddons:
  assumes H: "healthy E view good fresh cfg0" and cfg: "copy_of cfg0 cfg"
    and t: "transformed E cfg0 AddonsImagePrefix (\<lambda>images.
      [InjectLabel LabelProviderType ProviderTypeRedHat Overwrite [''ClusterTask''], TaskImages images]) (r_addons s0) = Ok m"
    and m: "usable (E_client E) good m" "deletable m"
  shows "ends (holding (stocked (E_client E) good fresh {} {} {cfg}) (cluster.more s0)) (applyAddons E cfg)
    (\<lambda>v s. \<exists>a. finished_with E view good fresh cfg (set (resources m))
       ((condition AppliedAddons (TektonVersion (E_flags E)))
          \<lparr>PipelineVersion := pipelineVersion s0, TriggersVersion := triggersVersion s0\<rparr>)
       (s0\<lparr>r_addons := a\<rparr>) v s)"
proof -
  obtain images where images: "imagesFromEnv (Environ (E_platform E)) AddonsImagePrefix = Ok images"
    "transformManifest E cfg (r_addons s0)
       [InjectLabel LabelProviderType ProviderTypeRedHat Overwrite [''ClusterTask''], TaskImages (ToLowerCaseKeys images)] = Ok m"
    by (rule transformedE [OF t cfg])
  note body = ends_addons [where upd = "\<lambda>m s. s\<lparr>r_addons := m\<rparr>", OF H cfg m memory_written(3), simplified]
  show ?thesis
    unfolding applyAddons_def Let_def
    by (rule ends_bind_get [where v = "pipelineVersion s0"], erule memory_read,
        rule ends_bind_get [where v = "triggersVersion s0"], erule memory_read,
        rule ends_bind_lift [OF images(1)], rule ends_bind_get [where v = "r_addons s0"],
        erule memory_read, rule ends_catch_lift [OF images(2)], rule body)
qed

lemma ends_applyCommunityResources:
  assumes H: "healthy E view good fresh cfg0" and cfg: "copy_of cfg0 cfg"
    and t: "transformed E cfg0 AddonsImagePrefix (\<lambda>images. [ReplaceKind ''Task'' ''ClusterTask'',
      InjectLabel LabelProviderType ProviderTypeCommunity Overwrite [], TaskImages images]) (r_community s0) = Ok m"
    and m: "usable (E_client E) good m" "deletable m"
  shows "ends (holding (stocked (E_client E) good fresh {} {} {cfg}) (cluster.more s0)) (applyCommunityResources E cfg)
    (\<lambda>v s. \<exists>a. finished_with E view good fresh cfg (set (resources m))
       ((condition InstalledStatus (TektonVersion (E_flags E)))
          \<lparr>PipelineVersion := pipelineVersion s0, TriggersVersion := triggersVersion s0\<rparr>)
       (s0\<lparr>r_community := a\<rparr>) v s)"
proof -
  obtain images where images: "imagesFromEnv (Environ (E_platform E)) AddonsImagePrefix = Ok images"
    "transformManifest E cfg (r_community s0) [ReplaceKind ''Task'' ''ClusterTask'',
       InjectLabel LabelProviderType ProviderTypeCommunity Overwrite [], TaskImages (ToLowerCaseKeys images)] = Ok m"
    by (rule transformedE [OF t cfg])
  note body = ends_addons [where upd = "\<lambda>m s. s\<lparr>r_community := m\<rparr>", OF H cfg m memory_written(4), simplified]
  show ?thesis
    unfolding applyCommunityResources_def Let_def
    by (rule ends_bind_get [where v = "pipelineVersion s0"], erule memory_read,
        rule ends_bind_get [where v = "triggersVersion s0"], erule memory_read,
        rule ends_bind_lift [OF images(1)], rule ends_bind_get [where v = "r_community s0"],
        erule memory_read, rule ends_catch_lift [OF images(2)], rule body)
qed

end
