(* ===== verification/Installation.thy ===== *)
theory Installation imports Reconciliation Samples "HOL-Library.Sublist" begin

text \<open>
  The status of the watched \<open>Config\<close> over many reconciliations.  The abstract state is the list of the
  conditions the API server stores; the operator's reconciliations and the rest of the world move it.
  \<open>status_store\<close> is what the API server and the client promise about it, \<open>reachable\<close> the runs, and
  \<open>valid_history\<close> the invariant: every condition follows the one before it by \<open>install_step\<close>.
\<close>

section \<open>The store\<close>

text \<open>
  \<open>stored w\<close>: the conditions of the Config \<open>name\<close> in the world \<open>w\<close> ([] when there is none);
  \<open>known w cfg\<close>: \<open>cfg\<close> is a copy of it that the client has handed out (possibly an old one, from the
  cache).  Optimistic concurrency: an update of the status is applied only when the resource version
  it carries is the stored one, so a known copy with that version has the stored conditions; an
  update that returns an error may have been applied.  A call may come when somebody has just
  deleted the Config.
\<close>

definition leaves_status ::
  "('w \<Rightarrow> ConfigCondition list) \<Rightarrow> ('w \<Rightarrow> Config \<Rightarrow> bool) \<Rightarrow> 'w \<Rightarrow> 'w \<Rightarrow> bool" where
  "leaves_status stored known w w' \<longleftrightarrow>
     (stored w' = stored w \<or> stored w' = []) \<and> (\<forall>cfg. known w cfg \<longrightarrow> known w' cfg)"

definition applies_status ::
  "string \<Rightarrow> ('w \<Rightarrow> ConfigCondition list) \<Rightarrow> ('w \<Rightarrow> Config \<Rightarrow> bool) \<Rightarrow> Config \<Rightarrow> 'w \<Rightarrow> 'w \<Rightarrow> bool" where
  "applies_status name stored known tmp w w' \<longleftrightarrow>
     Cfg_name tmp = name \<and> stored w' = Conditions (Status tmp) \<and>
     (\<forall>cfg. known w cfg \<longrightarrow> known w' cfg) \<and>
     (\<forall>cfg. known w cfg \<and> Cfg_resourceVersion cfg = Cfg_resourceVersion tmp \<longrightarrow>
        Conditions (Status cfg) = stored w)"

definition status_store ::
  "'w client \<Rightarrow> string \<Rightarrow> ('w \<Rightarrow> ConfigCondition list) \<Rightarrow> ('w \<Rightarrow> Config \<Rightarrow> bool) \<Rightarrow> bool" where
  "status_store C name stored known \<longleftrightarrow>
     (\<forall>ns n w. leaves_status stored known w (snd (get_config C ns n w))) \<and>
     (\<forall>ns n w cfg w'. get_config C ns n w = (Inr cfg, w') \<longrightarrow>
        Cfg_name cfg = n \<and> (n = name \<longrightarrow> known w' cfg)) \<and>
     (\<forall>tmp w. leaves_status stored known w (snd (update_status C tmp w)) \<or>
        applies_status name stored known tmp w (snd (update_status C tmp w))) \<and>
     (\<forall>ns n w. leaves_status stored known w (snd (get_deployment C ns n w))) \<and>
     (\<forall>n w. leaves_status stored known w (snd (get_webhook C n w))) \<and>
     (\<forall>u w. leaves_status stored known w (snd (get_obj C u w))) \<and>
     (\<forall>u w. leaves_status stored known w (snd (create_obj C u w))) \<and>
     (\<forall>u w. leaves_status stored known w (snd (update_obj C u w))) \<and>
     (\<forall>b u w. leaves_status stored known w (snd (delete_obj C b u w))) \<and>
     (\<forall>n w. leaves_status stored known w (snd (poll_ticks C n w)))"

section \<open>The invariant\<close>

fun valid_history :: "ConfigCondition list \<Rightarrow> bool" where
  "valid_history [] = True"
| "valid_history (c # cs) = (install_step (head_status cs) (Code c) \<and> valid_history cs)"

text \<open>
  Runs: a new Config without conditions; a reconciliation of any request; a change of anything but
  the stored conditions (other objects, the memory of a restarted operator), or the deletion of the
  Config.
\<close>

inductive reachable :: "'w env \<Rightarrow> ('w \<Rightarrow> ConfigCondition list) \<Rightarrow> 'w sys \<Rightarrow> bool"
  for E :: "'w env" and stored :: "'w \<Rightarrow> ConfigCondition list" where
  start: "stored (world s) = [] \<Longrightarrow> reachable E stored s"
| reconcile: "reachable E stored s \<Longrightarrow> Reconcile E req s = (r, s') \<Longrightarrow> reachable E stored s'"
| environment: "reachable E stored s \<Longrightarrow> stored (world s') \<in> {stored (world s), []} \<Longrightarrow>
     reachable E stored s'"

text \<open>
  The relation between two moments of a reconciliation that works on the copy \<open>base\<close> (if on any).
\<close>

definition history_kept ::
  "('w \<Rightarrow> ConfigCondition list) \<Rightarrow> ('w \<Rightarrow> Config \<Rightarrow> bool) \<Rightarrow> Config option \<Rightarrow> 'w sys \<Rightarrow> 'w sys \<Rightarrow> bool" where
  "history_kept stored known base s t \<longleftrightarrow>
     (\<forall>x. known (world s) x \<longrightarrow> known (world t) x) \<and>
     ((\<forall>cfg. base = Some cfg \<longrightarrow> known (world s) cfg) \<and> valid_history (stored (world s)) \<longrightarrow>
        valid_history (stored (world t)))"

text \<open>
  The updates that keep it: a condition that follows those of \<open>base\<close>, or the update of another Config.
\<close>

definition harmless :: "string \<Rightarrow> Config option \<Rightarrow> Config \<Rightarrow> bool" where
  "harmless name base tmp \<longleftrightarrow> Cfg_name tmp \<noteq> name \<or>
     (\<exists>cfg c. base = Some cfg \<and> Cfg_resourceVersion tmp = Cfg_resourceVersion cfg \<and>
        Conditions (Status tmp) = c # Conditions (Status cfg) \<and>
        install_step (InstallStatus_of cfg) (Code c))"

lemma step_relation_history: "step_relation (history_kept stored known base)"
  by unfold_locales (auto simp: history_kept_def)

lemma leaves_status_history:
  assumes "leaves_status stored known (world s) (world t)"
  shows "history_kept stored known base s t"
  using assms by (auto simp: leaves_status_def history_kept_def)

lemma applies_status_history:
  assumes "applies_status name stored known tmp (world s) (world t)" and "harmless name base tmp"
  shows "history_kept stored known base s t"
  using assms
  by (fastforce simp: applies_status_def history_kept_def harmless_def InstallStatus_of_def)

lemma world_call: "world (snd (call f ev s)) = snd (f (world s))"
  by (simp add: call_def split: prod.split sum.split)

lemma world_elapse: "world (snd (elapse f s)) = snd (f (world s))"
  by (simp add: elapse_def split: prod.split)

lemma operator_steps_history:
  fixes E :: "'w env"
  assumes "status_store (E_client E) name stored known"
  shows "operator_steps (history_kept stored known base) E (harmless name base)"
proof -
  note keepsI = step_relation.keepsI [OF step_relation_history]
  note C = assms [unfolded status_store_def]
  show ?thesis
  proof (intro operator_steps.intro operator_steps_axioms.intro client_steps.intro
      client_steps_axioms.intro step_relation_history)
    show "step_relation.keeps (history_kept stored known base) (call (update_status (E_client E) tmp) (UpdateStatus tmp))"
      if "harmless name base tmp" for tmp
    proof (rule keepsI)
      fix s :: "'w sys"
      have "leaves_status stored known (world s) (snd (update_status (E_client E) tmp (world s))) \<or>
            applies_status name stored known tmp (world s) (snd (update_status (E_client E) tmp (world s)))"
        using C by blast
      with that show "history_kept stored known base s
          (snd (call (update_status (E_client E) tmp) (UpdateStatus tmp) s))"
        by (auto intro: leaves_status_history applies_status_history simp: world_call)
    qed
  next
    fix f :: "'w sys \<Rightarrow> 'w sys"
    assume "\<And>s. world (f s) = world s \<and> trace (f s) = trace s"
    then show "step_relation.keeps (history_kept stored known base) (go_modify f)"
      by (intro keepsI) (simp add: go_defs history_kept_def)
  qed (rule keepsI, rule leaves_status_history, simp add: world_call world_elapse C)+
qed

lemma writes_harmless:
  assumes "\<And>c. Code c \<in> codes \<Longrightarrow> harmless name base (with_condition (OperatorUUID (E_flags E)) c x)"
    and "status_store (E_client E) name stored known"
  shows "operator_steps.writes E (harmless name base) x codes"
  using assms(1) by (simp add: operator_steps.writes_def [OF operator_steps_history [OF assms(2)]])

text \<open>One reconciliation, of the watched name and of another one.\<close>

lemma valid_history_Reconcile:
  fixes E :: "'w env"
  assumes C: "status_store (E_client E) (ResourceWatched (E_flags E)) stored known"
    and named: "ResourceWatched (E_flags E) \<noteq> []"
    and run: "Reconcile E req s = (r, s')"
    and valid: "valid_history (stored (world s))"
  shows "valid_history (stored (world s'))"
proof -
  let ?name = "ResourceWatched (E_flags E)"
  let ?get = "call (get_config (E_client E) [] req) (GetConfig [] req)"
  note steps = operator_steps_history [OF C] and writes = writes_harmless [OF _ C]
  obtain q w where q: "get_config (E_client E) [] req (world s) = (q, w)"
    by (cases "get_config (E_client E) [] req (world s)")
  have "leaves_status stored known (world s) w"
    using C q by (metis snd_conv status_store_def)
  then have w: "valid_history (stored w)" using valid by (auto simp: leaves_status_def)
  have found: "Cfg_name cfg = req \<and> (req = ?name \<longrightarrow> known w cfg)" if "q = Inr cfg" for cfg
    using C q that by (auto simp: status_store_def)
  have rest: "valid_history (stored (world s'))"
    if "step_relation.keeps (history_kept stored known base) m" and "m t = (r, s')"
      and "world t = w" and "\<And>cfg. base = Some cfg \<Longrightarrow> known w cfg" for base t and m :: "'w handler"
    using step_relation.keepsD [OF step_relation_history that(1,2)] w that(3,4)
    by (simp add: history_kept_def)
  show ?thesis
  proof (cases "req = ?name")
    case True
    show ?thesis
    proof (cases q)
      case (Inl e)
      then show ?thesis
        using run True q Reconcile_lost [of E s e w]
        by (auto intro: rest [of None] operator_steps.keeps_reconcileDeletion [OF steps] simp: go_defs w
              split: if_splits)
    next
      case (Inr cfg)
      have "operator_steps.writes E (harmless ?name (Some cfg)) cfg (Collect (install_step (InstallStatus_of cfg)))"
        by (rule writes) (auto simp: harmless_def)
      then have "step_relation.keeps (history_kept stored known (Some cfg))
                   (go_bind read_versions (\<lambda>u. dispatch E cfg))"
        by (intro step_relation.keeps_bind [OF step_relation_history]
              operator_steps.keeps_read_versions [OF steps] operator_steps.keeps_dispatch [OF steps])
      then show ?thesis
        using run True q Inr Reconcile_found [of E s cfg w] found
        by (auto intro: rest)
    qed
  next
    case False
    have mark: "step_relation.keeps (history_kept stored known None)
        (go_bind (markInvalidResource E cfg) (\<lambda>u. go_return (emptyResult, None)))"
      if "Cfg_name cfg \<noteq> ?name" for cfg
      using that
      by (intro step_relation.keeps_bind [OF step_relation_history]
            step_relation.keeps_return [OF step_relation_history]
            operator_steps.keeps_markInvalidResource [OF steps] writes) (auto simp: harmless_def)
    have zero: "Cfg_name zeroConfig \<noteq> ?name" using named by (simp add: zeroConfig_def)
    show ?thesis
    proof (cases q)
      case (Inl e)
      then show ?thesis
        using run False q w
        by (auto simp: Reconcile_def Let_def go_catch_eq_cases call_def go_return_def
              intro: rest [OF mark [OF zero]] split: if_splits)
    next
      case (Inr cfg)
      then show ?thesis
        using run False q found [OF Inr]
        by (auto simp: Reconcile_def Let_def go_catch_eq_cases call_def
              intro: rest [OF mark [of cfg]])
    qed
  qed
qed

section \<open>Histories\<close>

lemma install_step_not_empty: "\<not> install_step a EmptyStatus"
  by (auto simp: install_step.simps)

text \<open>The statuses since the Config was last installed, newest first.\<close>

definition current_run :: "ConfigCondition list \<Rightarrow> InstallStatus list" where
  "current_run cs = takeWhile (\<lambda>a. a \<noteq> InstalledStatus) (List.map Code cs)"

lemma current_run_Cons [simp]:
  "current_run (c # cs) = (if Code c = InstalledStatus then [] else Code c # current_run cs)"
  by (simp add: current_run_def)

text \<open>A stage that is being retried began right after the stage before it.\<close>

lemma history_stage:
  assumes "valid_history cs" and "head_status cs \<in> {prior, bad}"
    and "prior \<noteq> EmptyStatus" and "bad \<notin> {EmptyStatus, InstalledStatus}"
    and "\<And>a. install_step a bad \<Longrightarrow> a \<in> {prior, bad}"
    and "\<And>d ds. valid_history (d # ds) \<Longrightarrow> Code d = prior \<Longrightarrow> subseq xs (current_run (d # ds))"
  shows "subseq xs (current_run cs)"
  using assms
proof (induction cs)
  case (Cons c cs)
  show ?case
  proof (cases "Code c = prior")
    case True
    with Cons.prems show ?thesis by blast
  next
    case False
    with Cons.prems have "head_status cs \<in> {prior, bad}" "valid_history cs" "Code c = bad" by auto
    with Cons have "subseq xs (current_run cs)" "Code c \<noteq> InstalledStatus" by auto
    then show ?thesis by (simp add: list_emb_Cons)
  qed
qed auto

text \<open>The same, for the condition that ends the stage.\<close>

lemma history_extend:
  assumes "valid_history (c # cs)" and "\<And>a. install_step a (Code c) \<Longrightarrow> a \<in> {prior, bad}"
    and "prior \<noteq> EmptyStatus" and "bad \<notin> {EmptyStatus, InstalledStatus}"
    and "\<And>a. install_step a bad \<Longrightarrow> a \<in> {prior, bad}"
    and "\<And>d ds. valid_history (d # ds) \<Longrightarrow> Code d = prior \<Longrightarrow> subseq xs (current_run (d # ds))"
  shows "subseq xs (current_run cs)"
  using assms by (intro history_stage [of cs prior bad]) auto

lemma history_validated_pipeline:
  "valid_history (c # cs) \<Longrightarrow> Code c = ValidatedPipeline \<Longrightarrow>
   subseq [ValidatedPipeline, AppliedPipeline]
     (current_run (c # cs))"
  by (drule history_extend [where prior = AppliedPipeline and bad = PipelineValidateError
        and xs = "[AppliedPipeline]"])
    (auto simp: install_step.simps simp del: valid_history.simps)

lemma history_applied_triggers:
  "valid_history (c # cs) \<Longrightarrow> Code c = AppliedTriggers \<Longrightarrow>
   subseq [AppliedTriggers, ValidatedPipeline, AppliedPipeline]
     (current_run (c # cs))"
  by (drule history_extend [where prior = ValidatedPipeline and bad = TriggersError
        and xs = "[ValidatedPipeline, AppliedPipeline]"])
    (auto simp: install_step.simps simp del: valid_history.simps dest: history_validated_pipeline)

lemma history_validated_triggers:
  "valid_history (c # cs) \<Longrightarrow> Code c = ValidatedTriggers \<Longrightarrow>
   subseq [ValidatedTriggers, AppliedTriggers, ValidatedPipeline, AppliedPipeline]
     (current_run (c # cs))"
  by (drule history_extend [where prior = AppliedTriggers and bad = TriggersValidateError
        and xs = "[AppliedTriggers, ValidatedPipeline, AppliedPipeline]"])
    (auto simp: install_step.simps simp del: valid_history.simps dest: history_applied_triggers)

lemma history_applied_addons:
  "valid_history (c # cs) \<Longrightarrow> Code c = AppliedAddons \<Longrightarrow>
   subseq [AppliedAddons, ValidatedTriggers, AppliedTriggers, ValidatedPipeline, AppliedPipeline]
     (current_run (c # cs))"
  by (drule history_extend [where prior = ValidatedTriggers and bad = AddonsError
        and xs = "[ValidatedTriggers, AppliedTriggers, ValidatedPipeline, AppliedPipeline]"])
    (auto simp: install_step.simps simp del: valid_history.simps dest: history_validated_triggers)

lemma history_installed:
  "valid_history (c # cs) \<Longrightarrow> Code c = InstalledStatus \<Longrightarrow>
   subseq [AppliedAddons, ValidatedTriggers, AppliedTriggers, ValidatedPipeline, AppliedPipeline]
     (current_run cs)"
  by (drule history_extend [where prior = AppliedAddons and bad = CommunityResourcesError
        and xs = "[AppliedAddons, ValidatedTriggers, AppliedTriggers, ValidatedPipeline, AppliedPipeline]"])
    (auto simp: install_step.simps simp del: valid_history.simps dest: history_applied_addons)

lemma reachable_valid:
  assumes "reachable E stored s"
    and "status_store (E_client E) (ResourceWatched (E_flags E)) stored known"
    and "ResourceWatched (E_flags E) \<noteq> []"
  shows "valid_history (stored (world s))"
  using assms
  by (induction rule: reachable.induct) (auto dest: valid_history_Reconcile)

section \<open>The sample cluster keeps the contract\<close>

definition sample_stored :: "store \<Rightarrow> ConfigCondition list" where
  "sample_stored st = (case st_config st of
     Some cfg \<Rightarrow> if Cfg_name cfg = ClusterCRName then Conditions (Status cfg) else [] | None \<Rightarrow> [])"

text \<open>Versions only grow, so a copy with the stored version is the stored object.\<close>

definition sample_known :: "store \<Rightarrow> Config \<Rightarrow> bool" where
  "sample_known st x = (case st_config st of
     Some cfg \<Rightarrow> length (Cfg_resourceVersion x) \<le> length (Cfg_resourceVersion cfg) \<and>
       (Cfg_resourceVersion x = Cfg_resourceVersion cfg \<longrightarrow> Conditions (Status x) = sample_stored st)
   | None \<Rightarrow> True)"

lemma same_config_leaves:
  "st_config st' = st_config st \<Longrightarrow> leaves_status sample_stored sample_known st st'"
  by (auto simp: leaves_status_def sample_stored_def sample_known_def split: option.splits)

lemma sample_status_store: "status_store sample_client ClusterCRName sample_stored sample_known"
proof -
  have calls: "st_config (snd (sample_get_config ns n st)) = st_config st"
    "st_config (snd (sample_get u st)) = st_config st"
    "st_config (snd (sample_create u st)) = st_config st"
    "st_config (snd (sample_update u st)) = st_config st"
    "st_config (snd (sample_delete b u st)) = st_config st" for ns n u b st
    by (simp_all add: sample_get_config_def sample_get_def sample_create_def sample_update_def
        sample_delete_def split: option.split)
  have reads: "Cfg_name cfg = n \<and> (n = ClusterCRName \<longrightarrow> sample_known st' cfg)"
    if "sample_get_config ns n st = (Inr cfg, st')" for ns n st cfg st'
    using that by (auto simp: sample_get_config_def sample_known_def sample_stored_def
        split: option.splits if_splits)
  have updates: "leaves_status sample_stored sample_known st (snd (sample_update_status tmp st)) \<or>
      applies_status ClusterCRName sample_stored sample_known tmp st (snd (sample_update_status tmp st))"
    for tmp st
    by (cases "st_config st")
      (auto simp: sample_update_status_def leaves_status_def applies_status_def sample_known_def
         sample_stored_def)
  show ?thesis
    unfolding status_store_def
    by (auto simp: sample_client_def reads updates intro!: same_config_leaves simp: calls)
qed

section \<open>Properties\<close>

text \<open>C2:
  Whatever calls fail and in whatever order requests arrive, the conditions the API server stores form a
  path of the installation's state machine, as long as the API server checks resource versions.
\<close>

theorem stored_history_valid:
  assumes "reachable E stored s"
    and "status_store (E_client E) (ResourceWatched (E_flags E)) stored known"
    and "ResourceWatched (E_flags E) \<noteq> []"
  shows "valid_history (stored (world s))"
  using assms by (rule reachable_valid)

lemma sample_start: "reachable sample_env sample_stored (sample_sys (Some sample_config))"
  by (rule reachable.start)
    (simp add: sample_sys_def sample_stored_def sample_config_def)

lemma sample_reachable:
  "reachable sample_env sample_stored s \<Longrightarrow>
   reachable sample_env sample_stored (snd (Reconcile sample_env ClusterCRName s))"
  by (rule reachable.reconcile [OF _ prod.collapse [symmetric]])

text \<open>Eight reconciliations install everything on the sample cluster.\<close>

fun reconciliations :: "'w env \<Rightarrow> nat \<Rightarrow> 'w sys \<Rightarrow> 'w sys" where
  "reconciliations E 0 s = s"
| "reconciliations E (Suc n) s =
     reconciliations E n (snd (Reconcile E (ResourceWatched (E_flags E)) s))"

lemma sample_reconciliations_reachable:
  "reachable sample_env sample_stored s \<Longrightarrow>
   reachable sample_env sample_stored (reconciliations sample_env n s)"
  by (induction n arbitrary: s) (simp_all add: sample_names sample_reachable)

text \<open>The reconciliation in the state \<open>s\<close> returns no error and writes a status.\<close>

definition gets_through :: "'w env \<Rightarrow> ('w \<Rightarrow> ConfigCondition list) \<Rightarrow> 'w sys \<Rightarrow> bool" where
  "gets_through E stored s \<longleftrightarrow>
     (case Reconcile E (ResourceWatched (E_flags E)) s of
        (Ok (res, None), s') \<Rightarrow> stored (world s') \<noteq> stored (world s) | _ \<Rightarrow> False)"

text \<open>The conditions that are stored after \<open>n\<close> reconciliations, if all of them get through.\<close>

fun install_run :: "'w env \<Rightarrow> ('w \<Rightarrow> ConfigCondition list) \<Rightarrow> nat \<Rightarrow> 'w sys \<Rightarrow> ConfigCondition list option" where
  "install_run E stored 0 s = Some (stored (world s))"
| "install_run E stored (Suc n) s =
     (case Reconcile E (ResourceWatched (E_flags E)) s of
        (Ok (res, None), s') \<Rightarrow>
          if stored (world s') \<noteq> stored (world s) then install_run E stored n s' else None
      | _ \<Rightarrow> None)"

lemma install_run_Suc:
  assumes "install_run E stored (Suc n) s = Some cs"
  shows "gets_through E stored s"
    and "install_run E stored n (snd (Reconcile E (ResourceWatched (E_flags E)) s)) = Some cs"
  using assms by (auto simp: gets_through_def split: prod.splits res.splits option.splits if_splits)

lemma install_run_gets_through:
  "install_run E stored n s = Some cs \<Longrightarrow> i < n \<Longrightarrow> gets_through E stored (reconciliations E i s)"
proof (induction n arbitrary: s i)
  case (Suc n)
  from install_run_Suc [OF Suc.prems(1)] Suc.IH Suc.prems(2) show ?case by (cases i) simp_all
qed simp

lemma install_run_stored:
  "install_run E stored n s = Some cs \<Longrightarrow> stored (world (reconciliations E n s)) = cs"
proof (induction n arbitrary: s)
  case (Suc n)
  from Suc.IH [OF install_run_Suc(2) [OF Suc.prems]] show ?case by simp
qed simp

lemma sample_install_run:
  "install_run sample_env sample_stored 6 (sample_sys (Some sample_config)) = Some
     [\<lparr>Code = InstalledStatus, Details = [], CVersion = ''v1'', PipelineVersion = ''v9'', TriggersVersion = ''v9''\<rparr>,
      \<lparr>Code = AppliedAddons, Details = [], CVersion = ''v1'', PipelineVersion = ''v9'', TriggersVersion = ''v9''\<rparr>,
      \<lparr>Code = ValidatedTriggers, Details = [], CVersion = ''v1'', PipelineVersion = ''v9'', TriggersVersion = ''v9''\<rparr>,
      \<lparr>Code = AppliedTriggers, Details = [], CVersion = ''v1'', PipelineVersion = ''v9'', TriggersVersion = []\<rparr>,
      \<lparr>Code = ValidatedPipeline, Details = [], CVersion = ''v1'', PipelineVersion = ''v9'', TriggersVersion = []\<rparr>,
      \<lparr>Code = AppliedPipeline, Details = [], CVersion = ''v1'', PipelineVersion = [], TriggersVersion = []\<rparr>]"
  by code_simp

lemmas sample_installation = install_run_stored [OF sample_install_run]

theorem stored_history_valid_witness:
  "valid_history (sample_stored (world (reconciliations sample_env 6 (sample_sys (Some sample_config)))))"
  by (rule stored_history_valid [OF sample_reconciliations_reachable [OF sample_start],
        unfolded sample_names, OF sample_status_store sample_names(3)])

text \<open>C1:
  A Config never says it is installed unless every stage has succeeded, in order, since it was last
  installed: the pipeline was applied and validated, then the triggers were applied and validated, then
  the addons were applied.
\<close>

theorem installed_means_all_stages:
  assumes "reachable E stored s"
    and "status_store (E_client E) (ResourceWatched (E_flags E)) stored known"
    and "ResourceWatched (E_flags E) \<noteq> []"
    and "stored (world s) = c # cs" and "Code c = InstalledStatus"
  shows "subseq [AppliedAddons, ValidatedTriggers, AppliedTriggers, ValidatedPipeline, AppliedPipeline]
     (current_run cs)"
  using reachable_valid [OF assms(1-3)] assms(4,5) by (intro history_installed [of c cs]) simp_all

theorem installed_means_all_stages_witness:
  "\<exists>c cs. sample_stored (world (reconciliations sample_env 6 (sample_sys (Some sample_config)))) = c # cs \<and>
     Code c = InstalledStatus \<and>
     subseq [AppliedAddons, ValidatedTriggers, AppliedTriggers, ValidatedPipeline, AppliedPipeline]
       (current_run cs)"
proof -
  obtain c cs where c: "sample_stored (world (reconciliations sample_env 6 (sample_sys (Some sample_config)))) = c # cs"
    "Code c = InstalledStatus"
    by (simp add: sample_installation)
  with installed_means_all_stages [OF sample_reconciliations_reachable [OF sample_start],
        unfolded sample_names, OF sample_status_store sample_names(3) this] show ?thesis by blast
qed

end
