(* ===== verification/Progress.thy ===== *)
theory Progress imports Installation begin

text \<open>
  The installation ends.  When nobody else writes the status of the watched \<open>Config\<close> (\<open>single_writer\<close>),
  every reconciliation leaves the stored conditions alone or puts one condition in front of them; one
  that returns without an error and writes moves the installation to the next of its six stages, one
  that fails leaves it in its stage.  So as many reconciliations that get through as there are
  stages left reach the status \<open>InstalledStatus\<close>.
\<close>

section \<open>Stages\<close>

text \<open>A stage begins with the status of the one before it and is tried again from its error status.\<close>

fun stage :: "InstallStatus \<Rightarrow> nat" where
  "stage EmptyStatus = 0"
| "stage PipelineApplyError = 0"
| "stage AppliedPipeline = 1"
| "stage PipelineValidateError = 1"
| "stage ValidatedPipeline = 2"
| "stage TriggersError = 2"
| "stage AppliedTriggers = 3"
| "stage TriggersValidateError = 3"
| "stage ValidatedTriggers = 4"
| "stage AddonsError = 4"
| "stage AppliedAddons = 5"
| "stage CommunityResourcesError = 5"
| "stage InstalledStatus = 6"
| "stage InvalidResource = 7"
| "stage (OtherStatus x) = 7"

lemma stage_installed: "stage c = 6 \<longleftrightarrow> c = InstalledStatus"
  by (cases c) auto

lemma stage_step:
  "install_step a b \<Longrightarrow> a \<noteq> InstalledStatus \<Longrightarrow>
   stage b = (if is_error_status b then stage a else Suc (stage a))"
  by (auto simp: install_step.simps is_error_status_def)

section \<open>One writer\<close>

text \<open>
  \<open>stored w\<close> are the conditions of the Config \<open>name\<close>.  A read returns them, no call but an update of
  the status changes them, an update that is accepted stores what it was sent, and one that returns an
  error has been applied or not.
\<close>

definition keeps_stored :: "('w \<Rightarrow> ConfigCondition list) \<Rightarrow> ('w \<Rightarrow> 'a \<times> 'w) \<Rightarrow> bool" where
  "keeps_stored stored f \<longleftrightarrow> (\<forall>w. stored (snd (f w)) = stored w)"

definition stores ::
  "string \<Rightarrow> Config \<Rightarrow> go_error option \<Rightarrow> ConfigCondition list \<Rightarrow> ConfigCondition list \<Rightarrow> bool" where
  "stores name tmp e h h' \<longleftrightarrow>
     (if Cfg_name tmp \<noteq> name then h' = h
      else case e of None \<Rightarrow> h' = Conditions (Status tmp) | Some x \<Rightarrow> h' \<in> {h, Conditions (Status tmp)})"

definition error_of :: "go_error + 'a \<Rightarrow> go_error option" where
  "error_of r = (case r of Inl e \<Rightarrow> Some e | Inr a \<Rightarrow> None)"

definition single_writer :: "'w client \<Rightarrow> string \<Rightarrow> ('w \<Rightarrow> ConfigCondition list) \<Rightarrow> bool" where
  "single_writer C name stored \<longleftrightarrow>
     (\<forall>ns n. keeps_stored stored (get_config C ns n)) \<and>
     (\<forall>ns n w cfg. fst (get_config C ns n w) = Inr cfg \<longrightarrow>
        Cfg_name cfg = n \<and> (n = name \<longrightarrow> Conditions (Status cfg) = stored w)) \<and>
     (\<forall>tmp w. stores name tmp (error_of (fst (update_status C tmp w))) (stored w)
        (stored (snd (update_status C tmp w)))) \<and>
     (\<forall>ns n. keeps_stored stored (get_deployment C ns n)) \<and>
     (\<forall>n. keeps_stored stored (get_webhook C n)) \<and>
     (\<forall>u. keeps_stored stored (get_obj C u)) \<and>
     (\<forall>u. keeps_stored stored (create_obj C u)) \<and>
     (\<forall>u. keeps_stored stored (update_obj C u)) \<and>
     (\<forall>b u. keeps_stored stored (delete_obj C b u)) \<and>
     (\<forall>n. keeps_stored stored (poll_ticks C n))"

lemma keeps_storedD: "keeps_stored stored f \<Longrightarrow> f w = (r, w') \<Longrightarrow> stored w' = stored w"
  by (metis keeps_stored_def snd_conv)

text \<open>What a list of status updates makes of the stored conditions.\<close>

fun recorded ::
  "string \<Rightarrow> (Config \<times> go_error option) list \<Rightarrow> ConfigCondition list \<Rightarrow> ConfigCondition list \<Rightarrow> bool" where
  "recorded name [] h h' = (h' = h)"
| "recorded name ((tmp, e) # ws) h h' = (\<exists>h1. stores name tmp e h h1 \<and> recorded name ws h1 h')"

lemma recorded_append:
  "recorded name (ws @ vs) h h' \<longleftrightarrow> (\<exists>h1. recorded name ws h h1 \<and> recorded name vs h1 h')"
proof (induction ws arbitrary: h)
  case (Cons x ws)
  obtain tmp e where "x = (tmp, e)" by (cases x)
  then show ?case by (simp add: Cons.IH) blast
qed simp

definition follows_trace ::
  "string \<Rightarrow> ('w \<Rightarrow> ConfigCondition list) \<Rightarrow> 'w sys \<Rightarrow> 'w sys \<Rightarrow> bool" where
  "follows_trace name stored s t \<longleftrightarrow>
     (\<exists>es. trace t = trace s @ es \<and>
        recorded name (status_writes es) (stored (world s)) (stored (world t)))"

lemma step_relation_follows: "step_relation (follows_trace name stored)"
proof
  fix s t u
  show "follows_trace name stored s s" by (auto simp: follows_trace_def)
  assume "follows_trace name stored s t" and "follows_trace name stored t u"
  then obtain es fs where "trace t = trace s @ es" "trace u = trace t @ fs"
      "recorded name (status_writes es) (stored (world s)) (stored (world t))"
      "recorded name (status_writes fs) (stored (world t)) (stored (world u))"
    by (auto simp: follows_trace_def)
  then show "follows_trace name stored s u"
    unfolding follows_trace_def by (intro exI [of _ "es @ fs"]) (auto simp: recorded_append)
qed

lemma follows_call:
  assumes "\<And>e. status_write (ev e) = []" and "keeps_stored stored f"
  shows "follows_trace name stored s (snd (call f ev s))"
  using assms(1) keeps_storedD [OF assms(2)]
  by (auto simp: follows_trace_def call_def split: prod.splits sum.splits)

lemma operator_steps_follows:
  fixes E :: "'w env"
  assumes "single_writer (E_client E) name stored"
  shows "operator_steps (follows_trace name stored) E (\<lambda>tmp. True)"
proof -
  note keepsI = step_relation.keepsI [OF step_relation_follows]
  note C = assms [unfolded single_writer_def]
  show ?thesis
  proof (intro operator_steps.intro operator_steps_axioms.intro client_steps.intro
      client_steps_axioms.intro step_relation_follows)
    show "step_relation.keeps (follows_trace name stored)
        (call (update_status (E_client E) tmp) (UpdateStatus tmp))" for tmp
    proof (rule keepsI)
      fix s :: "'w sys"
      have "stores name tmp (error_of (fst (update_status (E_client E) tmp (world s)))) (stored (world s))
          (stored (snd (update_status (E_client E) tmp (world s))))"
        using C by blast
      then show "follows_trace name stored s (snd (call (update_status (E_client E) tmp) (UpdateStatus tmp) s))"
        by (auto simp: follows_trace_def call_def error_of_def split: prod.splits sum.splits)
    qed
  next
    fix f :: "'w sys \<Rightarrow> 'w sys"
    assume "\<And>s. world (f s) = world s \<and> trace (f s) = trace s"
    then show "step_relation.keeps (follows_trace name stored) (go_modify f)"
      by (intro keepsI) (simp add: go_defs follows_trace_def)
  next
    have "keeps_stored stored (poll_ticks (E_client E) n)" for n using C by blast
    then show "step_relation.keeps (follows_trace name stored) (elapse (poll_ticks (E_client E) n))" for n
      by (intro keepsI) (auto simp: follows_trace_def elapse_def split: prod.splits dest: keeps_storedD)
  qed (rule keepsI, rule follows_call, simp, simp add: C)+
qed

section \<open>One reconciliation\<close>

lemma Reconcile_recorded:
  assumes C: "single_writer (E_client E) (ResourceWatched (E_flags E)) stored"
    and found: "get_config (E_client E) [] (ResourceWatched (E_flags E)) (world s) = (Inr cfg, w)"
    and run: "Reconcile E (ResourceWatched (E_flags E)) s = (r, s')"
  obtains ws where "recorded (ResourceWatched (E_flags E)) ws (stored (world s)) (stored (world s'))"
    and "reconciled (E_flags E) cfg r ws" and "Conditions (Status cfg) = stored (world s)"
    and "Cfg_name cfg = ResourceWatched (E_flags E)"
proof -
  let ?name = "ResourceWatched (E_flags E)"
  let ?t = "s\<lparr>world := w, trace := trace s @ [GetConfig [] ?name None]\<rparr>"
  note steps = operator_steps_follows [OF C]
  have cfg: "Conditions (Status cfg) = stored (world s)" "Cfg_name cfg = ?name" "stored w = stored (world s)"
    using C found by (auto simp: single_writer_def dest: keeps_storedD) (metis fst_conv)+
  have run': "go_bind read_versions (\<lambda>u. dispatch E cfg) ?t = (r, s')"
    using run by (simp add: Reconcile_found [OF found])
  have "operator_steps.writes E (\<lambda>tmp. True) cfg codes" for codes
    by (simp add: operator_steps.writes_def [OF steps])
  then have "step_relation.keeps (follows_trace ?name stored) (go_bind read_versions (\<lambda>u. dispatch E cfg))"
    by (intro step_relation.keeps_bind [OF step_relation_follows]
          operator_steps.keeps_read_versions [OF steps] operator_steps.keeps_dispatch [OF steps])
  from step_relation.keepsD [OF step_relation_follows this run'] cfg(3)
  obtain es where es: "trace s' = trace s @ GetConfig [] ?name None # es"
      "recorded ?name (status_writes es) (stored (world s)) (stored (world s'))"
    by (auto simp: follows_trace_def)
  obtain fs where "trace s' = trace s @ GetConfig [] ?name None # fs"
      "reconciled (E_flags E) cfg r (status_writes fs)"
    by (rule Reconcile_found_outcome [OF found run])
  with es cfg show ?thesis by (intro that [of "status_writes es"]) auto
qed

text \<open>The reconciliation leaves the stored conditions alone or adds one to them.\<close>

definition advances :: "flags \<Rightarrow> bool \<Rightarrow> ConfigCondition list \<Rightarrow> ConfigCondition list \<Rightarrow> bool" where
  "advances F failed h h' \<longleftrightarrow>
     (\<exists>c. h' = c # h \<and> CVersion c = TektonVersion F \<and> install_step (head_status h) (Code c) \<and>
        (is_error_status (Code c) \<longrightarrow> failed))"

lemma reconciled_recorded:
  assumes "reconciled F cfg r ws" and "recorded name ws h h'" and "Conditions (Status cfg) = h"
    and "Cfg_name cfg = name"
  shows "h' = h \<or> advances F (\<forall>res. r \<noteq> Ok (res, None)) h h'"
proof (cases r)
  case (Ok v)
  obtain res err where v: "v = (res, err)" by (cases v)
  show ?thesis
  proof (cases "ws = []")
    case False
    with assms(1) Ok v obtain c e where c: "ws = [(with_condition (OperatorUUID F) c cfg, e)]"
        "CVersion c = TektonVersion F" "install_step (InstallStatus_of cfg) (Code c)"
        "is_error_status (Code c) \<longrightarrow> err \<noteq> None"
      by auto
    with assms(2-4) have "h' = h \<or> h' = c # h"
      by (cases e) (auto simp: stores_def)
    with c Ok v assms(3) show ?thesis by (auto simp: advances_def InstallStatus_of_def)
  qed (use assms(2) in simp)
qed (use assms(1,2) in auto)

lemma Reconcile_advances:
  assumes "single_writer (E_client E) (ResourceWatched (E_flags E)) stored"
    and "get_config (E_client E) [] (ResourceWatched (E_flags E)) (world s) = (Inr cfg, w)"
    and "Reconcile E (ResourceWatched (E_flags E)) s = (r, s')"
  shows "stored (world s') = stored (world s) \<or>
     advances (E_flags E) (\<forall>res. r \<noteq> Ok (res, None)) (stored (world s)) (stored (world s'))"
  by (rule Reconcile_recorded [OF assms]) (rule reconciled_recorded)

text \<open>A Config that cannot be read keeps its conditions.\<close>

lemma Reconcile_unread:
  assumes C: "single_writer (E_client E) (ResourceWatched (E_flags E)) stored"
    and lost: "get_config (E_client E) [] (ResourceWatched (E_flags E)) (world s) = (Inl e, w)"
    and run: "Reconcile E (ResourceWatched (E_flags E)) s = (r, s')"
  shows "stored (world s') = stored (world s)"
proof -
  let ?t = "s\<lparr>world := w, trace := trace s @ [GetConfig [] (ResourceWatched (E_flags E)) (Some e)]\<rparr>"
  have w: "stored w = stored (world s)"
    using C lost by (auto simp: single_writer_def dest: keeps_storedD)
  have rest: "(if IsNotFound e then reconcileDeletion E else go_return (emptyResult, Some e)) ?t = (r, s')"
    using run by (simp add: Reconcile_lost [OF lost])
  show ?thesis
  proof (cases "IsNotFound e")
    case True
    with rest have del: "reconcileDeletion E ?t = (r, s')" by simp
    obtain es where "trace s' = trace ?t @ es" "status_writes es = []"
      by (rule quietE [OF st.keeps_reconcileDeletion del])
    moreover have "follows_trace (ResourceWatched (E_flags E)) stored ?t s'"
      by (rule step_relation.keepsD [OF step_relation_follows
            operator_steps.keeps_reconcileDeletion [OF operator_steps_follows [OF C]] del])
    ultimately show ?thesis using w by (auto simp: follows_trace_def)
  qed (use rest w in \<open>auto simp: go_return_def\<close>)
qed

lemma Reconcile_advances_or_stays:
  assumes "single_writer (E_client E) (ResourceWatched (E_flags E)) stored"
    and "Reconcile E (ResourceWatched (E_flags E)) s = (r, s')"
  shows "stored (world s') = stored (world s) \<or>
     advances (E_flags E) (\<forall>res. r \<noteq> Ok (res, None)) (stored (world s)) (stored (world s'))"
proof (cases "get_config (E_client E) [] (ResourceWatched (E_flags E)) (world s)")
  case (Pair q w)
  then show ?thesis
    using Reconcile_unread [OF assms(1) _ assms(2)] Reconcile_advances [OF assms(1) _ assms(2)]
    by (cases q) auto
qed

section \<open>Many reconciliations\<close>

lemma gets_through_stage:
  assumes "single_writer (E_client E) (ResourceWatched (E_flags E)) stored" and "gets_through E stored s"
    and "stage (head_status (stored (world s))) < 6"
  obtains c where "stored (world (snd (Reconcile E (ResourceWatched (E_flags E)) s))) = c # stored (world s)"
    and "CVersion c = TektonVersion (E_flags E)"
    and "stage (Code c) = Suc (stage (head_status (stored (world s))))"
proof -
  let ?run = "Reconcile E (ResourceWatched (E_flags E)) s"
  from assms(2) obtain res where ok: "?run = (Ok (res, None), snd ?run)"
      "stored (world (snd ?run)) \<noteq> stored (world s)"
    by (auto simp: gets_through_def split: prod.splits res.splits option.splits)
  from Reconcile_advances_or_stays [OF assms(1) ok(1)] ok(2)
  obtain c where c: "stored (world (snd ?run)) = c # stored (world s)" "CVersion c = TektonVersion (E_flags E)"
      "install_step (head_status (stored (world s))) (Code c)" "\<not> is_error_status (Code c)"
    by (auto simp: advances_def)
  from assms(3) have "head_status (stored (world s)) \<noteq> InstalledStatus" using stage_installed by force
  from stage_step [OF c(3) this] c show ?thesis by (intro that) simp_all
qed

lemma reconciliations_Suc:
  "reconciliations E (Suc n) s = snd (Reconcile E (ResourceWatched (E_flags E)) (reconciliations E n s))"
  by (induction n arbitrary: s) simp_all

lemma stage_after:
  assumes "single_writer (E_client E) (ResourceWatched (E_flags E)) stored"
    and "\<forall>i < n. gets_through E stored (reconciliations E i s)"
    and "stage (head_status (stored (world s))) + n \<le> 6"
  shows "stage (head_status (stored (world (reconciliations E n s)))) = stage (head_status (stored (world s))) + n \<and>
     (0 < n \<longrightarrow> CVersion (hd (stored (world (reconciliations E n s)))) = TektonVersion (E_flags E)) \<and>
     length (stored (world (reconciliations E n s))) = length (stored (world s)) + n"
  using assms(2,3)
proof (induction n)
  case (Suc n)
  then have IH: "stage (head_status (stored (world (reconciliations E n s)))) = stage (head_status (stored (world s))) + n"
    "length (stored (world (reconciliations E n s))) = length (stored (world s)) + n"
    by simp_all
  from Suc.prems(1) have "gets_through E stored (reconciliations E n s)" by simp
  from gets_through_stage [OF assms(1) this] IH Suc.prems(2) obtain c where
    "stored (world (reconciliations E (Suc n) s)) = c # stored (world (reconciliations E n s))"
    "CVersion c = TektonVersion (E_flags E)"
    "stage (Code c) = Suc (stage (head_status (stored (world (reconciliations E n s)))))"
    by (auto simp del: reconciliations.simps simp: reconciliations_Suc)
  with IH show ?case by simp
qed simp

section \<open>Properties\<close>

text \<open>
  A reconciliation never takes an unfinished installation back: it leaves the stored conditions alone or
  puts one in front of them, which is an error of the same stage, and then it has not returned
  without an error, or begins the next stage.
\<close>

theorem Reconcile_stage:
  assumes "single_writer (E_client E) (ResourceWatched (E_flags E)) stored"
    and "Reconcile E (ResourceWatched (E_flags E)) s = (r, s')"
    and "stage (head_status (stored (world s))) < 6"
  shows "stored (world s') = stored (world s) \<or>
     (\<exists>c. stored (world s') = c # stored (world s) \<and>
        (if is_error_status (Code c)
         then stage (Code c) = stage (head_status (stored (world s))) \<and> (\<forall>res. r \<noteq> Ok (res, None))
         else stage (Code c) = Suc (stage (head_status (stored (world s))))))"
proof -
  from assms(3) have unfinished: "head_status (stored (world s)) \<noteq> InstalledStatus"
    using stage_installed by force
  show ?thesis
    using Reconcile_advances_or_stays [OF assms(1,2)] stage_step [OF _ unfinished]
    unfolding advances_def by auto
qed

text \<open>
  The installation completes: from its stage \<open>k\<close>, \<open>6 - k\<close> reconciliations that get through reach the status
  \<open>InstalledStatus\<close> with the operator's version, each adding one condition.
\<close>

theorem installation_completes:
  assumes "single_writer (E_client E) (ResourceWatched (E_flags E)) stored"
    and "stage (head_status (stored (world s))) < 6"
    and "\<forall>i < 6 - stage (head_status (stored (world s))). gets_through E stored (reconciliations E i s)"
  shows "let t = reconciliations E (6 - stage (head_status (stored (world s)))) s
     in head_status (stored (world t)) = InstalledStatus \<and>
        CVersion (hd (stored (world t))) = TektonVersion (E_flags E) \<and>
        length (stored (world t)) = length (stored (world s)) + 6 - stage (head_status (stored (world s)))"
proof -
  from stage_after [OF assms(1,3)] assms(2)
  show ?thesis by (simp add: Let_def stage_installed)
qed

section \<open>Witnesses\<close>

lemma sample_single_writer: "single_writer sample_client ClusterCRName sample_stored"
proof -
  have calls: "keeps_stored sample_stored f" if "\<And>w. st_config (snd (f w)) = st_config w" for f :: "store \<Rightarrow> 'a \<times> store"
    using that by (simp add: keeps_stored_def sample_stored_def)
  have stores: "stores ClusterCRName tmp (error_of (fst (sample_update_status tmp w))) (sample_stored w)
      (sample_stored (snd (sample_update_status tmp w)))" for tmp w
    by (cases "st_config w")
      (auto simp: sample_update_status_def stores_def error_of_def sample_stored_def)
  have reads: "Cfg_name cfg = n \<and> (n = ClusterCRName \<longrightarrow> Conditions (Status cfg) = sample_stored w)"
    if "fst (sample_get_config ns n w) = Inr cfg" for ns n w cfg
    using that by (auto simp: sample_get_config_def sample_stored_def split: option.splits if_splits)
  have kept: "keeps_stored sample_stored (sample_get_config ns n)" "keeps_stored sample_stored (sample_get u)"
    "keeps_stored sample_stored (sample_create u)" "keeps_stored sample_stored (sample_update u)"
    "keeps_stored sample_stored (sample_delete b u)" for ns n u b
    by (rule calls; simp add: sample_get_config_def sample_get_def sample_create_def sample_update_def
        sample_delete_def split: option.split)+
  show ?thesis
    unfolding single_writer_def sample_client_def client.simps
    by (intro conjI allI impI; auto intro: stores kept calls dest: reads)
qed

lemma sample_stage: "stage (head_status (sample_stored (world (sample_sys (Some sample_config))))) = 0"
  by code_simp

theorem Reconcile_stage_witness:
  "\<exists>c. sample_stored (world (snd (Reconcile sample_env (ResourceWatched (E_flags sample_env))
         (sample_sys (Some sample_config))))) = [c] \<and> stage (Code c) = 1"
proof -
  let ?s = "sample_sys (Some sample_config)"
  let ?run = "Reconcile sample_env (ResourceWatched (E_flags sample_env)) ?s"
  have "gets_through sample_env sample_stored ?s"
    using install_run_gets_through [OF sample_install_run, of 0] by simp
  then have "\<exists>res. fst ?run = Ok (res, None)" "sample_stored (world (snd ?run)) \<noteq> sample_stored (world ?s)"
    by (auto simp: gets_through_def split: prod.splits res.splits option.splits)
  moreover have "sample_stored (world ?s) = []" by code_simp
  ultimately show ?thesis
    using Reconcile_stage [of sample_env sample_stored ?s, OF _ prod.collapse [symmetric]]
      sample_single_writer sample_names
    by (auto split: if_splits)
qed

theorem installation_completes_witness:
  "head_status (sample_stored (world (reconciliations sample_env 6 (sample_sys (Some sample_config))))) = InstalledStatus"
proof -
  have "\<forall>i < 6. gets_through sample_env sample_stored (reconciliations sample_env i (sample_sys (Some sample_config)))"
    using install_run_gets_through [OF sample_install_run] by blast
  with installation_completes [of sample_env sample_stored "sample_sys (Some sample_config)"]
  show ?thesis by (simp add: sample_names sample_single_writer sample_stage Let_def)
qed

end
