(* ===== verification/Advance.thy ===== *)
theory Advance imports Worker begin

text \<open>
  From a request that is due to its goal.  The locale \<open>advancing\<close> extends the interface \<open>reconciler\<close> of
  \<open>Worker\<close> by what makes a reconciler get on: in the states \<open>inv\<close> no reconciliation panics, none leads
  out of \<open>inv\<close> or makes the \<open>rank\<close> larger, and one of the request reaches the goal or makes the rank smaller.
  Then the controller's own steps lead from a request that is due to its goal.
\<close>

locale advancing = reconciler Do handle env request goal
  for Do :: "'a \<Rightarrow> ('s, result \<times> go_error option) go" and handle :: "'e \<Rightarrow> 'a list"
    and env :: "'s \<Rightarrow> 's \<Rightarrow> 'e list \<Rightarrow> bool" and request :: 'a and goal :: "'s \<Rightarrow> bool" +
  fixes inv :: "'s \<Rightarrow> bool" and rank :: "'s \<Rightarrow> nat"
  assumes kept: "inv s \<Longrightarrow> \<not> goal s \<Longrightarrow> Do req s = (r, s') \<Longrightarrow> inv s' \<and> rank s' \<le> rank s"
    and calm: "inv s \<Longrightarrow> \<not> goal s \<Longrightarrow> Do req s = (r, s') \<Longrightarrow> \<not> is_panic r"
    and closer: "inv s \<Longrightarrow> \<not> goal s \<Longrightarrow> Do request s = (r, s') \<Longrightarrow> goal s' \<or> rank s' < rank s"
begin

text \<open>A path of own steps comes by the goal or stays among the states \<open>inv\<close>.\<close>

lemma own_step_kept:
  assumes "controller_step Do handle (\<lambda>s s' es. False) c c'"
    and "inv (c_sys c)" and "\<not> goal (c_sys c)" and "c_worker c \<noteq> Crashed"
  shows "inv (c_sys c') \<and> rank (c_sys c') \<le> rank (c_sys c) \<and> c_worker c' \<noteq> Crashed"
  using assms
proof (induction rule: controller_step.induct)
  case (reconcile c x b again s' q)
  from reconcile(2) obtain r where "Do x (c_sys c) = (r, s')" by (elim reconcileHandler_Ok)
  from kept [OF reconcile.prems(1,2) this] show ?case by simp
next
  case (crash c x b p s' q)
  obtain r t where r: "Do x (c_sys c) = (r, t)" by (cases "Do x (c_sys c)")
  from calm [OF crash.prems(1,2) r] r crash(2) show ?case
    by (cases r) (auto simp: reconcileHandler_def split: prod.splits if_splits)
qed simp_all

lemma own_steps_kept:
  assumes "own_steps Do handle c c'" and "inv (c_sys c)" and "c_worker c \<noteq> Crashed"
  shows "(\<exists>c1. own_steps Do handle c c1 \<and> goal (c_sys c1) \<and> inv (c_sys c1)) \<or>
    inv (c_sys c') \<and> rank (c_sys c') \<le> rank (c_sys c) \<and> c_worker c' \<noteq> Crashed"
  using assms(1)
proof (induction rule: rtranclp_induct)
  case base
  with assms(2,3) show ?case by simp
next
  case (step c1 c2)
  show ?case
  proof (cases "goal (c_sys c1)")
    case True
    with step.hyps(1) step.IH show ?thesis by blast
  next
    case False
    with step.IH own_step_kept [OF step.hyps(2)] show ?thesis by auto
  qed
qed

text \<open>The reconciliation of the request that the worker has in its hands.\<close>

lemma request_reconciled:
  assumes "c_worker c = Working request" and "live c" and "inv (c_sys c)" and "\<not> goal (c_sys c)"
  obtains c' where "own_steps Do handle c c'" and "live c'" and "inv (c_sys c')"
    and "goal (c_sys c') \<or> rank (c_sys c') < rank (c_sys c) \<and> due handle request c'"
proof -
  obtain v s' q where run: "reconcileHandler Do 0 request (c_sys c) (c_queue c) = (v, s', q)"
    by (cases "reconcileHandler Do 0 request (c_sys c) (c_queue c)")
  obtain r t where r: "Do request (c_sys c) = (r, t)" by (cases "Do request (c_sys c)")
  from calm [OF assms(3,4) r] run r have "\<exists>again. v = Ok again"
    by (cases r) (auto simp: reconcileHandler_def split: if_splits)
  then obtain again where v: "v = Ok again" ..
  let ?c' = "c\<lparr>c_sys := s', c_queue := q, c_worker := Returned request again\<rparr>"
  have handled: "reconcileHandler Do 0 request (c_sys c) (c_queue c) = (Ok again, s', q)"
    using run v by simp
  then have step: "controller_step Do handle (\<lambda>s s' es. False) c ?c'"
    by (rule controller_step.reconcile [OF assms(1)])
  from handled r obtain "s' = t" "shuttingDown q = shuttingDown (c_queue c)"
    by (elim reconcileHandler_Ok) simp
  then have live: "live ?c'" using assms(2) by (simp add: live_def)
  have "due handle request c" using assms(1) by (simp add: due_def)
  from due_step [OF step this live] have "due handle request ?c' \<or> goal s'" by (auto dest: settles)
  with closer [OF assms(3,4) r] kept [OF assms(3,4) r] \<open>s' = t\<close> show thesis
    by (intro that [OF own_step [OF step] live]) auto
qed

lemma due_leads_to_goal:
  assumes "live c" and "controller_ok c" and "inv (c_sys c)" and "due handle request c \<or> goal (c_sys c)"
  shows "\<exists>c'. own_steps Do handle c c' \<and> goal (c_sys c') \<and> inv (c_sys c')"
  using assms
proof (induction "rank (c_sys c)" arbitrary: c rule: less_induct)
  case less
  show ?case
  proof (cases "goal (c_sys c)")
    case True
    with less.prems(3) show ?thesis by blast
  next
    case False
    with less.prems(4) have "due handle request c" by simp
    from due_taken_live [OF less.prems(1,2) this, of Do] obtain c1 where c1: "own_steps Do handle c c1"
      "c_worker c1 = Working request \<and> live c1 \<or> c_worker c1 = Crashed" by blast
    have up: "c_worker c \<noteq> Crashed" using less.prems(1) by (simp add: live_def)
    show ?thesis
    proof (cases "\<exists>c1. own_steps Do handle c c1 \<and> goal (c_sys c1) \<and> inv (c_sys c1)")
      case no: False
      with own_steps_kept [OF c1(1) less.prems(3) up] c1(2) have
        c1': "inv (c_sys c1)" "rank (c_sys c1) \<le> rank (c_sys c)" "c_worker c1 = Working request" "live c1"
        by auto
      with no c1(1) have "\<not> goal (c_sys c1)" by blast
      from request_reconciled [OF c1'(3,4,1) this] obtain c2 where c2: "own_steps Do handle c1 c2" "live c2"
        "inv (c_sys c2)" "goal (c_sys c2) \<or> rank (c_sys c2) < rank (c_sys c1) \<and> due handle request c2" by blast
      from c1(1) c2(1) have steps: "own_steps Do handle c c2" by (rule rtranclp_trans)
      with no c2(3,4) c1'(2) have "rank (c_sys c2) < rank (c_sys c)" "due handle request c2 \<or> goal (c_sys c2)"
        by auto
      from less.hyps [OF this(1) c2(2) own_ok [OF steps less.prems(2)] c2(3) this(2)] obtain c3 where
        "own_steps Do handle c2 c3" "goal (c_sys c3)" "inv (c_sys c3)" by blast
      with steps show ?thesis by (meson rtranclp_trans)
    qed
  qed
qed

end

end
