(* ===== verification/Completion.thy ===== *)
theory Completion imports HealthyRuns Progress Advance begin

text \<open>
  The installation ends by itself.  In a cluster that is well (\<open>healthy\<close>), with manifests in memory that can
  be transformed (\<open>prepared\<close>), a reconciliation of an unfinished Config moves it to the next stage and
  leaves everything prepared for that one; requests for other names do not disturb this.  So the
  config controller is an instance of \<open>advancing\<close>: its rank is the number of stages left.
\<close>

section \<open>Prepared for the stages that are left\<close>

text \<open>What a handler will make of its manifest; see the handlers of \<open>ConfigController\<close>.\<close>

definition ready_component ::
  "'w env \<Rightarrow> ('w \<Rightarrow> bool) \<Rightarrow> Config \<Rightarrow> string \<Rightarrow> string \<Rightarrow> string \<Rightarrow> string \<Rightarrow> manifest \<Rightarrow> bool" where
  "ready_component E good cfg0 pre controllerName webhookName wc m \<longleftrightarrow>
     (\<exists>m'. transformed E cfg0 pre (\<lambda>images. [DeploymentImages (E_conv E) images]) m = Ok m' \<and>
        usable (E_client E) good m' \<and>
        serves (Cfg_TargetNamespace cfg0) controllerName webhookName wc (set (resources m')))"

definition ready_addons :: "'w env \<Rightarrow> ('w \<Rightarrow> bool) \<Rightarrow> Config \<Rightarrow> (images \<Rightarrow> transformer list) \<Rightarrow> manifest \<Rightarrow> bool" where
  "ready_addons E good cfg0 extra m \<longleftrightarrow>
     (\<exists>m'. transformed E cfg0 AddonsImagePrefix extra m = Ok m' \<and> usable (E_client E) good m' \<and> deletable m')"

abbreviation ready_pipeline :: "'w env \<Rightarrow> ('w \<Rightarrow> bool) \<Rightarrow> Config \<Rightarrow> manifest \<Rightarrow> bool" where
  "ready_pipeline E good cfg0 \<equiv> ready_component E good cfg0 PipelinesImagePrefix
     PipelineControllerName PipelineWebhookName PipelineWebhookConfiguration"

abbreviation ready_triggers :: "'w env \<Rightarrow> ('w \<Rightarrow> bool) \<Rightarrow> Config \<Rightarrow> manifest \<Rightarrow> bool" where
  "ready_triggers E good cfg0 \<equiv> ready_component E good cfg0 TriggersImagePrefix
     TriggerControllerName TriggerWebhookName TriggerWebhookConfiguration"

definition addons_transformers :: "images \<Rightarrow> transformer list" where
  "addons_transformers images =
     [InjectLabel LabelProviderType ProviderTypeRedHat Overwrite [''ClusterTask''], TaskImages images]"

definition community_transformers :: "images \<Rightarrow> transformer list" where
  "community_transformers images =
     [ReplaceKind ''Task'' ''ClusterTask'', InjectLabel LabelProviderType ProviderTypeCommunity Overwrite [],
      TaskImages images]"

text \<open>
  At the beginning of stage \<open>k\<close> the manifests of the stages from \<open>k\<close> on can be transformed, and before a
  validation the objects it looks for are on the cluster.
\<close>

definition in_memory :: "'w env \<Rightarrow> ('w \<Rightarrow> bool) \<Rightarrow> Config \<Rightarrow> nat \<Rightarrow> 'w sys \<Rightarrow> bool" where
  "in_memory E good cfg0 k s \<longleftrightarrow>
     (k \<le> 0 \<longrightarrow> ready_pipeline E good cfg0 (r_pipeline s)) \<and>
     (k \<le> 2 \<longrightarrow> ready_triggers E good cfg0 (r_triggers s)) \<and>
     (k \<le> 4 \<longrightarrow> ready_addons E good cfg0 addons_transformers (r_addons s)) \<and>
     (k \<le> 5 \<longrightarrow> ready_addons E good cfg0 community_transformers (r_community s))"

definition sought :: "Config \<Rightarrow> nat \<Rightarrow> obj set \<Rightarrow> bool" where
  "sought cfg0 k F \<longleftrightarrow>
     (k = 1 \<longrightarrow> serves (Cfg_TargetNamespace cfg0) PipelineControllerName PipelineWebhookName PipelineWebhookConfiguration F) \<and>
     (k = 3 \<longrightarrow> serves (Cfg_TargetNamespace cfg0) TriggerControllerName TriggerWebhookName TriggerWebhookConfiguration F)"

definition prepared :: "'w env \<Rightarrow> ('w \<Rightarrow> bool) \<Rightarrow> Config \<Rightarrow> nat \<Rightarrow> 'w sys \<Rightarrow> bool" where
  "prepared E good cfg0 k s \<longleftrightarrow> in_memory E good cfg0 k s \<and>
     (\<exists>F. sought cfg0 k F \<and> (\<forall>u \<in> F. present (E_client E) u (world s)))"

lemma sought_simps [simp]:
  "sought cfg0 (Suc 0) F = serves (Cfg_TargetNamespace cfg0) PipelineControllerName PipelineWebhookName PipelineWebhookConfiguration F"
  "sought cfg0 3 F = serves (Cfg_TargetNamespace cfg0) TriggerControllerName TriggerWebhookName TriggerWebhookConfiguration F"
  "k \<noteq> 1 \<Longrightarrow> k \<noteq> 3 \<Longrightarrow> sought cfg0 k F"
  by (simp_all add: sought_def)

lemma in_memory_cong:
  "r_pipeline s = r_pipeline t \<Longrightarrow> r_triggers s = r_triggers t \<Longrightarrow> r_addons s = r_addons t \<Longrightarrow>
   r_community s = r_community t \<Longrightarrow> in_memory E good cfg0 k s = in_memory E good cfg0 k t"
  by (simp add: in_memory_def)

lemma in_memory_later: "in_memory E good cfg0 k s \<Longrightarrow> k \<le> l \<Longrightarrow> in_memory E good cfg0 l s"
  by (simp add: in_memory_def)

section \<open>One stage\<close>

text \<open>The stage an unfinished Config is in; an installation by another version starts again.\<close>

definition todo :: "ConfigStatus \<Rightarrow> nat" where
  "todo st = stage (head_status (Conditions st)) mod 6"

definition moved_on ::
  "'w env \<Rightarrow> ('w \<Rightarrow> ConfigStatus option) \<Rightarrow> ('w \<Rightarrow> bool) \<Rightarrow> Config \<Rightarrow> Config \<Rightarrow> result \<times> go_error option \<Rightarrow> 'w sys \<Rightarrow> bool" where
  "moved_on E view good cfg0 cfg v s \<longleftrightarrow> snd v = None \<and> good (world s) \<and> has_controllers s \<and>
     (\<exists>c. view (world s) = Some (next_status (E_flags E) cfg c) \<and> CVersion c = TektonVersion (E_flags E) \<and>
        \<not> unhandled_status (Code c) \<and> stage (Code c) = Suc (todo (Status cfg)) \<and>
        prepared E good cfg0 (stage (Code c)) s)"

lemma finished_moved:
  assumes fin: "finished_with E view good fresh cfg F c s0 v s" and c: "CVersion c = TektonVersion (E_flags E)"
    "\<not> unhandled_status (Code c)" "stage (Code c) = Suc (todo (Status cfg))"
    and M: "has_controllers s0" "in_memory E good cfg0 (stage (Code c)) s0" "sought cfg0 (stage (Code c)) F"
  shows "moved_on E view good cfg0 cfg v s"
proof -
  from fin have h: "holding (\<lambda>w. stocked (E_client E) good fresh F {} {} w \<and>
      view w = Some (next_status (E_flags E) cfg c)) (cluster.more s0) s" and ok: "snd v = None"
    by (simp_all add: finished_with_def)
  note mem = memory_read [OF h]
  from M(1) have "has_controllers s" by (simp add: has_controllers_def mem)
  moreover have "in_memory E good cfg0 (stage (Code c)) s" using M(2) mem(1-4) by (metis in_memory_cong)
  moreover from h have "good (world s)" "\<forall>u \<in> F. present (E_client E) u (world s)"
    "view (world s) = Some (next_status (E_flags E) cfg c)"
    by (simp_all add: holding_def stocked_def)
  ultimately show ?thesis
    using ok c M(3) unfolding moved_on_def prepared_def by blast
qed

lemma serves_controller:
  "serves ns n wh wc (set (resources m)) \<Longrightarrow> resources (Filter [ByKind ''Deployment'', ByName n] m) \<noteq> []"
  by (auto simp: serves_def mf_All_def ByKind_def ByName_def filter_empty_conv)

text \<open>The state in which a handler starts: the copy \<open>cfg\<close> of the Config was just read.\<close>

definition in_hand ::
  "'w env \<Rightarrow> ('w \<Rightarrow> bool) \<Rightarrow> (Config \<Rightarrow> 'w \<Rightarrow> bool) \<Rightarrow> Config \<Rightarrow> obj set \<Rightarrow> Config \<Rightarrow> 'w sys \<Rightarrow> bool" where
  "in_hand E good fresh cfg0 F cfg s \<longleftrightarrow> copy_of cfg0 cfg \<and> stocked (E_client E) good fresh F {} {cfg} (world s) \<and>
     has_controllers s \<and> in_memory E good cfg0 (todo (Status cfg)) s \<and> sought cfg0 (todo (Status cfg)) F"

lemma in_hand_holding:
  assumes "in_hand E good fresh cfg0 F cfg s"
  shows "holding (stocked (E_client E) good fresh F {} {cfg}) (cluster.more s) s"
    "holding (stocked (E_client E) good fresh {} {} {cfg}) (cluster.more s) s"
    and "copy_of cfg0 cfg" "has_controllers s" "in_memory E good cfg0 (todo (Status cfg)) s"
  using assms by (auto simp: in_hand_def holding_def elim!: stocked_sub)

text \<open>What is left of a stage when its handler has run from \<open>s\<close>.\<close>

definition gets_on ::
  "'w env \<Rightarrow> ('w \<Rightarrow> ConfigStatus option) \<Rightarrow> ('w \<Rightarrow> bool) \<Rightarrow> Config \<Rightarrow> Config \<Rightarrow> 'w handler \<Rightarrow> 'w sys \<Rightarrow> bool" where
  "gets_on E view good cfg0 cfg act s \<longleftrightarrow> (\<exists>v s'. act s = (Ok v, s') \<and> moved_on E view good cfg0 cfg v s')"

lemma ends_gets_on:
  assumes "ends (holding P (cluster.more s)) act Q" and "holding P (cluster.more s) s"
    and "\<And>v s'. Q v s' \<Longrightarrow> moved_on E view good cfg0 cfg v s'"
  shows "gets_on E view good cfg0 cfg act s"
  using assms unfolding gets_on_def by (metis endsD)

lemma stage_pipeline:
  assumes H: "healthy E view good fresh cfg0" and s: "in_hand E good fresh cfg0 F cfg s" and k: "todo (Status cfg) = 0"
  shows "gets_on E view good cfg0 cfg (applyPipeline E cfg) s"
proof -
  note h = in_hand_holding [OF s]
  from h(5) k obtain m where m: "transformed E cfg0 PipelinesImagePrefix (\<lambda>images. [DeploymentImages (E_conv E) images]) (r_pipeline s) = Ok m"
    "usable (E_client E) good m" "sought cfg0 1 (set (resources m))"
    by (auto simp: in_memory_def ready_component_def)
  then have c: "resources (Filter [ByKind ''Deployment'', ByName PipelineControllerName] m) \<noteq> []"
    by (intro serves_controller) simp
  show ?thesis
  proof (rule ends_gets_on [OF ends_applyPipeline [OF H h(3) m(1,2)] h(2)])
    fix v s'
    assume fin: "finished_with E view good fresh cfg (set (resources m)) (condition AppliedPipeline (TektonVersion (E_flags E)))
      (s\<lparr>r_pipeline := m\<rparr>) v s'"
    from h(5) k have "in_memory E good cfg0 1 (s\<lparr>r_pipeline := m\<rparr>)" by (simp add: in_memory_def)
    with h(4) k m(3) c show "moved_on E view good cfg0 cfg v s'"
      by (intro finished_moved [OF fin])
        (simp_all add: condition_def unhandled_status_def has_controllers_def del: resources_Filter)
  qed
qed

lemma stage_triggers:
  assumes H: "healthy E view good fresh cfg0" and s: "in_hand E good fresh cfg0 F cfg s" and k: "todo (Status cfg) = 2"
  shows "gets_on E view good cfg0 cfg (applyTriggers E cfg) s"
proof -
  note h = in_hand_holding [OF s]
  from h(5) k obtain m where m: "transformed E cfg0 TriggersImagePrefix (\<lambda>images. [DeploymentImages (E_conv E) images]) (r_triggers s) = Ok m"
    "usable (E_client E) good m" "sought cfg0 3 (set (resources m))"
    by (auto simp: in_memory_def ready_component_def)
  then have c: "resources (Filter [ByKind ''Deployment'', ByName TriggerControllerName] m) \<noteq> []"
    by (intro serves_controller) simp
  show ?thesis
  proof (rule ends_gets_on [OF ends_applyTriggers [OF H h(3) m(1,2)] h(2)])
    fix v s'
    assume fin: "finished_with E view good fresh cfg (set (resources m)) ((condition AppliedTriggers (TektonVersion (E_flags E)))
      \<lparr>PipelineVersion := pipelineVersion s\<rparr>) (s\<lparr>r_triggers := m\<rparr>) v s'"
    from h(5) k have "in_memory E good cfg0 3 (s\<lparr>r_triggers := m\<rparr>)" by (simp add: in_memory_def)
    with h(4) k m(3) c show "moved_on E view good cfg0 cfg v s'"
      by (intro finished_moved [OF fin])
        (simp_all add: condition_def unhandled_status_def has_controllers_def del: resources_Filter)
  qed
qed

text \<open>The validations leave the memory as it is.\<close>

lemma validated_moved:
  assumes s: "in_hand E good fresh cfg0 F cfg s"
    and fin: "snd v = None \<and> holding (\<lambda>w. stocked (E_client E) good fresh F {} {} w \<and>
      view w = Some (next_status (E_flags E) cfg c)) (cluster.more s) s'"
    and c: "CVersion c = TektonVersion (E_flags E)" "\<not> unhandled_status (Code c)"
      "stage (Code c) = Suc (todo (Status cfg))" "stage (Code c) \<noteq> 1" "stage (Code c) \<noteq> 3"
  shows "moved_on E view good cfg0 cfg v s'"
proof (rule finished_moved)
  from fin show "finished_with E view good fresh cfg F c s v s'" by (simp add: finished_with_def)
  from in_hand_holding(5) [OF s] c(3) show "in_memory E good cfg0 (stage (Code c)) s" by (auto elim: in_memory_later)
qed (use c in_hand_holding [OF s] in simp_all)

lemma stage_validated_pipeline:
  assumes H: "healthy E view good fresh cfg0" and s: "in_hand E good fresh cfg0 F cfg s" and k: "todo (Status cfg) = 1"
  shows "gets_on E view good cfg0 cfg (validatePipeline E cfg) s"
proof -
  note h = in_hand_holding [OF s]
  from s k have F: "serves (Cfg_TargetNamespace cfg0) PipelineControllerName PipelineWebhookName PipelineWebhookConfiguration F"
    by (simp add: in_hand_def)
  have "ends (holding (stocked (E_client E) good fresh F {} {cfg}) (cluster.more s)) (validatePipeline E cfg)
      (\<lambda>v s'. snd v = None \<and> holding (\<lambda>w. stocked (E_client E) good fresh F {} {} w \<and> view w = Some (next_status (E_flags E) cfg
        ((condition ValidatedPipeline (TektonVersion (E_flags E)))\<lparr>PipelineVersion := pipelineVersion s\<rparr>))) (cluster.more s) s')"
    unfolding validatePipeline_def Let_def
    by (rule ends_bind_get [where v = "pipelineVersion s"], erule memory_read,
        rule ends_weaken [OF ends_validate_component [OF H h(3) F]]) auto
  then show ?thesis
    by (rule ends_gets_on [OF _ h(1)])
      (erule validated_moved [OF s], simp_all add: condition_def unhandled_status_def k)
qed

lemma stage_validated_triggers:
  assumes H: "healthy E view good fresh cfg0" and s: "in_hand E good fresh cfg0 F cfg s" and k: "todo (Status cfg) = 3"
  shows "gets_on E view good cfg0 cfg (validateTriggers E cfg) s"
proof -
  note h = in_hand_holding [OF s]
  from s k have F: "serves (Cfg_TargetNamespace cfg0) TriggerControllerName TriggerWebhookName TriggerWebhookConfiguration F"
    by (simp add: in_hand_def)
  have "ends (holding (stocked (E_client E) good fresh F {} {cfg}) (cluster.more s)) (validateTriggers E cfg)
      (\<lambda>v s'. snd v = None \<and> holding (\<lambda>w. stocked (E_client E) good fresh F {} {} w \<and> view w = Some (next_status (E_flags E) cfg
        ((condition ValidatedTriggers (TektonVersion (E_flags E)))
           \<lparr>PipelineVersion := pipelineVersion s, TriggersVersion := triggersVersion s\<rparr>))) (cluster.more s) s')"
    unfolding validateTriggers_def Let_def
    by (rule ends_bind_get [where v = "pipelineVersion s"], erule memory_read,
        rule ends_bind_get [where v = "triggersVersion s"], erule memory_read,
        rule ends_weaken [OF ends_validate_component [OF H h(3) F]]) auto
  then show ?thesis
    by (rule ends_gets_on [OF _ h(1)])
      (erule validated_moved [OF s], simp_all add: condition_def unhandled_status_def k)
qed

lemma stage_addons:
  assumes H: "healthy E view good fresh cfg0" and s: "in_hand E good fresh cfg0 F cfg s" and k: "todo (Status cfg) = 4"
  shows "gets_on E view good cfg0 cfg (applyAddons E cfg) s"
proof -
  note h = in_hand_holding [OF s]
  from h(5) k obtain m where m: "transformed E cfg0 AddonsImagePrefix (\<lambda>images.
      [InjectLabel LabelProviderType ProviderTypeRedHat Overwrite [''ClusterTask''], TaskImages images]) (r_addons s) = Ok m"
    "usable (E_client E) good m" "deletable m"
    by (auto simp: in_memory_def ready_addons_def addons_transformers_def [abs_def])
  show ?thesis
  proof (rule ends_gets_on [OF ends_applyAddons [OF H h(3) m] h(2)], elim exE)
    fix v s' a
    assume fin: "finished_with E view good fresh cfg (set (resources m)) ((condition AppliedAddons (TektonVersion (E_flags E)))
      \<lparr>PipelineVersion := pipelineVersion s, TriggersVersion := triggersVersion s\<rparr>) (s\<lparr>r_addons := a\<rparr>) v s'"
    from h(5) k have "in_memory E good cfg0 5 (s\<lparr>r_addons := a\<rparr>)" by (simp add: in_memory_def)
    with h(4) k show "moved_on E view good cfg0 cfg v s'"
      by (intro finished_moved [OF fin])
        (simp_all add: condition_def unhandled_status_def has_controllers_def del: resources_Filter)
  qed
qed

lemma stage_community:
  assumes H: "healthy E view good fresh cfg0" and s: "in_hand E good fresh cfg0 F cfg s" and k: "todo (Status cfg) = 5"
  shows "gets_on E view good cfg0 cfg (applyCommunityResources E cfg) s"
proof -
  note h = in_hand_holding [OF s]
  from h(5) k obtain m where m: "transformed E cfg0 AddonsImagePrefix (\<lambda>images. [ReplaceKind ''Task'' ''ClusterTask'',
      InjectLabel LabelProviderType ProviderTypeCommunity Overwrite [], TaskImages images]) (r_community s) = Ok m"
    "usable (E_client E) good m" "deletable m"
    by (auto simp: in_memory_def ready_addons_def community_transformers_def [abs_def])
  show ?thesis
  proof (rule ends_gets_on [OF ends_applyCommunityResources [OF H h(3) m] h(2)], elim exE)
    fix v s' a
    assume fin: "finished_with E view good fresh cfg (set (resources m)) ((condition InstalledStatus (TektonVersion (E_flags E)))
      \<lparr>PipelineVersion := pipelineVersion s, TriggersVersion := triggersVersion s\<rparr>) (s\<lparr>r_community := a\<rparr>) v s'"
    have "in_memory E good cfg0 6 (s\<lparr>r_community := a\<rparr>)" by (simp add: in_memory_def)
    with h(4) k show "moved_on E view good cfg0 cfg v s'"
      by (intro finished_moved [OF fin])
        (simp_all add: condition_def unhandled_status_def has_controllers_def del: resources_Filter)
  qed
qed

section \<open>One reconciliation\<close>

lemma dispatch_gets_on:
  assumes "healthy E view good fresh cfg0" and "in_hand E good fresh cfg0 F cfg s"
    and "\<not> finished (E_flags E) (Status cfg)"
  shows "gets_on E view good cfg0 cfg (dispatch E cfg) s"
proof -
  from assms(3) have un: "\<not> uptoDate (E_flags E) cfg" "\<not> unhandled_status (InstallStatus_of cfg)"
    by (simp_all add: finished_status)
  note stages = stage_pipeline [OF assms(1,2)] stage_validated_pipeline [OF assms(1,2)] stage_triggers [OF assms(1,2)]
    stage_validated_triggers [OF assms(1,2)] stage_addons [OF assms(1,2)] stage_community [OF assms(1,2)]
  have todo: "todo (Status cfg) = stage (InstallStatus_of cfg) mod 6" by (simp add: todo_def InstallStatus_of_def)
  show ?thesis
    using un todo stages
    by (cases "InstallStatus_of cfg") (simp_all add: dispatch_def validateVersion_def unhandled_status_def)
qed

text \<open>The course of an installation: what \<open>Reconcile\<close> finds at the beginning of every stage.\<close>

definition on_course ::
  "'w env \<Rightarrow> ('w \<Rightarrow> ConfigStatus option) \<Rightarrow> ('w \<Rightarrow> bool) \<Rightarrow> Config \<Rightarrow> 'w sys \<Rightarrow> bool" where
  "on_course E view good cfg0 s \<longleftrightarrow> good (world s) \<and> has_controllers s \<and>
     (\<exists>st. view (world s) = Some st \<and> \<not> unhandled_status (head_status (Conditions st)) \<and>
        (\<not> finished (E_flags E) st \<longrightarrow> prepared E good cfg0 (todo st) s))"

lemma Reconcile_gets_on:
  assumes H: "healthy E view good fresh cfg0" and s: "on_course E view good cfg0 s"
    and st: "view (world s) = Some st" "\<not> finished (E_flags E) st"
  obtains cfg v s' where "Reconcile E (ResourceWatched (E_flags E)) s = (Ok v, s')" and "Status cfg = st"
    and "moved_on E view good cfg0 cfg v s'"
proof -
  from s st have good: "good (world s)" and hc: "has_controllers s" and mem: "in_memory E good cfg0 (todo st) s"
    by (auto simp: on_course_def prepared_def)
  from s st obtain F where F: "sought cfg0 (todo st) F" "\<forall>u \<in> F. present (E_client E) u (world s)"
    by (auto simp: on_course_def prepared_def)
  with good have w: "stocked (E_client E) good fresh F {} {} (world s)" by (simp add: stocked_def)
  obtain cfg w' where cfg: "get_config (E_client E) [] (ResourceWatched (E_flags E)) (world s) = (Inr cfg, w')"
      "stocked (E_client E) good fresh F {} {cfg} w'" "view w' = Some st" "Status cfg = st" "copy_of cfg0 cfg"
    by (rule read_config [OF H w st(1)])
  let ?s1 = "s\<lparr>world := w', trace := trace s @ [GetConfig [] (ResourceWatched (E_flags E)) None]\<rparr>"
  have "has_controllers ?s1" using hc by (simp add: has_controllers_def)
  with read_versions_cases [of ?s1] obtain pv tv where
    read: "read_versions ?s1 = (Ok (), ?s1\<lparr>pipelineVersion := pv, triggersVersion := tv\<rparr>)" by auto
  let ?s2 = "?s1\<lparr>pipelineVersion := pv, triggersVersion := tv\<rparr>"
  have "in_hand E good fresh cfg0 F cfg ?s2"
    using cfg hc mem F(1) by (simp add: in_hand_def has_controllers_def in_memory_def)
  from dispatch_gets_on [OF H this] st(2) cfg(4) obtain v s' where
    "dispatch E cfg ?s2 = (Ok v, s')" "moved_on E view good cfg0 cfg v s'"
    by (auto simp: gets_on_def)
  with that cfg(4) Reconcile_found [OF cfg(1)] read show thesis by (simp add: go_bind_eq_cases)
qed

lemma moved_on_course:
  assumes "moved_on E view good cfg0 cfg v s"
  obtains st where "on_course E view good cfg0 s" and "view (world s) = Some st"
    and "finished (E_flags E) st \<or> todo st = Suc (todo (Status cfg))" and "todo (Status cfg) = 5 \<longrightarrow> finished (E_flags E) st"
proof -
  from assms obtain c where c: "good (world s)" "has_controllers s" "view (world s) = Some (next_status (E_flags E) cfg c)"
    "CVersion c = TektonVersion (E_flags E)" "\<not> unhandled_status (Code c)" "stage (Code c) = Suc (todo (Status cfg))"
    "prepared E good cfg0 (stage (Code c)) s"
    by (auto simp: moved_on_def)
  let ?st = "next_status (E_flags E) cfg c"
  have k: "todo (Status cfg) < 6" by (simp add: todo_def)
  have todo: "todo ?st = stage (Code c) mod 6" by (simp add: todo_def next_status_def)
  have installed: "finished (E_flags E) ?st" if "stage (Code c) = 6"
    using that c(4) by (auto simp: stage_installed finished_def uptoDate_def HasInstalledVersion_def InstallStatus_of_def
        next_status_def matchesUUID_def zeroConfig_def)
  have on: "todo ?st = stage (Code c)" if "\<not> finished (E_flags E) ?st"
  proof -
    from that installed have "stage (Code c) \<noteq> 6" by blast
    with c(6) k todo show ?thesis by simp
  qed
  have "\<not> finished (E_flags E) ?st \<longrightarrow> prepared E good cfg0 (todo ?st) s" using on c(7) by simp
  with c have "on_course E view good cfg0 s"
    unfolding on_course_def by (intro conjI exI [of _ ?st]) (simp_all add: next_status_def)
  moreover have "finished (E_flags E) ?st \<or> todo ?st = Suc (todo (Status cfg))" using on c(6) by auto
  moreover have "todo (Status cfg) = 5 \<longrightarrow> finished (E_flags E) ?st" using installed c(6) by simp
  ultimately show thesis using c(3) by (intro that)
qed

section \<open>Requests for other names\<close>

definition keeps_stock ::
  "'w client \<Rightarrow> ('w \<Rightarrow> bool) \<Rightarrow> (Config \<Rightarrow> 'w \<Rightarrow> bool) \<Rightarrow> 'w sys \<Rightarrow> 'w sys \<Rightarrow> bool" where
  "keeps_stock C good fresh s t \<longleftrightarrow>
     (\<forall>F. stocked C good fresh F {} {} (world s) \<longrightarrow> stocked C good fresh F {} {} (world t)) \<and>
     cluster.more t = cluster.more s"

interpretation stock: step_relation "keeps_stock C good fresh" for C :: "'w client" and good fresh
  by unfold_locales (auto simp: keeps_stock_def)

lemma keeps_stock_call:
  assumes "\<And>F. preserves (stocked C good fresh F {} {}) f"
  shows "stock.keeps C good fresh (call f ev)"
  using assms
  by (intro stock.keepsI) (auto simp: keeps_stock_def preserves_def call_def split: prod.split sum.split; metis snd_conv)

lemma other_request_stock:
  assumes H: "healthy E view good fresh cfg0" and "req \<noteq> ResourceWatched (E_flags E)"
  shows "stock.keeps (E_client E) good fresh (Reconcile E req)"
proof -
  note H' = healthyD(3) [OF H]
  have get: "stock.keeps (E_client E) good fresh (call (get_config (E_client E) ns n) ev)" for ns n ev
    using stocked_calls(1) [OF H'] by (intro keeps_stock_call) (simp add: reads_keep_def)
  have put: "stock.keeps (E_client E) good fresh (call (update_status (E_client E) tmp) ev)" for tmp ev
    using stocked_calls(4) [OF H'] by (intro keeps_stock_call) (simp add: status_keeps_def)
  have mark: "stock.keeps (E_client E) good fresh (markInvalidResource E cfg)" for cfg
    unfolding markInvalidResource_def updateStatus_def refreshCR_def Let_def
    by (intro stock.keeps_intros get put)
  show ?thesis
    unfolding Reconcile_def Let_def using assms(2) by (intro stock.keeps_intros get mark) simp_all
qed

lemma other_request:
  assumes H: "healthy E view good fresh cfg0" and req: "req \<noteq> ResourceWatched (E_flags E)"
    and run: "Reconcile E req s = (r, s')"
  shows "on_course E view good cfg0 s \<Longrightarrow> on_course E view good cfg0 s'" and "view (world s') = view (world s)"
    and "\<not> is_panic r"
proof -
  show view: "view (world s') = view (world s)"
    by (rule Reconcile_other_view [OF healthyD(2) [OF H] req run])
  from stock.keepsD [OF other_request_stock [OF H req] run] have kept:
    "\<And>F. stocked (E_client E) good fresh F {} {} (world s) \<Longrightarrow> stocked (E_client E) good fresh F {} {} (world s')"
    and more: "cluster.more s' = cluster.more s"
    by (auto simp: keeps_stock_def)
  have objects: "good (world s')" "\<forall>u \<in> F. present (E_client E) u (world s')"
    if "good (world s)" "\<forall>u \<in> F. present (E_client E) u (world s)" for F
    using kept [of F] that by (simp_all add: stocked_def)
  have "holding (\<lambda>w. True) (cluster.more s) s'" using more by (simp add: holding_def)
  note mem = memory_read [OF this]
  have "has_controllers s' = has_controllers s" by (simp add: has_controllers_def mem)
  moreover have "in_memory E good cfg0 k s' = in_memory E good cfg0 k s" for k
    by (rule in_memory_cong) (simp_all add: mem)
  ultimately show "on_course E view good cfg0 s \<Longrightarrow> on_course E view good cfg0 s'"
    using objects view unfolding on_course_def prepared_def by (metis empty_iff)
  show "\<not> is_panic r"
    using run req
    by (auto simp: Reconcile_def Let_def markInvalidResource_def updateStatus_def refreshCR_def
        go_ignore_def go_catch_eq_cases go_bind_eq_cases call_def go_return_def
      split: prod.splits sum.splits if_splits)
qed

section \<open>The controller\<close>

definition config_course ::
  "'w env \<Rightarrow> ('w \<Rightarrow> ConfigStatus option) \<Rightarrow> ('w \<Rightarrow> bool) \<Rightarrow> (Config \<Rightarrow> 'w \<Rightarrow> bool) \<Rightarrow> Config \<Rightarrow> 'w sys \<Rightarrow> bool" where
  "config_course E view good fresh cfg0 s \<longleftrightarrow> healthy E view good fresh cfg0 \<and> on_course E view good cfg0 s"

definition stages_left :: "'w env \<Rightarrow> ('w \<Rightarrow> ConfigStatus option) \<Rightarrow> 'w sys \<Rightarrow> nat" where
  "stages_left E view s = (case view (world s) of
     Some st \<Rightarrow> if finished (E_flags E) st then 0 else 6 - todo st | None \<Rightarrow> 0)"

lemma todo_less: "todo st < 6"
  by (simp add: todo_def)

lemma not_goal:
  assumes "\<not> config_goal E view s"
  obtains st where "view (world s) = Some st" and "\<not> finished (E_flags E) st"
  using assms by (auto simp: config_goal_def)

lemma request_gets_on:
  assumes "config_course E view good fresh cfg0 s" and "\<not> config_goal E view s"
    and "Reconcile E (ResourceWatched (E_flags E)) s = (r, s')"
  shows "config_course E view good fresh cfg0 s'" and "stages_left E view s' < stages_left E view s"
    and "\<exists>res. r = Ok (res, None)"
proof -
  from assms(1) have H: "healthy E view good fresh cfg0" and s: "on_course E view good cfg0 s"
    by (simp_all add: config_course_def)
  obtain st where st: "view (world s) = Some st" "\<not> finished (E_flags E) st" by (rule not_goal [OF assms(2)])
  obtain cfg v t where run: "Reconcile E (ResourceWatched (E_flags E)) s = (Ok v, t)" "Status cfg = st"
      "moved_on E view good cfg0 cfg v t"
    by (rule Reconcile_gets_on [OF H s st])
  obtain st' where st': "on_course E view good cfg0 t" "view (world t) = Some st'"
      "finished (E_flags E) st' \<or> todo st' = Suc (todo (Status cfg))"
    by (rule moved_on_course [OF run(3)])
  from H st'(1) run(1) assms(3) show "config_course E view good fresh cfg0 s'" by (simp add: config_course_def)
  from st st'(2,3) run(1,2) assms(3) todo_less [of st] todo_less [of st']
  show "stages_left E view s' < stages_left E view s" by (auto simp: stages_left_def)
  from run(1,3) assms(3) show "\<exists>res. r = Ok (res, None)" by (cases v) (auto simp: moved_on_def)
qed

interpretation course: advancing "config_reconciler E" "config_requests scope"
    "config_env (ResourceWatched (E_flags E)) view" "config_request (E_flags E)" "config_goal E view"
    "config_course E view good fresh cfg0" "stages_left E view"
  for E :: "'w env" and scope and view and good fresh cfg0
proof
  fix s s' :: "'w sys" and r req
  assume s: "config_course E view good fresh cfg0 s" and unfinished: "\<not> config_goal E view s"
  note on = request_gets_on [OF s unfinished]
  {
    assume run: "config_reconciler E (config_request (E_flags E)) s = (r, s')"
    then show "config_goal E view s' \<or> stages_left E view s' < stages_left E view s"
      using on by (simp add: config_reconciler_def config_request_def)
  }
  assume "config_reconciler E req s = (r, s')"
  then have run: "Reconcile E (req_Name req) s = (r, s')" by (simp add: config_reconciler_def)
  have "config_course E view good fresh cfg0 s' \<and> stages_left E view s' \<le> stages_left E view s \<and> \<not> is_panic r"
  proof (cases "req_Name req = ResourceWatched (E_flags E)")
    case True
    with on run show ?thesis by fastforce
  next
    case False
    from s have H: "healthy E view good fresh cfg0" by (simp add: config_course_def)
    from other_request [OF H False run] s show ?thesis by (simp add: config_course_def stages_left_def)
  qed
  then show "config_course E view good fresh cfg0 s' \<and> stages_left E view s' \<le> stages_left E view s"
    and "\<not> is_panic r" by simp_all
qed

section \<open>Properties\<close>



section \<open>A cluster that is well\<close>

text \<open>
  The sample cluster, on which the strategic merge patches of the kinds there are find nothing to change: its
  deployments are rolled out as soon as they are there.
\<close>

definition prompt_env :: "store env" where
  "prompt_env = sample_env\<lparr>E_client := sample_client\<lparr>known_types := NewScheme\<lparr>unversionedKinds :=
     List.map (\<lambda>k. (k, (''v1'', k))) [''Namespace'', ''Deployment'', ''ClusterTask'', ''MutatingWebhookConfiguration'']\<rparr>\<rparr>\<rparr>"

definition prompt_good :: "store \<Rightarrow> bool" where
  "prompt_good w \<longleftrightarrow> (\<forall>cfg. st_config w = Some cfg \<longrightarrow> copy_of sample_config cfg)"

definition prompt_fresh :: "Config \<Rightarrow> store \<Rightarrow> bool" where
  "prompt_fresh c w \<longleftrightarrow> st_config w = Some c"

definition sample_hook :: "string \<Rightarrow> obj" where
  "sample_hook name = sample_object ''MutatingWebhookConfiguration'' name @ [(''webhooks'', JList [])]"

definition prompt_sys :: "store sys" where
  "prompt_sys = (sample_sys (Some sample_config))\<lparr>
     r_pipeline := sample_manifest [sample_object ''Namespace'' ''tekton-pipelines'',
       sample_deployment PipelineControllerName ''pipeline.tekton.dev/release'',
       sample_deployment PipelineWebhookName ''app'', sample_hook PipelineWebhookConfiguration],
     r_triggers := sample_manifest [
       sample_deployment TriggerControllerName ''triggers.tekton.dev/release'',
       sample_deployment TriggerWebhookName ''app'', sample_hook TriggerWebhookConfiguration]\<rparr>"

lemma prompt_client [simp]:
  "get_config (E_client prompt_env) = sample_get_config" "update_status (E_client prompt_env) = sample_update_status"
  "get_obj (E_client prompt_env) = sample_get" "create_obj (E_client prompt_env) = sample_create"
  "update_obj (E_client prompt_env) = sample_update" "delete_obj (E_client prompt_env) = sample_delete"
  "get_deployment (E_client prompt_env) = get_deployment sample_client"
  "get_webhook (E_client prompt_env) = (\<lambda>n st. (Inr (), st))" "poll_ticks (E_client prompt_env) = (\<lambda>n st. (n, st))"
  "E_flags prompt_env = E_flags sample_env" "E_platform prompt_env = E_platform sample_env" "E_conv prompt_env = E_conv sample_env"
  by (simp_all add: prompt_env_def sample_client_def)

lemma present_prompt: "present (E_client prompt_env) u w \<longleftrightarrow> list_ex (same_object u) (st_objects w)"
  by (auto simp: present_def sample_get_def find_None_iff list_ex_iff split: option.split) (metis find_None_iff option.distinct(1))+

lemma absent_prompt: "absent (E_client prompt_env) u w \<longleftrightarrow> \<not> list_ex (same_object u) (st_objects w)"
  by (auto simp: absent_def sample_get_def find_None_iff list_ex_iff not_found_def split: option.split)
    (auto simp: find_Some_iff)

lemma same_object_eq:
  "same_object u v \<Longrightarrow> same_object w u = same_object w v" "same_identity u v \<Longrightarrow> same_object u = same_object v"
  by (auto simp: same_object_def [abs_def] same_identity_def fun_eq_iff)

text \<open>The calls about objects leave the Config alone.\<close>

lemma prompt_config:
  "st_config (snd (sample_get u w)) = st_config w" "st_config (snd (sample_create u w)) = st_config w"
  "st_config (snd (sample_update u w)) = st_config w" "st_config (snd (sample_delete b u w)) = st_config w"
  "snd (sample_get_config ns n w) = w" "snd (sample_get u w) = w" "snd (get_deployment sample_client ns n w) = w"
  by (simp_all add: sample_get_def sample_create_def sample_update_def sample_delete_def sample_get_config_def
      sample_client_def split: option.split)

lemma prompt_updated:
  assumes "list_ex (same_object u) (st_objects w)"
  shows "list_ex (same_object u) (st_objects (snd (sample_update v w)))"
proof -
  from assms obtain x where x: "x \<in> set (st_objects w)" "same_object u x" by (auto simp: list_ex_iff)
  let ?y = "if same_object v x then v else x"
  have "same_object u ?y" using x(2) by (simp add: same_object_def)
  moreover have "?y \<in> set (st_objects (snd (sample_update v w)))"
    using x(1) unfolding sample_update_def by (simp del: if_image_distrib)
  ultimately show ?thesis by (auto simp: list_ex_iff)
qed

lemma prompt_objects:
  "st_objects (snd (sample_update_status tmp w)) = st_objects w"
  "list_ex (same_object u) (st_objects w) \<Longrightarrow> list_ex (same_object u) (st_objects (snd (sample_create v w)))"
  "\<not> list_ex (same_object u) (st_objects w) \<Longrightarrow> \<not> list_ex (same_object u) (st_objects (snd (sample_delete b v w)))"
  "\<not> list_ex (same_object u) (st_objects (snd (sample_delete b u w)))"
  by (auto simp: sample_update_status_def sample_create_def sample_delete_def list_ex_iff split: option.split)

lemma prompt_good_kept:
  "prompt_good (snd (sample_create u w)) = prompt_good w" "prompt_good (snd (sample_update u w)) = prompt_good w"
  "prompt_good (snd (sample_delete b u w)) = prompt_good w"
  by (simp_all add: prompt_good_def prompt_config)

lemma prompt_good_status: "prompt_good w \<Longrightarrow> prompt_good (snd (sample_update_status tmp w))"
  by (cases "st_config w") (simp_all add: prompt_good_def sample_update_status_def copy_of_def)

lemma prompt_independent: "independent (E_client prompt_env) prompt_good prompt_fresh"
  unfolding independent_def Let_def reads_keep_def writes_keep_def deletes_keep_def status_keeps_def preserves_def
    present_prompt absent_prompt prompt_client
  by (simp add: prompt_config prompt_objects prompt_updated prompt_good_kept prompt_good_status prompt_fresh_def)

lemma prompt_answers: "answers (E_client prompt_env) prompt_good"
proof -
  have "fst (sample_create u w) = Inr () \<and> list_ex (same_object v) (st_objects (snd (sample_create u w)))"
    if "\<not> list_ex (same_object v) (st_objects w)" "same_identity u v" for u v w
    using that same_object_eq(2) [OF that(2)] by (auto simp: sample_create_def same_object_def same_identity_def)
  moreover have "IsNotFound e" if "fst (sample_delete b u w) = Inl e" for b u w e
    using that by (auto simp: sample_delete_def not_found_def split: if_splits)
  ultimately show ?thesis
    unfolding answers_def present_prompt absent_prompt prompt_client
    by (auto simp: prompt_objects(4) sample_update_def)
qed

lemma prompt_rollout: "rollout_done (rolled_out n) = Ok True"
  by (simp add: rollout_done_def rolled_out_def getDeploymentCondition_def)

lemma prompt_healthy: "healthy prompt_env sample_view prompt_good prompt_fresh sample_config"
  unfolding healthy_def healthy_objects_def
proof (intro conjI prompt_independent prompt_answers)
  show "Cfg_name sample_config = ResourceWatched (E_flags prompt_env)"
    by (simp add: sample_names sample_config_def sample_owner_def)
  show "config_server (E_client prompt_env) (ResourceWatched (E_flags prompt_env)) sample_view"
    using sample_config_server by (simp add: sample_names config_server_def sample_client_def)
  show "healthy_config (E_client prompt_env) sample_view prompt_good prompt_fresh sample_config"
  proof -
    have n: "Cfg_namespace sample_config = []" "Cfg_name sample_config = ClusterCRName"
      by (simp_all add: sample_config_def sample_owner_def)
    have read: "\<exists>cfg w'. sample_get_config [] ClusterCRName w = (Inr cfg, w') \<and> prompt_fresh cfg w' \<and>
        Cfg_owner cfg = Cfg_owner sample_config \<and> Cfg_TargetNamespace cfg = Cfg_TargetNamespace sample_config \<and>
        Cfg_namespace cfg = []"
      if "prompt_good w" "sample_view w \<noteq> None" for w
      using that by (cases "st_config w")
        (simp_all add: sample_view_def sample_get_config_def prompt_good_def prompt_fresh_def copy_of_def split: if_splits)
    have written: "fst (sample_update_status (c\<lparr>Status := st\<rparr>) w) = Inr () \<and>
        sample_view (snd (sample_update_status (c\<lparr>Status := st\<rparr>) w)) = Some st"
      if w: "prompt_good w" "prompt_fresh c w" for w c st
    proof -
      from w(2) have c: "st_config w = Some c" by (simp add: prompt_fresh_def)
      with w(1) have "Cfg_owner c = Cfg_owner sample_config" by (simp add: prompt_good_def copy_of_def)
      then have "Cfg_name c = ClusterCRName" using n(2) by (simp only:)
      then show ?thesis by (simp add: sample_update_status_def sample_view_def c)
    qed
    show ?thesis
      unfolding healthy_config_def prompt_client n
      by (intro conjI allI impI refl) (rule read written [THEN conjunct1] written [THEN conjunct2]; assumption)+
  qed
  show "healthy_workloads (E_client prompt_env) prompt_good"
    unfolding healthy_workloads_def present_prompt prompt_client
    by (auto simp: sample_client_def list_ex_iff same_object_def prompt_rollout)
qed

text \<open>The patches are empty.\<close>

definition prompt_kind :: "obj \<Rightarrow> bool" where
  "prompt_kind u \<longleftrightarrow> snd (snd (GroupVersionKind u)) \<in>
     set [''Namespace'', ''Deployment'', ''ClusterTask'', ''MutatingWebhookConfiguration'']"

lemma prompt_patchable: "prompt_kind u \<Longrightarrow> patchable (E_client prompt_env) prompt_good u"
  by (auto simp: prompt_kind_def patchable_def patch_New_def New_type_def NewScheme_def createStrategicMergePatch_def
      prompt_env_def sample_client_def)

lemma prompt_usable: "(resources m \<noteq> [] \<longrightarrow> has_client m) \<Longrightarrow> list_all prompt_kind (resources m) \<Longrightarrow>
    usable (E_client prompt_env) prompt_good m"
  by (auto simp: usable_def list_all_iff intro: prompt_patchable)

lemma prompt_pipeline: "ready_pipeline prompt_env prompt_good sample_config (r_pipeline prompt_sys)"
proof -
  have "case transformed prompt_env sample_config PipelinesImagePrefix (\<lambda>images. [DeploymentImages (E_conv prompt_env) images])
      (r_pipeline prompt_sys) of Ok m \<Rightarrow> has_client m \<and> list_all prompt_kind (resources m) \<and>
        serves (Cfg_TargetNamespace sample_config) PipelineControllerName PipelineWebhookName PipelineWebhookConfiguration
          (set (resources m)) | _ \<Rightarrow> False"
    by code_simp
  then show ?thesis
    unfolding ready_component_def by (auto intro: prompt_usable split: res.splits)
qed

lemma prompt_triggers: "ready_triggers prompt_env prompt_good sample_config (r_triggers prompt_sys)"
proof -
  have "case transformed prompt_env sample_config TriggersImagePrefix (\<lambda>images. [DeploymentImages (E_conv prompt_env) images])
      (r_triggers prompt_sys) of Ok m \<Rightarrow> has_client m \<and> list_all prompt_kind (resources m) \<and>
        serves (Cfg_TargetNamespace sample_config) TriggerControllerName TriggerWebhookName TriggerWebhookConfiguration
          (set (resources m)) | _ \<Rightarrow> False"
    by code_simp
  then show ?thesis
    unfolding ready_component_def by (auto intro: prompt_usable split: res.splits)
qed

lemma prompt_addons:
  "ready_addons prompt_env prompt_good sample_config addons_transformers (r_addons prompt_sys)"
  "ready_addons prompt_env prompt_good sample_config community_transformers (r_community prompt_sys)"
proof -
  have ready: "ready_addons prompt_env prompt_good sample_config extra m"
    if "case transformed prompt_env sample_config AddonsImagePrefix extra m of
      Ok m' \<Rightarrow> list_all prompt_kind (resources m') \<and> deletable m' | _ \<Rightarrow> False" for extra m
    using that unfolding ready_addons_def by (auto intro: prompt_usable simp: deletable_def split: res.splits)
  show "ready_addons prompt_env prompt_good sample_config addons_transformers (r_addons prompt_sys)"
    by (rule ready) code_simp
  show "ready_addons prompt_env prompt_good sample_config community_transformers (r_community prompt_sys)"
    by (rule ready) code_simp
qed

lemma prompt_start: "prompt_good (world prompt_sys)" "sample_view (world prompt_sys) = Some (Status sample_config)"
  by (simp_all add: prompt_good_def copy_of_def prompt_sys_def sample_sys_def sample_view_def sample_config_def sample_owner_def)

lemma prompt_unfinished: "\<not> finished (E_flags prompt_env) (Status sample_config)" "todo (Status sample_config) = 0"
  by code_simp+

lemma prompt_on_course: "on_course prompt_env sample_view prompt_good sample_config prompt_sys"
proof -
  have "has_controllers prompt_sys" by code_simp
  moreover have "in_memory prompt_env prompt_good sample_config 0 prompt_sys"
    by (simp add: in_memory_def prompt_pipeline prompt_triggers prompt_addons)
  moreover have "\<not> unhandled_status (head_status (Conditions (Status sample_config)))" by code_simp
  ultimately show ?thesis
    unfolding on_course_def prepared_def
    by (intro conjI exI [of _ "Status sample_config"] exI [of _ "{}"] impI)
      (simp_all add: prompt_start prompt_unfinished(2))
qed


definition prompt_boot :: "(store sys, Request, config_event) controller" where
  "prompt_boot = sample_boot\<lparr>c_sys := prompt_sys\<rparr>"


end
