(* ===== verification/Rbac.thy ===== *)
theory Rbac imports Validate begin

text \<open>
  The rbac controller (\<open>pkg/controller/rbac/rbac_controller.go\<close>): in every namespace that the ignore
  pattern does not match it keeps a service account, the cluster role \<open>pipeline-anyuid\<close> and two role
  bindings of the service account.

  \<open>rbac_client\<close> is the controller-runtime client and the clientset, \<open>MatchString\<close> the regular
  expression engine; both are arguments.  A handler returns the error; the result is always empty.
  \<open>has_clientset\<close> says that the field \<open>kc\<close> of the receiver is not nil: \<open>r.kc.RbacV1()\<close> dereferences it.
\<close>

record 'w rbac_client =
  has_clientset :: bool
  MatchString :: "string \<Rightarrow> string \<Rightarrow> bool \<times> go_error option"
  get_ns :: "string \<Rightarrow> string \<Rightarrow> 'w \<Rightarrow> (go_error + string) \<times> 'w"
  get_sa :: "string \<Rightarrow> string \<Rightarrow> 'w \<Rightarrow> (go_error + ServiceAccount) \<times> 'w"
  create_sa :: "ServiceAccount \<Rightarrow> 'w \<Rightarrow> (go_error + unit) \<times> 'w"
  get_rb :: "string \<Rightarrow> string \<Rightarrow> 'w \<Rightarrow> (go_error + RoleBinding) \<times> 'w"
  create_rb :: "string \<Rightarrow> RoleBinding \<Rightarrow> 'w \<Rightarrow> (go_error + unit) \<times> 'w"
  update_rb :: "string \<Rightarrow> RoleBinding \<Rightarrow> 'w \<Rightarrow> (go_error + unit) \<times> 'w"
  get_cr :: "string \<Rightarrow> 'w \<Rightarrow> (go_error + ClusterRole) \<times> 'w"
  create_cr :: "ClusterRole \<Rightarrow> 'w \<Rightarrow> (go_error + unit) \<times> 'w"
  update_cr :: "ClusterRole \<Rightarrow> 'w \<Rightarrow> (go_error + unit) \<times> 'w"

definition GroupName :: string where
  "GroupName = ''rbac.authorization.k8s.io''"

definition ServiceAccountKind :: string where
  "ServiceAccountKind = ''ServiceAccount''"

definition with_clientset ::
  "'w rbac_client \<Rightarrow> (('w, 'z) cluster_scheme, 'a) go \<Rightarrow> (('w, 'z) cluster_scheme, 'a) go" where
  "with_clientset K act =
     (if has_clientset K then act else go_panic ''invalid memory address or nil pointer dereference'')"

section \<open>Role bindings\<close>

definition hasSubject :: "Subject list \<Rightarrow> Subject \<Rightarrow> bool" where
  "hasSubject subjects x =
     list_ex (\<lambda>v. S_Name v = S_Name x \<and> S_Kind v = S_Kind x \<and> S_Namespace v = S_Namespace x) subjects"

definition sa_subject :: "ServiceAccount \<Rightarrow> Subject" where
  "sa_subject sa = \<lparr>S_Kind = ServiceAccountKind, S_APIGroup = [], S_Name = sa_Name sa,
     S_Namespace = sa_Namespace sa\<rparr>"

text \<open>\<open>createRoleBinding\<close> and \<open>createSCCRoleBinding\<close> are the same function up to the name.\<close>

definition new_role_binding :: "string \<Rightarrow> ServiceAccount \<Rightarrow> RoleBinding" where
  "new_role_binding name sa = \<lparr>rb_Name = name, rb_Namespace = sa_Namespace sa, rb_rest = [],
     rb_RoleRef = \<lparr>Ref_APIGroup = GroupName, Ref_Kind = ''ClusterRole'', Ref_Name = name\<rparr>,
     Subjects = [sa_subject sa]\<rparr>"

definition create_named_binding ::
  "'w rbac_client \<Rightarrow> string \<Rightarrow> ServiceAccount \<Rightarrow> (('w, 'z) cluster_scheme, unit) go" where
  "create_named_binding K name sa =
     (let rb = new_role_binding name sa
      in with_clientset K (call (create_rb K (sa_Namespace sa) rb) (CreateRB (sa_Namespace sa) rb)))"

definition createRoleBinding ::
  "'w rbac_client \<Rightarrow> ServiceAccount \<Rightarrow> (('w, 'z) cluster_scheme, unit) go" where
  "createRoleBinding K sa = create_named_binding K ''edit'' sa"

definition createSCCRoleBinding ::
  "'w rbac_client \<Rightarrow> ServiceAccount \<Rightarrow> (('w, 'z) cluster_scheme, unit) go" where
  "createSCCRoleBinding K sa = create_named_binding K PipelineAnyuid sa"

definition updateRoleBinding ::
  "'w rbac_client \<Rightarrow> RoleBinding \<Rightarrow> ServiceAccount \<Rightarrow> (('w, 'z) cluster_scheme, unit) go" where
  "updateRoleBinding K rb sa =
     (let subject = sa_subject sa
      in if hasSubject (Subjects rb) subject then go_return ()
         else let rb = rb\<lparr>Subjects := Subjects rb @ [subject]\<rparr>
              in with_clientset K (call (update_rb K (sa_Namespace sa) rb) (UpdateRB (sa_Namespace sa) rb)))"

text \<open>
  \<open>ensureRoleBindings\<close> and \<open>ensureSCCRoleBinding\<close>: read the binding, check the cluster role of the
  same name, then create the binding or add the subject.
\<close>

definition ensure_binding ::
  "'w rbac_client \<Rightarrow> string \<Rightarrow> (ServiceAccount \<Rightarrow> (('w, 'z) cluster_scheme, unit) go)
   \<Rightarrow> ServiceAccount \<Rightarrow> (('w, 'z) cluster_scheme, unit) go" where
  "ensure_binding K name create sa =
     (let check = (\<lambda>next. go_bind (call (get_cr K name) (GetCR name)) (\<lambda>cr. next))
      in with_clientset K (go_catch (call (get_rb K (sa_Namespace sa) name) (GetRB (sa_Namespace sa) name))
           (\<lambda>rbErr. if \<not> IsNotFound rbErr then go_fail rbErr else check (create sa))
           (\<lambda>rb. check (updateRoleBinding K rb sa))))"

definition ensureRoleBindings ::
  "'w rbac_client \<Rightarrow> ServiceAccount \<Rightarrow> (('w, 'z) cluster_scheme, unit) go" where
  "ensureRoleBindings K sa = ensure_binding K ''edit'' (createRoleBinding K) sa"

definition ensureSCCRoleBinding ::
  "'w rbac_client \<Rightarrow> ServiceAccount \<Rightarrow> (('w, 'z) cluster_scheme, unit) go" where
  "ensureSCCRoleBinding K sa = ensure_binding K PipelineAnyuid (createSCCRoleBinding K) sa"

section \<open>The cluster role\<close>

definition anyuid_role :: ClusterRole where
  "anyuid_role = \<lparr>cr_Name = PipelineAnyuid,
     Rules = [\<lparr>APIGroups = [''security.openshift.io''], ResourceNames = [''anyuid''],
               Resources = [''securitycontextconstraints''], Verbs = [''use'']\<rparr>]\<rparr>"

definition ensureSCClusterRole :: "'w rbac_client \<Rightarrow> (('w, 'z) cluster_scheme, unit) go" where
  "ensureSCClusterRole K =
     with_clientset K (go_catch (call (get_cr K PipelineAnyuid) (GetCR PipelineAnyuid))
       (\<lambda>err. if IsNotFound err then call (create_cr K anyuid_role) (CreateCR anyuid_role) else go_fail err)
       (\<lambda>cr. call (update_cr K anyuid_role) (UpdateCR anyuid_role)))"

section \<open>The service account\<close>

definition ensureSA ::
  "'w rbac_client \<Rightarrow> flags \<Rightarrow> string \<Rightarrow> (('w, 'z) cluster_scheme, ServiceAccount) go" where
  "ensureSA K F ns =
     go_catch (call (get_sa K ns (PipelineSA F)) (GetSA ns (PipelineSA F)))
       (\<lambda>err. if \<not> IsNotFound err then go_fail err
          else let sa = \<lparr>sa_Name = PipelineSA F, sa_Namespace = ns\<rparr>
               in go_bind (call (create_sa K sa) (CreateSA sa)) (\<lambda>u. go_return sa))
       go_return"

text \<open>The value is the name of the namespace that was read.\<close>

definition getNS :: "'w rbac_client \<Rightarrow> string \<Rightarrow> string \<Rightarrow> (('w, 'z) cluster_scheme, string) go" where
  "getNS K ns name = call (get_ns K ns name) (GetNS ns name)"

section \<open>Reconcile\<close>

text \<open>\<open>req_ns\<close> and \<open>req\<close> are the namespace and the name of the request; the error of the match is dropped.\<close>

definition Reconcile_rbac ::
  "'w rbac_client \<Rightarrow> flags \<Rightarrow> string \<Rightarrow> string \<Rightarrow> (('w, 'z) cluster_scheme, result \<times> go_error option) go" where
  "Reconcile_rbac K F req_ns req =
     (let failed = (\<lambda>err. go_return (emptyResult, Some err))
      in if fst (MatchString K (IgnorePattern F) req) then go_return (emptyResult, None)
         else go_catch (getNS K req_ns req) (\<lambda>err. go_return (emptyResult, ignoreNotFound err)) (\<lambda>ns.
              go_catch (ensureSA K F ns) failed (\<lambda>sa.
              go_catch (ensureSCClusterRole K) failed (\<lambda>u.
              go_catch (ensureSCCRoleBinding K sa) failed (\<lambda>u.
              go_catch (ensureRoleBindings K sa) failed (\<lambda>u.
              go_return (emptyResult, None)))))))"

section \<open>The objects the controller keeps\<close>

text \<open>
  What the API server promises about service accounts, role bindings and the cluster role: views of
  the world that the reads report and that only successful writes change.  Any call may fail.  A read
  that does not find the object says so only if the object is not there.
\<close>

record 'w rbac_view =
  v_sas :: "'w \<Rightarrow> string \<times> string \<Rightarrow> ServiceAccount option"
  v_rbs :: "'w \<Rightarrow> string \<times> string \<Rightarrow> RoleBinding option"
  v_crs :: "'w \<Rightarrow> string \<Rightarrow> ClusterRole option"

definition same_view :: "'w rbac_view \<Rightarrow> 'w \<Rightarrow> 'w \<Rightarrow> bool" where
  "same_view V w w' \<longleftrightarrow> v_sas V w' = v_sas V w \<and> v_rbs V w' = v_rbs V w \<and> v_crs V w' = v_crs V w"

text \<open>A write is applied as it was sent, up to what the server adds to the metadata, or not at all.\<close>

definition writes_rb :: "'w rbac_view \<Rightarrow> string \<Rightarrow> RoleBinding \<Rightarrow> (go_error + unit) \<Rightarrow> 'w \<Rightarrow> 'w \<Rightarrow> bool" where
  "writes_rb V ns rb r w w' \<longleftrightarrow> v_sas V w' = v_sas V w \<and> v_crs V w' = v_crs V w \<and>
     (case r of
        Inr u \<Rightarrow> (\<exists>x. v_rbs V w' = (v_rbs V w)((ns, rb_Name rb) \<mapsto> rb\<lparr>rb_rest := x\<rparr>))
      | Inl e \<Rightarrow> v_rbs V w' = v_rbs V w)"

definition writes_cr :: "'w rbac_view \<Rightarrow> ClusterRole \<Rightarrow> (go_error + unit) \<Rightarrow> 'w \<Rightarrow> 'w \<Rightarrow> bool" where
  "writes_cr V cr r w w' \<longleftrightarrow> v_sas V w' = v_sas V w \<and> v_rbs V w' = v_rbs V w \<and>
     v_crs V w' = (case r of Inr u \<Rightarrow> (v_crs V w)(cr_Name cr \<mapsto> cr) | Inl e \<Rightarrow> v_crs V w)"

definition writes_sa :: "'w rbac_view \<Rightarrow> ServiceAccount \<Rightarrow> (go_error + unit) \<Rightarrow> 'w \<Rightarrow> 'w \<Rightarrow> bool" where
  "writes_sa V sa r w w' \<longleftrightarrow> v_rbs V w' = v_rbs V w \<and> v_crs V w' = v_crs V w \<and>
     v_sas V w' = (case r of Inr u \<Rightarrow> (v_sas V w)((sa_Namespace sa, sa_Name sa) \<mapsto> sa) | Inl e \<Rightarrow> v_sas V w)"

definition reports :: "(go_error + 'a) \<Rightarrow> 'a option \<Rightarrow> bool" where
  "reports r stored \<longleftrightarrow> (case r of Inr a \<Rightarrow> stored = Some a | Inl e \<Rightarrow> IsNotFound e \<longrightarrow> stored = None)"

definition rbac_server :: "'w rbac_client \<Rightarrow> 'w rbac_view \<Rightarrow> bool" where
  "rbac_server K V \<longleftrightarrow> has_clientset K \<and>
     (\<forall>ns n w. same_view V w (snd (get_ns K ns n w)) \<and> (\<forall>x. fst (get_ns K ns n w) = Inr x \<longrightarrow> x = n)) \<and>
     (\<forall>ns n w. same_view V w (snd (get_sa K ns n w)) \<and> reports (fst (get_sa K ns n w)) (v_sas V w (ns, n))) \<and>
     (\<forall>ns n w. same_view V w (snd (get_rb K ns n w)) \<and> reports (fst (get_rb K ns n w)) (v_rbs V w (ns, n))) \<and>
     (\<forall>n w. same_view V w (snd (get_cr K n w)) \<and> reports (fst (get_cr K n w)) (v_crs V w n)) \<and>
     (\<forall>w ns n sa. v_sas V w (ns, n) = Some sa \<longrightarrow> sa = \<lparr>sa_Name = n, sa_Namespace = ns\<rparr>) \<and>
     (\<forall>w ns n rb. v_rbs V w (ns, n) = Some rb \<longrightarrow> rb_Name rb = n) \<and>
     (\<forall>sa w. writes_sa V sa (fst (create_sa K sa w)) w (snd (create_sa K sa w))) \<and>
     (\<forall>ns rb w. writes_rb V ns rb (fst (create_rb K ns rb w)) w (snd (create_rb K ns rb w))) \<and>
     (\<forall>ns rb w. writes_rb V ns rb (fst (update_rb K ns rb w)) w (snd (update_rb K ns rb w))) \<and>
     (\<forall>cr w. writes_cr V cr (fst (create_cr K cr w)) w (snd (create_cr K cr w))) \<and>
     (\<forall>cr w. writes_cr V cr (fst (update_cr K cr w)) w (snd (update_cr K cr w)))"

section \<open>What a reconciliation keeps\<close>

text \<open>A binding of the service account after it has been ensured: as before, or with the subject added.\<close>

definition binding_grows :: "ServiceAccount \<Rightarrow> RoleBinding \<Rightarrow> RoleBinding \<Rightarrow> bool" where
  "binding_grows sa rb rb' \<longleftrightarrow> rb_RoleRef rb' = rb_RoleRef rb \<and>
     (Subjects rb' = Subjects rb \<or>
      \<not> hasSubject (Subjects rb) (sa_subject sa) \<and> Subjects rb' = Subjects rb @ [sa_subject sa])"

definition own_binding :: "ServiceAccount \<Rightarrow> string \<times> string \<Rightarrow> bool" where
  "own_binding sa k \<longleftrightarrow> fst k = sa_Namespace sa \<and> snd k \<in> {''edit'', PipelineAnyuid}"

definition binding_kept ::
  "ServiceAccount \<Rightarrow> string \<times> string \<Rightarrow> RoleBinding option \<Rightarrow> RoleBinding option \<Rightarrow> bool" where
  "binding_kept sa k old new \<longleftrightarrow> new = old \<or> own_binding sa k \<and> new \<noteq> None \<and>
     (case old of
        Some rb \<Rightarrow> binding_grows sa rb (the new)
      | None \<Rightarrow> rb_RoleRef (the new) = rb_RoleRef (new_role_binding (snd k) sa) \<and>
                Subjects (the new) = [sa_subject sa])"

definition rbac_kept :: "'w rbac_view \<Rightarrow> ServiceAccount \<Rightarrow> 'w \<Rightarrow> 'w \<Rightarrow> bool" where
  "rbac_kept V sa w w' \<longleftrightarrow>
     (v_sas V w' = v_sas V w \<or> v_sas V w' = (v_sas V w)((sa_Namespace sa, sa_Name sa) \<mapsto> sa)) \<and>
     (v_crs V w' = v_crs V w \<or> v_crs V w' = (v_crs V w)(PipelineAnyuid \<mapsto> anyuid_role)) \<and>
     (\<forall>k. binding_kept sa k (v_rbs V w k) (v_rbs V w' k))"

lemma hasSubject_self [simp]: "hasSubject (xs @ [x]) x" "hasSubject [x] x"
  by (simp_all add: hasSubject_def)

lemma binding_kept_trans:
  "binding_kept sa k a b \<Longrightarrow> binding_kept sa k b c \<Longrightarrow> binding_kept sa k a c"
  by (auto simp: binding_kept_def binding_grows_def split: option.splits)

lemma rbac_kept_refl: "rbac_kept V sa w w"
  by (simp add: rbac_kept_def binding_kept_def)

lemma rbac_kept_trans: "rbac_kept V sa u v \<Longrightarrow> rbac_kept V sa v w \<Longrightarrow> rbac_kept V sa u w"
  unfolding rbac_kept_def by (intro conjI allI; (blast intro: binding_kept_trans)?) auto

interpretation rk: step_relation "\<lambda>s t. rbac_kept V sa (world s) (world t)"
  for V :: "'w rbac_view" and sa
  by unfold_locales (auto intro: rbac_kept_refl rbac_kept_trans)

lemma world_snd_call: "world (snd (call f ev s)) = snd (f (world s))"
  by (simp add: call_def split: prod.split sum.split)

lemma same_view_kept: "same_view V w w' \<Longrightarrow> rbac_kept V sa w w'"
  by (simp add: same_view_def rbac_kept_def binding_kept_def)

lemma writes_kept:
  "writes_sa V sa r w w' \<Longrightarrow> rbac_kept V sa w w'"
  "writes_cr V anyuid_role r w w' \<Longrightarrow> rbac_kept V sa w w'"
  by (auto simp: writes_sa_def writes_cr_def rbac_kept_def binding_kept_def anyuid_role_def
      split: sum.splits)

definition has_binding :: "'w rbac_view \<Rightarrow> ServiceAccount \<Rightarrow> 'w \<Rightarrow> string \<Rightarrow> bool" where
  "has_binding V sa w name \<longleftrightarrow> (case v_rbs V w (sa_Namespace sa, name) of
     Some rb \<Rightarrow> hasSubject (Subjects rb) (sa_subject sa) | None \<Rightarrow> False)"

lemma has_binding_kept:
  assumes "has_binding V sa w name" and "rbac_kept V sa w w'"
  shows "has_binding V sa w' name"
proof -
  from assms(2) have "binding_kept sa (sa_Namespace sa, name) (v_rbs V w (sa_Namespace sa, name))
      (v_rbs V w' (sa_Namespace sa, name))"
    by (simp add: rbac_kept_def)
  with assms(1) show ?thesis
    by (auto simp: has_binding_def binding_kept_def binding_grows_def split: option.splits)
qed

text \<open>The two ways a binding is written.\<close>

lemma written_kept:
  assumes "writes_rb V ns rb r w w'" and "\<And>x. binding_kept sa (ns, rb_Name rb) (v_rbs V w (ns, rb_Name rb))
      (Some (rb\<lparr>rb_rest := x\<rparr>))"
  shows "rbac_kept V sa w w' \<and>
    (r = Inr () \<longrightarrow> (\<exists>x. v_rbs V w' (ns, rb_Name rb) = Some (rb\<lparr>rb_rest := x\<rparr>)))"
proof (cases r)
  case (Inl e)
  with assms(1) show ?thesis by (simp add: writes_rb_def rbac_kept_def binding_kept_def)
next
  case (Inr u)
  with assms(1) obtain x where x: "v_sas V w' = v_sas V w" "v_crs V w' = v_crs V w"
    "v_rbs V w' = (v_rbs V w)((ns, rb_Name rb) \<mapsto> rb\<lparr>rb_rest := x\<rparr>)"
    by (auto simp: writes_rb_def)
  have "binding_kept sa k (v_rbs V w k) (v_rbs V w' k)" for k
    using x(3) assms(2) [of x] by (cases "k = (ns, rb_Name rb)") (auto simp: binding_kept_def)
  with x(1,2) have "rbac_kept V sa w w'" by (simp add: rbac_kept_def)
  moreover from x(3) have "v_rbs V w' (ns, rb_Name rb) = Some (rb\<lparr>rb_rest := x\<rparr>)" by simp
  ultimately show ?thesis by blast
qed

lemma create_binding_kept:
  assumes "writes_rb V (sa_Namespace sa) (new_role_binding name sa) r w w'"
    and "v_rbs V w (sa_Namespace sa, name) = None" and "name \<in> {''edit'', PipelineAnyuid}"
  shows "rbac_kept V sa w w' \<and> (r = Inr () \<longrightarrow> has_binding V sa w' name)"
proof -
  have "binding_kept sa (sa_Namespace sa, name) None (Some (new_role_binding name sa\<lparr>rb_rest := x\<rparr>))" for x
    using assms(3) by (auto simp: binding_kept_def own_binding_def new_role_binding_def)
  with written_kept [OF assms(1), of sa] assms(2) show ?thesis
    by (auto simp: has_binding_def new_role_binding_def)
qed

lemma update_binding_kept:
  assumes "writes_rb V (sa_Namespace sa) (rb\<lparr>Subjects := Subjects rb @ [sa_subject sa]\<rparr>) r w w'"
    and "v_rbs V w (sa_Namespace sa, name) = Some rb" and "rb_Name rb = name"
    and "\<not> hasSubject (Subjects rb) (sa_subject sa)" and "name \<in> {''edit'', PipelineAnyuid}"
  shows "rbac_kept V sa w w' \<and> (r = Inr () \<longrightarrow> has_binding V sa w' name)"
proof -
  have "binding_kept sa (sa_Namespace sa, name) (Some rb)
      (Some (rb\<lparr>Subjects := Subjects rb @ [sa_subject sa], rb_rest := x\<rparr>))" for x
    using assms(4,5) by (auto simp: binding_kept_def own_binding_def binding_grows_def)
  with written_kept [OF assms(1), of sa] assms(2,3) show ?thesis
    by (auto simp: has_binding_def)
qed

lemma call_cases:
  assumes "call f ev s = (r, s')" and "f (world s) = (q, w)"
  shows "world s' = w \<and> (case q of Inr a \<Rightarrow> r = Ok a | Inl e \<Rightarrow> r = Err e)"
  using assms by (auto simp: call_def split: sum.splits)

lemma with_clientset_server: "rbac_server K V \<Longrightarrow> with_clientset K act = act"
  by (simp add: rbac_server_def with_clientset_def)

lemma server_read_rb:
  "rbac_server K V \<Longrightarrow> get_rb K ns n w = (q, w') \<Longrightarrow>
   same_view V w w' \<and> reports q (v_rbs V w (ns, n))"
  unfolding rbac_server_def by (metis fst_conv snd_conv)

lemma server_read_cr:
  "rbac_server K V \<Longrightarrow> get_cr K n w = (q, w') \<Longrightarrow> same_view V w w' \<and> reports q (v_crs V w n)"
  unfolding rbac_server_def by (metis fst_conv snd_conv)

lemma server_read_sa:
  "rbac_server K V \<Longrightarrow> get_sa K ns n w = (q, w') \<Longrightarrow>
   same_view V w w' \<and> reports q (v_sas V w (ns, n))"
  unfolding rbac_server_def by (metis fst_conv snd_conv)

lemma server_ns:
  "rbac_server K V \<Longrightarrow> get_ns K ns n w = (q, w') \<Longrightarrow> same_view V w w' \<and> (\<forall>x. q = Inr x \<longrightarrow> x = n)"
  unfolding rbac_server_def by (metis fst_conv snd_conv)

lemma server_write_rb:
  "rbac_server K V \<Longrightarrow> create_rb K ns rb w = (q, w') \<Longrightarrow> writes_rb V ns rb q w w'"
  "rbac_server K V \<Longrightarrow> update_rb K ns rb w = (q, w') \<Longrightarrow> writes_rb V ns rb q w w'"
  unfolding rbac_server_def by (metis fst_conv snd_conv)+

lemma server_write_cr:
  "rbac_server K V \<Longrightarrow> create_cr K cr w = (q, w') \<Longrightarrow> writes_cr V cr q w w'"
  "rbac_server K V \<Longrightarrow> update_cr K cr w = (q, w') \<Longrightarrow> writes_cr V cr q w w'"
  unfolding rbac_server_def by (metis fst_conv snd_conv)+

lemma server_write_sa:
  "rbac_server K V \<Longrightarrow> create_sa K sa w = (q, w') \<Longrightarrow> writes_sa V sa q w w'"
  unfolding rbac_server_def by (metis fst_conv snd_conv)

lemma server_names:
  "rbac_server K V \<Longrightarrow> v_rbs V w (ns, n) = Some rb \<Longrightarrow> rb_Name rb = n"
  "rbac_server K V \<Longrightarrow> v_sas V w (ns, n) = Some sa \<Longrightarrow> sa = \<lparr>sa_Name = n, sa_Namespace = ns\<rparr>"
  unfolding rbac_server_def by blast+

lemma updateRoleBinding_run:
  assumes K: "rbac_server K V" and run: "updateRoleBinding K rb sa s = (r, s')"
    and rb: "v_rbs V (world s) (sa_Namespace sa, name) = Some rb" and name: "name \<in> {''edit'', PipelineAnyuid}"
  shows "rbac_kept V sa (world s) (world s') \<and> (r = Ok () \<longrightarrow> has_binding V sa (world s') name) \<and> \<not> is_panic r"
proof (cases "hasSubject (Subjects rb) (sa_subject sa)")
  case True
  with run rb show ?thesis
    by (auto simp: updateRoleBinding_def Let_def go_return_def rbac_kept_refl has_binding_def)
next
  case False
  let ?rb = "rb\<lparr>Subjects := Subjects rb @ [sa_subject sa]\<rparr>"
  obtain q w where q: "update_rb K (sa_Namespace sa) ?rb (world s) = (q, w)"
    by (cases "update_rb K (sa_Namespace sa) ?rb (world s)")
  from run False have "call (update_rb K (sa_Namespace sa) ?rb) (UpdateRB (sa_Namespace sa) ?rb) s = (r, s')"
    by (simp add: updateRoleBinding_def Let_def with_clientset_server [OF K])
  from call_cases [OF this q]
    update_binding_kept [OF server_write_rb(2) [OF K q] rb server_names(1) [OF K rb] False name]
  show ?thesis by (cases q) auto
qed

lemma create_named_binding_run:
  assumes K: "rbac_server K V" and run: "create_named_binding K name sa s = (r, s')"
    and rb: "v_rbs V (world s) (sa_Namespace sa, name) = None" and name: "name \<in> {''edit'', PipelineAnyuid}"
  shows "rbac_kept V sa (world s) (world s') \<and> (r = Ok () \<longrightarrow> has_binding V sa (world s') name) \<and> \<not> is_panic r"
proof -
  let ?rb = "new_role_binding name sa"
  obtain q w where q: "create_rb K (sa_Namespace sa) ?rb (world s) = (q, w)"
    by (cases "create_rb K (sa_Namespace sa) ?rb (world s)")
  from call_cases [OF run [unfolded create_named_binding_def Let_def with_clientset_server [OF K]] q]
    create_binding_kept [OF server_write_rb(1) [OF K q] rb name]
  show ?thesis by (cases q) auto
qed

lemma ensure_binding_run:
  assumes K: "rbac_server K V" and run: "ensure_binding K name (create_named_binding K name) sa s = (r, s')"
    and name: "name \<in> {''edit'', PipelineAnyuid}"
  shows "rbac_kept V sa (world s) (world s') \<and> (r = Ok () \<longrightarrow> has_binding V sa (world s') name) \<and> \<not> is_panic r"
proof -
  note [simp] = with_clientset_server [OF K]
  let ?get = "call (get_rb K (sa_Namespace sa) name) (GetRB (sa_Namespace sa) name)"
  let ?k = "(sa_Namespace sa, name)"
  obtain q t where q: "?get s = (q, t)" by (cases "?get s")
  obtain q' w where q': "get_rb K (sa_Namespace sa) name (world s) = (q', w)"
    by (cases "get_rb K (sa_Namespace sa) name (world s)")
  note t = call_cases [OF q q'] and read = server_read_rb [OF K q']
  obtain p v where p: "call (get_cr K name) (GetCR name) t = (p, v)"
    by (cases "call (get_cr K name) (GetCR name) t")
  obtain p' x where p': "get_cr K name (world t) = (p', x)" by (cases "get_cr K name (world t)")
  note v = call_cases [OF p p'] and check = server_read_cr [OF K p']
  have views: "rbac_kept V sa (world s) (world t)" "rbac_kept V sa (world t) (world v)"
    "v_rbs V (world v) ?k = v_rbs V (world s) ?k"
    using read t check v by (auto intro!: same_view_kept simp: same_view_def)
  have stop: ?thesis if "s' = t" "r = Err e" for e using that views(1) by simp
  have stop': ?thesis if "s' = v" "r = Err e" for e
    using that rbac_kept_trans [OF views(1,2)] by simp
  have rest: ?thesis
    if "rbac_kept V sa (world v) (world s') \<and> (r = Ok () \<longrightarrow> has_binding V sa (world s') name) \<and> \<not> is_panic r"
    using that rbac_kept_trans [OF rbac_kept_trans [OF views(1,2)]] by simp
  show ?thesis
  proof (cases q')
    case (Inl e)
    with t have q_Err: "q = Err e" by simp
    show ?thesis
    proof (cases "IsNotFound e")
      case False
      with run q q_Err show ?thesis
        by (intro stop) (auto simp: ensure_binding_def Let_def go_catch_eq_cases go_fail_def)
    next
      case True
      with read Inl have none: "v_rbs V (world s) ?k = None" by (simp add: reports_def)
      show ?thesis
      proof (cases p')
        case e': (Inl e')
        with v True run q q_Err p show ?thesis
          by (intro stop') (auto simp: ensure_binding_def Let_def go_catch_eq_cases go_bind_eq_cases)
      next
        case (Inr cr)
        with v True run q q_Err p have "create_named_binding K name sa v = (r, s')"
          by (simp add: ensure_binding_def Let_def go_catch_eq_cases go_bind_eq_cases)
        from create_named_binding_run [OF K this _ name] none views(3) show ?thesis by (intro rest) simp
      qed
    qed
  next
    case (Inr rb)
    with t read have q_Ok: "q = Ok rb" and some: "v_rbs V (world s) ?k = Some rb"
      by (simp_all add: reports_def)
    show ?thesis
    proof (cases p')
      case e': (Inl e')
      with v run q q_Ok p show ?thesis
        by (intro stop') (auto simp: ensure_binding_def Let_def go_catch_eq_cases go_bind_eq_cases)
    next
      case cr: (Inr cr)
      with v run q q_Ok p have "updateRoleBinding K rb sa v = (r, s')"
        by (simp add: ensure_binding_def Let_def go_catch_eq_cases go_bind_eq_cases)
      from updateRoleBinding_run [OF K this _ name] some views(3) show ?thesis by (intro rest) simp
    qed
  qed
qed

lemma ensureSCClusterRole_run:
  assumes K: "rbac_server K V" and run: "ensureSCClusterRole K s = (r, s')"
  shows "rbac_kept V sa (world s) (world s') \<and> \<not> is_panic r \<and>
    (r = Ok () \<longrightarrow> v_crs V (world s') PipelineAnyuid = Some anyuid_role)"
proof -
  note [simp] = with_clientset_server [OF K]
  let ?get = "call (get_cr K PipelineAnyuid) (GetCR PipelineAnyuid)"
  obtain q t where q: "?get s = (q, t)" by (cases "?get s")
  obtain q' w where q': "get_cr K PipelineAnyuid (world s) = (q', w)"
    by (cases "get_cr K PipelineAnyuid (world s)")
  note t = call_cases [OF q q']
  from t server_read_cr [OF K q'] have kept: "rbac_kept V sa (world s) (world t)"
    by (auto intro: same_view_kept)
  have writing: ?thesis
    if "call f ev t = (r, s')" "f (world t) = (p, x)" "writes_cr V anyuid_role p (world t) x" for f ev p x
    using call_cases [OF that(1,2)] that(3) rbac_kept_trans [OF kept writes_kept(2) [OF that(3)]]
    by (cases p) (auto simp: writes_cr_def anyuid_role_def)
  consider (found) cr where "q = Ok cr" | (none) e where "q = Err e" "IsNotFound e"
    | (failed) e where "q = Err e" "\<not> IsNotFound e"
    using t by (cases q') auto
  then show ?thesis
  proof cases
    case found
    obtain p x where p: "update_cr K anyuid_role (world t) = (p, x)"
      by (cases "update_cr K anyuid_role (world t)")
    from found run q have "call (update_cr K anyuid_role) (UpdateCR anyuid_role) t = (r, s')"
      by (simp add: ensureSCClusterRole_def go_catch_eq_cases)
    then show ?thesis using p server_write_cr(2) [OF K p] by (rule writing)
  next
    case none
    obtain p x where p: "create_cr K anyuid_role (world t) = (p, x)"
      by (cases "create_cr K anyuid_role (world t)")
    from none run q have "call (create_cr K anyuid_role) (CreateCR anyuid_role) t = (r, s')"
      by (simp add: ensureSCClusterRole_def go_catch_eq_cases)
    then show ?thesis using p server_write_cr(1) [OF K p] by (rule writing)
  next
    case failed
    with run q kept show ?thesis by (auto simp: ensureSCClusterRole_def go_catch_eq_cases go_fail_def)
  qed
qed

text \<open>The service account of a namespace.\<close>

definition pipeline_sa :: "flags \<Rightarrow> string \<Rightarrow> ServiceAccount" where
  "pipeline_sa F ns = \<lparr>sa_Name = PipelineSA F, sa_Namespace = ns\<rparr>"

lemma ensureSA_run:
  assumes K: "rbac_server K V" and run: "ensureSA K F ns s = (r, s')"
  shows "rbac_kept V (pipeline_sa F ns) (world s) (world s') \<and> \<not> is_panic r \<and>
    (\<forall>x. r = Ok x \<longrightarrow> x = pipeline_sa F ns \<and>
       v_sas V (world s') (ns, PipelineSA F) = Some (pipeline_sa F ns))"
proof -
  let ?get = "call (get_sa K ns (PipelineSA F)) (GetSA ns (PipelineSA F))" and ?sa = "pipeline_sa F ns"
  obtain q t where q: "?get s = (q, t)" by (cases "?get s")
  obtain q' w where q': "get_sa K ns (PipelineSA F) (world s) = (q', w)"
    by (cases "get_sa K ns (PipelineSA F) (world s)")
  note t = call_cases [OF q q'] and read = server_read_sa [OF K q']
  from t read have kept: "rbac_kept V ?sa (world s) (world t)"
    by (auto intro: same_view_kept)
  show ?thesis
  proof (cases q')
    case (Inr x)
    with run q t read kept server_names(2) [OF K, of "world s" ns "PipelineSA F" x] show ?thesis
      by (auto simp: ensureSA_def go_catch_eq_cases go_return_def reports_def same_view_def pipeline_sa_def)
  next
    case (Inl e)
    with t have q_Err: "q = Err e" by simp
    show ?thesis
    proof (cases "IsNotFound e")
      case False
      with run q q_Err kept show ?thesis by (auto simp: ensureSA_def go_catch_eq_cases go_fail_def)
    next
      case True
      obtain p v where p: "call (create_sa K ?sa) (CreateSA ?sa) t = (p, v)"
        by (cases "call (create_sa K ?sa) (CreateSA ?sa) t")
      obtain p' x where p': "create_sa K ?sa (world t) = (p', x)" by (cases "create_sa K ?sa (world t)")
      note v = call_cases [OF p p'] and created = server_write_sa [OF K p']
      from True run q q_Err p v have "s' = v" "r = (case p' of Inr u \<Rightarrow> Ok ?sa | Inl e \<Rightarrow> Err e)"
        by (cases p'; auto simp: ensureSA_def go_catch_eq_cases go_bind_eq_cases go_return_def
            pipeline_sa_def Let_def)+
      with v created rbac_kept_trans [OF kept writes_kept(1) [OF created]] show ?thesis
        by (cases p') (auto simp: writes_sa_def pipeline_sa_def)
    qed
  qed
qed

section \<open>A whole reconciliation\<close>

text \<open>One stage of \<open>Reconcile\<close>: an error ends it, and what the stages before did is kept.\<close>

lemma ensure_step:
  assumes run: "go_catch m (\<lambda>err. go_return (emptyResult, Some err)) f s = (r, s')"
    and m: "\<And>q t. m s = (q, t) \<Longrightarrow> rbac_kept V sa (world s) (world t) \<and> \<not> is_panic q"
    and f: "\<And>v t. m s = (Ok v, t) \<Longrightarrow> f v t = (r, s') \<Longrightarrow> rbac_kept V sa (world t) (world s') \<and> Q"
    and stop: "\<And>e. r = Ok (emptyResult, Some e) \<Longrightarrow> Q"
  shows "rbac_kept V sa (world s) (world s') \<and> Q"
proof -
  obtain q t where q: "m s = (q, t)" by (cases "m s")
  note kept = m [OF q]
  show ?thesis
  proof (cases q)
    case (Ok v)
    with run q f [of v t] kept show ?thesis
      using rbac_kept_trans [of V sa "world s" "world t" "world s'"] by (simp add: go_catch_eq_cases)
  next
    case (Err e)
    with run q kept stop [of e] show ?thesis by (simp add: go_catch_eq_cases go_return_def)
  next
    case (Panic p)
    with kept show ?thesis by simp
  qed
qed

text \<open>Everything the controller is for.\<close>

definition secured :: "'w rbac_view \<Rightarrow> ServiceAccount \<Rightarrow> 'w \<Rightarrow> bool" where
  "secured V sa w \<longleftrightarrow> v_sas V w (sa_Namespace sa, sa_Name sa) = Some sa \<and>
     v_crs V w PipelineAnyuid = Some anyuid_role \<and>
     has_binding V sa w PipelineAnyuid \<and> has_binding V sa w ''edit''"

definition ensured :: "'w rbac_view \<Rightarrow> ServiceAccount \<Rightarrow> (result \<times> go_error option) res \<Rightarrow> 'w \<Rightarrow> bool" where
  "ensured V sa r w \<longleftrightarrow> (\<exists>err. r = Ok (emptyResult, err)) \<and> (r = Ok (emptyResult, None) \<longrightarrow> secured V sa w)"

lemma sa_kept: "v_sas V w (sa_Namespace sa, sa_Name sa) = Some sa \<Longrightarrow> rbac_kept V sa w w' \<Longrightarrow>
    v_sas V w' (sa_Namespace sa, sa_Name sa) = Some sa"
  and role_kept: "v_crs V w PipelineAnyuid = Some anyuid_role \<Longrightarrow> rbac_kept V sa w w' \<Longrightarrow>
    v_crs V w' PipelineAnyuid = Some anyuid_role"
  by (auto simp: rbac_kept_def)

lemma ensure_all_run:
  assumes K: "rbac_server K V"
    and run: "go_catch (ensureSA K F ns) (\<lambda>err. go_return (emptyResult, Some err)) (\<lambda>sa.
        go_catch (ensureSCClusterRole K) (\<lambda>err. go_return (emptyResult, Some err)) (\<lambda>u.
        go_catch (ensureSCCRoleBinding K sa) (\<lambda>err. go_return (emptyResult, Some err)) (\<lambda>u.
        go_catch (ensureRoleBindings K sa) (\<lambda>err. go_return (emptyResult, Some err)) (\<lambda>u.
        go_return (emptyResult, None))))) s = (r, s')"
  shows "rbac_kept V (pipeline_sa F ns) (world s) (world s') \<and> ensured V (pipeline_sa F ns) r (world s')"
proof -
  let ?sa = "pipeline_sa F ns"
  have create: "createRoleBinding K = create_named_binding K ''edit''"
    "createSCCRoleBinding K = create_named_binding K PipelineAnyuid"
    by (rule ext, simp add: createRoleBinding_def createSCCRoleBinding_def)+
  have stop: "ensured V ?sa r (world s')" if "r = Ok (emptyResult, Some e)" for e
    using that by (simp add: ensured_def)
  have scc: "rbac_kept V ?sa (world x) (world y) \<and> (q = Ok () \<longrightarrow> has_binding V ?sa (world y) PipelineAnyuid) \<and>
      \<not> is_panic q" if "ensureSCCRoleBinding K ?sa x = (q, y)" for q and x y :: "('a, 'b) cluster_scheme"
    using that by (intro ensure_binding_run [OF K]) (simp_all add: ensureSCCRoleBinding_def create)
  have edit: "rbac_kept V ?sa (world x) (world y) \<and> (q = Ok () \<longrightarrow> has_binding V ?sa (world y) ''edit'') \<and>
      \<not> is_panic q" if "ensureRoleBindings K ?sa x = (q, y)" for q and x y :: "('a, 'b) cluster_scheme"
    using that by (intro ensure_binding_run [OF K]) (simp_all add: ensureRoleBindings_def create)
  show ?thesis
  proof (rule ensure_step [OF run _ _ stop])
    fix sa t
    assume "ensureSA K F ns s = (Ok sa, t)"
    from ensureSA_run [OF K this] have sa: "sa = ?sa" "v_sas V (world t) (sa_Namespace ?sa, sa_Name ?sa) = Some ?sa"
      by (auto simp: pipeline_sa_def)
    assume "go_catch (ensureSCClusterRole K) (\<lambda>err. go_return (emptyResult, Some err)) (\<lambda>u.
        go_catch (ensureSCCRoleBinding K sa) (\<lambda>err. go_return (emptyResult, Some err)) (\<lambda>u.
        go_catch (ensureRoleBindings K sa) (\<lambda>err. go_return (emptyResult, Some err)) (\<lambda>u.
        go_return (emptyResult, None)))) t = (r, s')"
    then show "rbac_kept V ?sa (world t) (world s') \<and> ensured V ?sa r (world s')"
    proof (rule ensure_step [OF _ _ _ stop])
      fix u v
      assume "ensureSCClusterRole K t = (Ok u, v)"
      from ensureSCClusterRole_run [OF K this, of ?sa] sa sa_kept
      have v: "v_crs V (world v) PipelineAnyuid = Some anyuid_role"
        "v_sas V (world v) (sa_Namespace ?sa, sa_Name ?sa) = Some ?sa" by auto
      assume "go_catch (ensureSCCRoleBinding K sa) (\<lambda>err. go_return (emptyResult, Some err)) (\<lambda>u.
        go_catch (ensureRoleBindings K sa) (\<lambda>err. go_return (emptyResult, Some err)) (\<lambda>u.
        go_return (emptyResult, None))) v = (r, s')"
      then show "rbac_kept V ?sa (world v) (world s') \<and> ensured V ?sa r (world s')"
        unfolding sa(1)
      proof (rule ensure_step [OF _ _ _ stop])
        fix u' x
        assume x: "ensureSCCRoleBinding K ?sa v = (Ok u', x)"
          and "go_catch (ensureRoleBindings K ?sa) (\<lambda>err. go_return (emptyResult, Some err)) (\<lambda>u.
            go_return (emptyResult, None)) x = (r, s')"
        from this(2) show "rbac_kept V ?sa (world x) (world s') \<and> ensured V ?sa r (world s')"
        proof (rule ensure_step [OF _ _ _ stop])
          fix u'' y
          assume y: "ensureRoleBindings K ?sa x = (Ok u'', y)" and "go_return (emptyResult, None) y = (r, s')"
          from this(2) have fin: "r = Ok (emptyResult, None)" "s' = y" by (simp_all add: go_return_def)
          have xy: "rbac_kept V ?sa (world x) (world y)" and "has_binding V ?sa (world y) ''edit''"
            using edit [OF y] by simp_all
          moreover have vx: "rbac_kept V ?sa (world v) (world x)" and "has_binding V ?sa (world x) PipelineAnyuid"
            using scc [OF x] by simp_all
          moreover note has_binding_kept [OF this(2) xy] sa_kept [OF v(2) rbac_kept_trans [OF vx xy]]
            role_kept [OF v(1) rbac_kept_trans [OF vx xy]]
          ultimately have "secured V ?sa (world y)" by (simp add: secured_def)
          with fin show "rbac_kept V ?sa (world y) (world s') \<and> ensured V ?sa r (world s')"
            by (simp add: ensured_def rbac_kept_refl)
        qed (use edit in blast)
      qed (use scc in blast)
    qed (use ensureSCClusterRole_run [OF K] in blast)
  qed (use ensureSA_run [OF K] in blast)
qed

section \<open>A namespace that is set up already\<close>

fun leaves_accounts :: "event \<Rightarrow> bool" where
  "leaves_accounts (CreateSA sa e) = False"
| "leaves_accounts (CreateRB ns rb e) = False"
| "leaves_accounts (UpdateRB ns rb e) = False"
| "leaves_accounts (CreateCR cr e) = False"
| "leaves_accounts ev = True"

definition stays_secured :: "'w rbac_view \<Rightarrow> ServiceAccount \<Rightarrow> ('w, 'z) cluster_scheme \<Rightarrow> ('w, 'z) cluster_scheme \<Rightarrow> bool" where
  "stays_secured V sa s t \<longleftrightarrow>
     (secured V sa (world s) \<longrightarrow> secured V sa (world t) \<and> appends leaves_accounts s t)"

interpretation sec: step_relation "stays_secured V sa" for V sa
  by unfold_locales (auto simp: stays_secured_def appends_def)

lemma secured_same_view: "same_view V w w' \<Longrightarrow> secured V sa w' = secured V sa w"
  by (simp add: same_view_def secured_def has_binding_def)

lemma stays_read:
  assumes "same_view V (world s) (snd (f (world s)))" and "\<And>e. leaves_accounts (ev e)"
  shows "stays_secured V sa s (snd (call f ev s))"
  using secured_same_view [OF assms(1)] assms(2)
  by (auto simp: stays_secured_def call_def appends_def split: prod.split sum.split)

lemma stays_ensure_binding:
  assumes K: "rbac_server K V" and name: "name \<in> {''edit'', PipelineAnyuid}"
  shows "sec.keeps V sa (ensure_binding K name create sa)"
proof (rule sec.keepsI)
  note [simp] = with_clientset_server [OF K]
  fix s :: "('a, 'b) cluster_scheme"
  let ?get = "call (get_rb K (sa_Namespace sa) name) (GetRB (sa_Namespace sa) name)"
  let ?cr = "call (get_cr K name) (GetCR name)"
  obtain q t where q: "?get s = (q, t)" by (cases "?get s")
  obtain q' w where q': "get_rb K (sa_Namespace sa) name (world s) = (q', w)"
    by (cases "get_rb K (sa_Namespace sa) name (world s)")
  note read = server_read_rb [OF K q']
  have first: "stays_secured V sa s t"
    using stays_read [of V s "get_rb K (sa_Namespace sa) name" "GetRB (sa_Namespace sa) name" sa] read q q'
    by simp
  have cr: "sec.keeps V sa (?cr :: (('a, 'b) cluster_scheme, ClusterRole) go)"
    using server_read_cr [OF K] by (intro sec.keepsI stays_read) (metis snd_conv surj_pair, simp)
  show "stays_secured V sa s (snd (ensure_binding K name create sa s))"
  proof (cases "secured V sa (world s)")
    case False
    then show ?thesis by (simp add: stays_secured_def)
  next
    case True
    with name obtain rb where rb: "v_rbs V (world s) (sa_Namespace sa, name) = Some rb"
      "hasSubject (Subjects rb) (sa_subject sa)"
      by (auto simp: secured_def has_binding_def split: option.splits)
    show ?thesis
    proof (cases q')
      case (Inl e)
      with read rb have "\<not> IsNotFound e" by (auto simp: reports_def)
      moreover from call_cases [OF q q'] Inl have "q = Err e" by simp
      ultimately have "ensure_binding K name create sa s = (Err e, t)"
        using q by (simp add: ensure_binding_def Let_def go_catch_eq_cases go_fail_def)
      with first show ?thesis by simp
    next
      case (Inr x)
      with read rb call_cases [OF q q'] have "q = Ok rb" by (auto simp: reports_def)
      then have "ensure_binding K name create sa s = go_bind ?cr (\<lambda>cr. go_return ()) t"
        using q rb by (simp add: ensure_binding_def Let_def go_catch_eq_cases updateRoleBinding_def)
      moreover have "sec.keeps V sa (go_bind ?cr (\<lambda>cr. go_return () :: (('a, 'b) cluster_scheme, unit) go))"
        by (intro sec.keeps_bind cr sec.keeps_return)
      then have "stays_secured V sa t (snd (go_bind ?cr (\<lambda>cr. go_return ()) t))"
        by (simp add: sec.keeps_def)
      ultimately show ?thesis using sec.trans [OF first] by simp
    qed
  qed
qed

lemma stays_ensureSCClusterRole:
  assumes K: "rbac_server K V"
  shows "sec.keeps V sa (ensureSCClusterRole K)"
proof (rule sec.keepsI)
  note [simp] = with_clientset_server [OF K]
  fix s :: "('a, 'b) cluster_scheme"
  let ?get = "call (get_cr K PipelineAnyuid) (GetCR PipelineAnyuid)"
  obtain q t where q: "?get s = (q, t)" by (cases "?get s")
  obtain q' w where q': "get_cr K PipelineAnyuid (world s) = (q', w)"
    by (cases "get_cr K PipelineAnyuid (world s)")
  note read = server_read_cr [OF K q']
  have first: "stays_secured V sa s t"
    using stays_read [of V s "get_cr K PipelineAnyuid" "GetCR PipelineAnyuid" sa] read q q' by simp
  show "stays_secured V sa s (snd (ensureSCClusterRole K s))"
  proof (cases "secured V sa (world s)")
    case False
    then show ?thesis by (simp add: stays_secured_def)
  next
    case True
    show ?thesis
    proof (cases q')
      case (Inl e)
      with read True have "\<not> IsNotFound e" by (auto simp: reports_def secured_def)
      moreover from call_cases [OF q q'] Inl have "q = Err e" by simp
      ultimately have "ensureSCClusterRole K s = (Err e, t)"
        using q by (simp add: ensureSCClusterRole_def go_catch_eq_cases go_fail_def)
      with first show ?thesis by simp
    next
      case (Inr x)
      with call_cases [OF q q'] have "q = Ok x" by simp
      then have run: "ensureSCClusterRole K s = call (update_cr K anyuid_role) (UpdateCR anyuid_role) t"
        using q by (simp add: ensureSCClusterRole_def go_catch_eq_cases)
      obtain p v where p: "update_cr K anyuid_role (world t) = (p, v)"
        by (cases "update_cr K anyuid_role (world t)")
      have "secured V sa (world t) \<Longrightarrow> secured V sa v"
        using server_write_cr(2) [OF K p]
        by (cases p) (auto simp: secured_def writes_cr_def has_binding_def anyuid_role_def)
      then have "stays_secured V sa t (snd (call (update_cr K anyuid_role) (UpdateCR anyuid_role) t))"
        using p by (auto simp: stays_secured_def call_def appends_def split: sum.split)
      with run show ?thesis using sec.trans [OF first] by simp
    qed
  qed
qed

lemma secured_ensureSA:
  assumes K: "rbac_server K V" and sec: "secured V (pipeline_sa F ns) (world s)"
    and run: "ensureSA K F ns s = (r, t)"
  shows "stays_secured V (pipeline_sa F ns) s t"
proof -
  let ?get = "call (get_sa K ns (PipelineSA F)) (GetSA ns (PipelineSA F))"
  obtain q v where q: "?get s = (q, v)" by (cases "?get s")
  obtain q' w where q': "get_sa K ns (PipelineSA F) (world s) = (q', w)"
    by (cases "get_sa K ns (PipelineSA F) (world s)")
  note read = server_read_sa [OF K q']
  have first: "stays_secured V (pipeline_sa F ns) s v"
    using stays_read [of V s "get_sa K ns (PipelineSA F)" "GetSA ns (PipelineSA F)"] read q q' by simp
  have "t = v"
    using run q call_cases [OF q q'] read sec
    by (cases q') (auto simp: ensureSA_def go_catch_eq_cases go_return_def go_fail_def reports_def
        secured_def pipeline_sa_def)
  with first show ?thesis by simp
qed

section \<open>Any reconciliation\<close>

lemma Reconcile_rbac_run_kept:
  assumes "rbac_server K V" and "Reconcile_rbac K F req_ns req s = (r, s')"
  shows "rbac_kept V (pipeline_sa F req) (world s) (world s')"
proof -
  have view: "rbac_kept V sa (world s) (snd (get_ns K req_ns req (world s)))" for sa
    using assms(1) by (intro same_view_kept) (simp add: rbac_server_def)
  show ?thesis
  proof (cases "fst (MatchString K (IgnorePattern F) req)")
    case True
    with assms(2) show ?thesis by (simp add: Reconcile_rbac_def Let_def go_return_def rbac_kept_refl)
  next
    case False
    obtain q t where q: "getNS K req_ns req s = (q, t)" by (cases "getNS K req_ns req s")
    obtain q' w where q': "get_ns K req_ns req (world s) = (q', w)" by (cases "get_ns K req_ns req (world s)")
    note t = call_cases [OF q [unfolded getNS_def] q']
    show ?thesis
    proof (cases q')
      case (Inl e)
      with False assms(2) q t q' view show ?thesis
        by (auto simp: Reconcile_rbac_def Let_def go_catch_eq_cases go_return_def)
    next
      case (Inr ns)
      with server_ns [OF assms(1) q'] have "ns = req" by simp
      with False assms(2) q t Inr ensure_all_run [OF assms(1), of F req t r s']
      have "rbac_kept V (pipeline_sa F req) (world t) (world s')"
        by (simp add: Reconcile_rbac_def Let_def go_catch_eq_cases)
      moreover have "rbac_kept V (pipeline_sa F req) (world s) (world t)"
        using view q' t by simp
      ultimately show ?thesis by (rule rbac_kept_trans [rotated])
    qed
  qed
qed

lemma Reconcile_rbac_ensures:
  assumes "rbac_server K V" and "\<not> fst (MatchString K (IgnorePattern F) req)"
    and "get_ns K req_ns req (world s) = (Inr ns, w)"
    and "Reconcile_rbac K F req_ns req s = (r, s')"
  shows "ensured V (pipeline_sa F req) r (world s')"
proof -
  let ?t = "s\<lparr>world := w, trace := trace s @ [GetNS req_ns req None]\<rparr>"
  from server_ns [OF assms(1,3)] have "ns = req" by simp
  with assms(2-4) ensure_all_run [OF assms(1), of F req ?t r s'] show ?thesis
    by (simp add: Reconcile_rbac_def Let_def go_catch_eq_cases getNS_def call_def)
qed

lemma Reconcile_rbac_stays:
  assumes "rbac_server K V" and "secured V (pipeline_sa F req) (world s)"
    and "Reconcile_rbac K F req_ns req s = (r, s')"
  shows "stays_secured V (pipeline_sa F req) s s'"
proof -
  let ?sa = "pipeline_sa F req"
  let ?fail = "\<lambda>err. go_return (emptyResult, Some err)"
  let ?rest = "\<lambda>sa. go_catch (ensureSCClusterRole K) ?fail (\<lambda>u.
        go_catch (ensureSCCRoleBinding K sa) ?fail (\<lambda>u.
        go_catch (ensureRoleBindings K sa) ?fail (\<lambda>u. go_return (emptyResult, None))))"
  have rest: "sec.keeps V ?sa (?rest ?sa)"
    unfolding ensureSCCRoleBinding_def ensureRoleBindings_def
    by (intro sec.keeps_intros stays_ensureSCClusterRole [OF assms(1)] stays_ensure_binding [OF assms(1)]) simp_all
  show ?thesis
  proof (cases "fst (MatchString K (IgnorePattern F) req)")
    case True
    with assms(3) show ?thesis by (simp add: Reconcile_rbac_def Let_def go_return_def sec.refl)
  next
    case False
    obtain q t where q: "getNS K req_ns req s = (q, t)" by (cases "getNS K req_ns req s")
    obtain q' w where q': "get_ns K req_ns req (world s) = (q', w)" by (cases "get_ns K req_ns req (world s)")
    note t = call_cases [OF q [unfolded getNS_def] q']
    have first: "stays_secured V ?sa s t"
      using stays_read [of V s "get_ns K req_ns req" "GetNS req_ns req" ?sa] assms(1) q
      by (simp add: rbac_server_def getNS_def)
    show ?thesis
    proof (cases q')
      case (Inl e)
      with False assms(3) q t first show ?thesis
        by (auto simp: Reconcile_rbac_def Let_def go_catch_eq_cases go_return_def)
    next
      case (Inr ns)
      with server_ns [OF assms(1) q'] have "ns = req" by simp
      with False assms(3) q t Inr have run: "go_catch (ensureSA K F req) ?fail ?rest t = (r, s')"
        by (simp add: Reconcile_rbac_def Let_def go_catch_eq_cases)
      obtain p v where p: "ensureSA K F req t = (p, v)" by (cases "ensureSA K F req t")
      from first assms(2) have "secured V ?sa (world t)" by (simp add: stays_secured_def)
      from secured_ensureSA [OF assms(1) this p] have "stays_secured V ?sa s v"
        using sec.trans [OF first] by simp
      moreover have "stays_secured V ?sa v s'"
      proof (cases p)
        case (Ok x)
        with ensureSA_run [OF assms(1) p] run p have "?rest ?sa v = (r, s')"
          by (simp add: go_catch_eq_cases)
        then show ?thesis by (rule sec.keepsD [OF rest])
      qed (use run p in \<open>auto simp: go_catch_eq_cases go_return_def sec.refl\<close>)
      ultimately show ?thesis by (rule sec.trans)
    qed
  qed
qed

section \<open>Properties\<close>

text \<open>C13:
  What a reconciliation may change, for every request and every error on the way: only the service
  account of the namespace, the cluster role \<open>pipeline-anyuid\<close> (which gets exactly its rule) and the
  two bindings \<open>edit\<close> and \<open>pipeline-anyuid\<close> of that namespace, which keep their role and their subjects and
  get at most the service account as a subject, once.
\<close>

theorem Reconcile_rbac_kept:
  assumes "rbac_server K V" and "Reconcile_rbac K F req_ns req s = (r, s')"
  shows "(v_sas V (world s') = v_sas V (world s) \<or>
      v_sas V (world s') = (v_sas V (world s))((req, PipelineSA F) \<mapsto> pipeline_sa F req)) \<and>
     (v_crs V (world s') = v_crs V (world s) \<or>
      v_crs V (world s') = (v_crs V (world s))(PipelineAnyuid \<mapsto> anyuid_role)) \<and>
     (\<forall>k. binding_kept (pipeline_sa F req) k (v_rbs V (world s) k) (v_rbs V (world s') k))"
  using Reconcile_rbac_run_kept [OF assms] by (simp add: rbac_kept_def pipeline_sa_def)

text \<open>C12:
  A reconciliation that returns no error for a namespace that exists and is not ignored has done its
  work: the service account is there, the cluster role has its rule, and both bindings have the
  service account as a subject.  It never panics and never asks to be called again.
\<close>

theorem Reconcile_rbac_secures:
  assumes "rbac_server K V" and "\<not> fst (MatchString K (IgnorePattern F) req)"
    and "get_ns K req_ns req (world s) = (Inr ns, w)"
    and "Reconcile_rbac K F req_ns req s = (r, s')"
  shows "(\<exists>err. r = Ok (emptyResult, err)) \<and>
     (r = Ok (emptyResult, None) \<longrightarrow> secured V (pipeline_sa F req) (world s'))"
  using Reconcile_rbac_ensures [OF assms] by (simp add: ensured_def)

text \<open>C32:
  In a namespace that is set up already the controller writes nothing but the cluster role again, and
  it stays set up: service account and bindings are neither created nor updated, whatever fails.
\<close>

theorem Reconcile_rbac_idempotent:
  assumes "rbac_server K V" and "secured V (pipeline_sa F req) (world s)"
    and "Reconcile_rbac K F req_ns req s = (r, s')"
  shows "secured V (pipeline_sa F req) (world s') \<and>
     (\<exists>es. trace s' = trace s @ es \<and> list_all leaves_accounts es)"
  using Reconcile_rbac_stays [OF assms] assms(2) by (simp add: stays_secured_def appends_def)

section \<open>A server\<close>

record accounts =
  at_sas :: "string \<times> string \<Rightarrow> ServiceAccount option"
  at_rbs :: "string \<times> string \<Rightarrow> RoleBinding option"
  at_crs :: "string \<Rightarrow> ClusterRole option"

definition found :: "'a option \<Rightarrow> go_error + 'a" where
  "found x = (case x of Some a \<Rightarrow> Inr a | None \<Rightarrow> Inl (APIError NotFound ''not found''))"

text \<open>A server that keeps the objects in maps; the cluster role \<open>edit\<close> is there from the start.\<close>

definition sample_rbac :: "accounts rbac_client" where
  "sample_rbac = \<lparr>has_clientset = True,
     MatchString = (\<lambda>pat s. (HasPrefix s ''openshift-'' \<or> HasPrefix s ''kube-'', None)),
     get_ns = (\<lambda>ns n a. (Inr n, a)),
     get_sa = (\<lambda>ns n a. (found (if at_sas a (ns, n) = None then None
                else Some \<lparr>sa_Name = n, sa_Namespace = ns\<rparr>), a)),
     create_sa = (\<lambda>sa a. (Inr (), a\<lparr>at_sas := (at_sas a)((sa_Namespace sa, sa_Name sa) \<mapsto> sa)\<rparr>)),
     get_rb = (\<lambda>ns n a. (found (map_option (\<lambda>rb. rb\<lparr>rb_Name := n\<rparr>) (at_rbs a (ns, n))), a)),
     create_rb = (\<lambda>ns rb a. (Inr (), a\<lparr>at_rbs := (at_rbs a)((ns, rb_Name rb) \<mapsto> rb)\<rparr>)),
     update_rb = (\<lambda>ns rb a. (Inr (), a\<lparr>at_rbs := (at_rbs a)((ns, rb_Name rb) \<mapsto> rb)\<rparr>)),
     get_cr = (\<lambda>n a. (found (at_crs a n), a)),
     create_cr = (\<lambda>cr a. (Inr (), a\<lparr>at_crs := (at_crs a)(cr_Name cr \<mapsto> cr)\<rparr>)),
     update_cr = (\<lambda>cr a. (Inr (), a\<lparr>at_crs := (at_crs a)(cr_Name cr \<mapsto> cr)\<rparr>))\<rparr>"

definition sample_accounts :: "accounts rbac_view" where
  "sample_accounts = \<lparr>
     v_sas = (\<lambda>a (ns, n). map_option (\<lambda>sa. \<lparr>sa_Name = n, sa_Namespace = ns\<rparr>) (at_sas a (ns, n))),
     v_rbs = (\<lambda>a (ns, n). map_option (\<lambda>rb. rb\<lparr>rb_Name := n\<rparr>) (at_rbs a (ns, n))),
     v_crs = at_crs\<rparr>"

lemma reports_found: "reports (found x) x"
  by (simp add: reports_def found_def split: option.split)

lemma sample_writes:
  "writes_rb sample_accounts ns rb (Inr ()) a (a\<lparr>at_rbs := (at_rbs a)((ns, rb_Name rb) \<mapsto> rb)\<rparr>)"
  "writes_sa sample_accounts sa (Inr ()) a (a\<lparr>at_sas := (at_sas a)((sa_Namespace sa, sa_Name sa) \<mapsto> sa)\<rparr>)"
proof -
  show "writes_rb sample_accounts ns rb (Inr ()) a (a\<lparr>at_rbs := (at_rbs a)((ns, rb_Name rb) \<mapsto> rb)\<rparr>)"
    by (auto simp: writes_rb_def sample_accounts_def fun_eq_iff intro!: exI [of _ "rb_rest rb"])
  show "writes_sa sample_accounts sa (Inr ()) a (a\<lparr>at_sas := (at_sas a)((sa_Namespace sa, sa_Name sa) \<mapsto> sa)\<rparr>)"
    by (auto simp: writes_sa_def sample_accounts_def fun_eq_iff)
qed

lemma sample_views:
  "v_sas sample_accounts a (ns, n) = map_option (\<lambda>sa. \<lparr>sa_Name = n, sa_Namespace = ns\<rparr>) (at_sas a (ns, n))"
  "v_rbs sample_accounts a (ns, n) = map_option (\<lambda>rb. rb\<lparr>rb_Name := n\<rparr>) (at_rbs a (ns, n))"
  "v_crs sample_accounts a = at_crs a"
  by (simp_all add: sample_accounts_def)

lemma sample_same:
  "v_sas sample_accounts (a\<lparr>at_crs := x\<rparr>) = v_sas sample_accounts a"
  "v_rbs sample_accounts (a\<lparr>at_crs := x\<rparr>) = v_rbs sample_accounts a"
  by (simp_all add: sample_accounts_def)

lemma sample_rbac_server: "rbac_server sample_rbac sample_accounts"
  unfolding rbac_server_def sample_rbac_def
  by (auto simp: same_view_def sample_writes sample_same writes_cr_def reports_def found_def
      sample_views split: option.splits if_splits)

definition sample_setup :: "accounts cluster" where
  "sample_setup = \<lparr>world = \<lparr>at_sas = (\<lambda>k. None), at_rbs = (\<lambda>k. None),
     at_crs = [''edit'' \<mapsto> \<lparr>cr_Name = ''edit'', Rules = []\<rparr>]\<rparr>, trace = []\<rparr>"

definition sample_flags :: flags where
  "sample_flags = flag_init (Inr [])"

definition sample_after :: "accounts cluster" where
  "sample_after = snd (Reconcile_rbac sample_rbac sample_flags [] ''dev'' sample_setup)"

lemma sample_first:
  "Reconcile_rbac sample_rbac sample_flags [] ''dev'' sample_setup = (Ok (emptyResult, None), sample_after)"
proof -
  have "fst (Reconcile_rbac sample_rbac sample_flags [] ''dev'' sample_setup) = Ok (emptyResult, None)"
    by code_simp
  then show ?thesis unfolding sample_after_def by (metis prod.collapse)
qed

lemma sample_not_ignored: "\<not> fst (MatchString sample_rbac (IgnorePattern sample_flags) ''dev'')"
  by code_simp

theorem Reconcile_rbac_kept_witness:
  "v_rbs sample_accounts (world sample_after) (''other'', ''edit'') = None"
proof -
  have "v_rbs sample_accounts (world sample_setup) (''other'', ''edit'') = None"
    by (simp add: sample_setup_def sample_accounts_def)
  moreover have "binding_kept (pipeline_sa sample_flags ''dev'') (''other'', ''edit'')
      (v_rbs sample_accounts (world sample_setup) (''other'', ''edit''))
      (v_rbs sample_accounts (world sample_after) (''other'', ''edit''))"
    using Reconcile_rbac_kept [OF sample_rbac_server sample_first] by blast
  ultimately show ?thesis by (simp add: binding_kept_def own_binding_def pipeline_sa_def)
qed

theorem Reconcile_rbac_secures_witness:
  "secured sample_accounts (pipeline_sa sample_flags ''dev'') (world sample_after)"
  using Reconcile_rbac_secures [OF sample_rbac_server sample_not_ignored _ sample_first, of "''dev''" "world sample_setup"]
  by (simp add: sample_rbac_def)

theorem Reconcile_rbac_idempotent_witness:
  "\<exists>es. trace (snd (Reconcile_rbac sample_rbac sample_flags [] ''dev'' sample_after)) = trace sample_after @ es \<and>
     list_all leaves_accounts es"
proof -
  have "secured sample_accounts (pipeline_sa sample_flags ''dev'') (world sample_after)"
    unfolding sample_after_def by code_simp
  from Reconcile_rbac_idempotent [OF sample_rbac_server this prod.collapse [symmetric]] show ?thesis by blast
qed

end
