(* ===== verification/RbacLoop.thy ===== *)
theory RbacLoop imports Worker Watches Rbac ManifestOps begin

text \<open>
  The rbac controller at work: its reconciler, its watch on namespaces and the loop of the controller
  runtime put together.  Namespaces come and go; the controller is an instance of \<open>reconciler\<close>, for every
  namespace, whose goal is that the namespace, if it is there and not ignored, is set up.
\<close>

section \<open>Namespaces\<close>

text \<open>
  \<open>there w n\<close>: the namespace \<open>n\<close> is in the world \<open>w\<close>.  A read that does not find it says so only when it is
  not there, and the calls of the controller neither create nor delete namespaces.
\<close>

definition keeps_there :: "('w \<Rightarrow> string \<Rightarrow> bool) \<Rightarrow> ('w \<Rightarrow> 'a \<times> 'w) \<Rightarrow> bool" where
  "keeps_there there f \<longleftrightarrow> (\<forall>w. there (snd (f w)) = there w)"

definition namespace_server :: "'w rbac_client \<Rightarrow> ('w \<Rightarrow> string \<Rightarrow> bool) \<Rightarrow> bool" where
  "namespace_server K there \<longleftrightarrow>
     (\<forall>ns n w e. fst (get_ns K ns n w) = Inl e \<longrightarrow> IsNotFound e \<longrightarrow> \<not> there w n) \<and>
     (\<forall>ns n. keeps_there there (get_ns K ns n)) \<and>
     (\<forall>ns n. keeps_there there (get_sa K ns n)) \<and> (\<forall>sa. keeps_there there (create_sa K sa)) \<and>
     (\<forall>ns n. keeps_there there (get_rb K ns n)) \<and> (\<forall>ns rb. keeps_there there (create_rb K ns rb)) \<and>
     (\<forall>ns rb. keeps_there there (update_rb K ns rb)) \<and> (\<forall>n. keeps_there there (get_cr K n)) \<and>
     (\<forall>cr. keeps_there there (create_cr K cr)) \<and> (\<forall>cr. keeps_there there (update_cr K cr))"

definition same_namespaces ::
  "('w \<Rightarrow> string \<Rightarrow> bool) \<Rightarrow> ('w, 'z) cluster_scheme \<Rightarrow> ('w, 'z) cluster_scheme \<Rightarrow> bool" where
  "same_namespaces there s t \<longleftrightarrow> there (world t) = there (world s)"

interpretation sn: step_relation "same_namespaces there" for there
  by unfold_locales (simp_all add: same_namespaces_def)

text \<open>A relation that every call of the controller respects is respected by a reconciliation.\<close>

locale rbac_steps = step_relation R for R :: "('w, 'z) cluster_scheme \<Rightarrow> ('w, 'z) cluster_scheme \<Rightarrow> bool" +
  fixes K :: "'w rbac_client"
  assumes rbac_reads_kept: "keeps (call (get_ns K ns n) (GetNS ns n))" "keeps (call (get_sa K ns n) (GetSA ns n))"
      "keeps (call (get_rb K ns n) (GetRB ns n))" "keeps (call (get_cr K n) (GetCR n))"
    and rbac_writes_kept: "keeps (call (create_sa K sa) (CreateSA sa))" "keeps (call (create_rb K ns rb) (CreateRB ns rb))"
      "keeps (call (update_rb K ns rb) (UpdateRB ns rb))" "keeps (call (create_cr K cr) (CreateCR cr))"
      "keeps (call (update_cr K cr) (UpdateCR cr))"
begin

lemma keeps_with_clientset: "keeps act \<Longrightarrow> keeps (with_clientset K act)"
  by (simp add: with_clientset_def keeps_panic)

lemma keeps_ensure_binding: "keeps (ensure_binding K name (create_named_binding K name) sa)"
  unfolding ensure_binding_def create_named_binding_def updateRoleBinding_def Let_def
  by (intro keeps_intros keeps_with_clientset rbac_reads_kept rbac_writes_kept)

lemma keeps_Reconcile_rbac: "keeps (Reconcile_rbac K F req_ns req)"
  unfolding Reconcile_rbac_def getNS_def ensureSA_def ensureSCClusterRole_def ensureSCCRoleBinding_def
    ensureRoleBindings_def Let_def
  using keeps_ensure_binding [of "''edit''"] keeps_ensure_binding [of PipelineAnyuid]
  by (intro keeps_intros keeps_with_clientset rbac_reads_kept rbac_writes_kept)
    (simp_all add: createRoleBinding_def [abs_def] createSCCRoleBinding_def [abs_def])

end

text \<open>What other controllers keep beside the cluster state is left alone.\<close>

interpretation rbac_memory: rbac_steps "same_memory :: ('w, 'z) cluster_scheme \<Rightarrow> _ \<Rightarrow> bool" K for K :: "'w rbac_client"
  by (intro rbac_steps.intro mem.step_relation_axioms rbac_steps_axioms.intro)
    (rule mem.keepsI same_memory_call)+

lemma same_namespaces_call: "keeps_there there f \<Longrightarrow> sn.keeps there (call f ev)"
  by (intro sn.keepsI) (simp add: same_namespaces_def world_snd_call keeps_there_def)

lemma Reconcile_rbac_namespaces:
  assumes "namespace_server K there"
  shows "sn.keeps there (Reconcile_rbac K F req_ns req)"
  by (rule rbac_steps.keeps_Reconcile_rbac, intro rbac_steps.intro sn.step_relation_axioms rbac_steps_axioms.intro)
    (rule same_namespaces_call; use assms [unfolded namespace_server_def] in blast)+

section \<open>The controller\<close>

definition rbac_reconciler ::
  "'w rbac_client \<Rightarrow> flags \<Rightarrow> Request \<Rightarrow> (('w, 'z) cluster_scheme, result \<times> go_error option) go" where
  "rbac_reconciler K F req = Reconcile_rbac K F (req_Namespace req) (req_Name req)"

definition namespace_request :: "string \<Rightarrow> Request" where
  "namespace_request n = \<lparr>req_Namespace = [], req_Name = n\<rparr>"

definition namespace_created :: "string \<Rightarrow> watch_event list \<Rightarrow> bool" where
  "namespace_created n es \<longleftrightarrow> (\<exists>m. m_Name m = n \<and> m_Namespace m = [] \<and> Created m \<in> set es)"

text \<open>
  What others may do to the namespace \<open>n\<close>: delete and create it, which the informer reports; while it is there
  they leave the cluster role and what the controller has set up in it alone.
\<close>

definition rbac_env ::
  "'w rbac_view \<Rightarrow> ('w \<Rightarrow> string \<Rightarrow> bool) \<Rightarrow> flags \<Rightarrow> string
   \<Rightarrow> ('w, 'z) cluster_scheme \<Rightarrow> ('w, 'z) cluster_scheme \<Rightarrow> watch_event list \<Rightarrow> bool" where
  "rbac_env V there F n s s' es \<longleftrightarrow>
     (there (world s') n \<longrightarrow> namespace_created n es \<or>
        there (world s) n \<and> (secured V (pipeline_sa F n) (world s) \<longrightarrow> secured V (pipeline_sa F n) (world s')))"

definition rbac_goal ::
  "'w rbac_client \<Rightarrow> 'w rbac_view \<Rightarrow> ('w \<Rightarrow> string \<Rightarrow> bool) \<Rightarrow> flags \<Rightarrow> string \<Rightarrow> ('w, 'z) cluster_scheme \<Rightarrow> bool" where
  "rbac_goal K V there F n s \<longleftrightarrow> (rbac_server K V \<and> namespace_server K there \<longrightarrow>
     fst (MatchString K (IgnorePattern F) n) \<or> \<not> there (world s) n \<or> secured V (pipeline_sa F n) (world s))"

lemma secured_other:
  assumes "secured V (pipeline_sa F n) w" and "rbac_kept V (pipeline_sa F req) w w'" and "req \<noteq> n"
  shows "secured V (pipeline_sa F n) w'"
proof -
  have "v_rbs V w' (n, name) = v_rbs V w (n, name)" for name
    using assms(2,3) by (auto simp: rbac_kept_def binding_kept_def own_binding_def pipeline_sa_def)
  moreover have "v_sas V w' (n, PipelineSA F) = v_sas V w (n, PipelineSA F)"
    using assms(2,3) by (auto simp: rbac_kept_def pipeline_sa_def)
  moreover have "v_crs V w' PipelineAnyuid = Some anyuid_role"
    using assms(1,2) by (auto simp: rbac_kept_def secured_def)
  ultimately show ?thesis using assms(1) by (simp add: secured_def has_binding_def pipeline_sa_def)
qed

lemma Reconcile_rbac_settles:
  assumes K: "rbac_server K V" and N: "namespace_server K there" and "there (world s') n"
    and run: "Reconcile_rbac K F [] n s = (r, s')" and "settled r"
  shows "fst (MatchString K (IgnorePattern F) n) \<or> secured V (pipeline_sa F n) (world s')"
proof (cases "fst (MatchString K (IgnorePattern F) n)")
  case False
  have there: "there (world s) n"
    using sn.keepsD [OF Reconcile_rbac_namespaces [OF N] run] assms(3) by (simp add: same_namespaces_def)
  obtain q w where q: "get_ns K [] n (world s) = (q, w)" by (cases "get_ns K [] n (world s)")
  show ?thesis
  proof (cases q)
    case (Inl e)
    with N q there have "\<not> IsNotFound e" unfolding namespace_server_def by (metis fst_conv)
    with False run q Inl \<open>settled r\<close> show ?thesis
      by (auto simp: Reconcile_rbac_def Let_def go_catch_eq_cases getNS_def call_def go_return_def
          ignoreNotFound_def settled_def)
  next
    case (Inr ns)
    with Reconcile_rbac_ensures [OF K False _ run] q \<open>settled r\<close> show ?thesis
      by (auto simp: ensured_def settled_def)
  qed
qed simp

lemma namespace_created_request:
  "namespace_created n es \<Longrightarrow> \<exists>e \<in> set es. namespace_request n \<in> set (deliver namespace_watch e)"
  unfolding namespace_created_def
  by (elim exE conjE, rule bexI [where x = "Created m" for m])
    (auto simp: namespace_request_def deliver_def namespace_watch_def request_for_def)

interpretation rbac: reconciler "rbac_reconciler K F" "deliver namespace_watch" "rbac_env V there F n"
    "namespace_request n" "rbac_goal K V there F n"
  for K :: "'w rbac_client" and F V there n
proof
  fix s s' :: "('w, 'b) cluster_scheme" and r req es
  show "rbac_reconciler K F (namespace_request n) s = (r, s') \<Longrightarrow> settled r \<Longrightarrow> rbac_goal K V there F n s'"
    using Reconcile_rbac_settles [of K V there s' n F s r]
    by (auto simp: rbac_reconciler_def namespace_request_def rbac_goal_def)
  assume "rbac_goal K V there F n s"
  then show "rbac_reconciler K F req s = (r, s') \<Longrightarrow> rbac_goal K V there F n s'"
    using Reconcile_rbac_run_kept [of K V F "req_Namespace req" "req_Name req" s r s'] secured_other [of V F n "world s" "req_Name req" "world s'"]
      Reconcile_rbac_stays [of K V F "req_Name req" s "req_Namespace req" r s']
      sn.keepsD [OF Reconcile_rbac_namespaces, of K there F "req_Namespace req" "req_Name req" s r s']
    by (cases "req_Name req = n")
      (auto simp: rbac_reconciler_def rbac_goal_def stays_secured_def same_namespaces_def)
  show "rbac_env V there F n s s' es \<Longrightarrow>
      rbac_goal K V there F n s' \<or> (\<exists>e \<in> set es. namespace_request n \<in> set (deliver namespace_watch e))"
    using \<open>rbac_goal K V there F n s\<close> namespace_created_request [of n es]
    by (auto simp: rbac_env_def rbac_goal_def)
qed


section \<open>Properties\<close>


text \<open>A server with the namespace \<open>dev\<close>, after the controller has reconciled it.\<close>

definition sample_there :: "accounts \<Rightarrow> string \<Rightarrow> bool" where
  "sample_there w n \<longleftrightarrow> True"

definition sample_rbac_start :: "(accounts cluster, Request, watch_event) controller" where
  "sample_rbac_start = \<lparr>c_sys = sample_setup, c_queue = newQueue, c_worker = Idle,
     c_events = [Created \<lparr>m_Name = ''dev'', m_Namespace = [], m_Generation = 0, m_OwnerReferences = []\<rparr>]\<rparr>"

lemma sample_namespace_server: "namespace_server sample_rbac sample_there"
  by (auto simp: namespace_server_def keeps_there_def sample_there_def [abs_def] sample_rbac_def)

lemma sample_rbac_taken:
  "controller_run (rbac_reconciler sample_rbac sample_flags) (deliver namespace_watch)
     (rbac_env sample_accounts sample_there sample_flags ''dev'') sample_rbac_start
     \<lparr>c_sys = sample_after, c_queue = newQueue\<lparr>processing := {namespace_request ''dev''}\<rparr>,
        c_worker = Returned (namespace_request ''dev'') True, c_events = []\<rparr>"
proof -
  let ?step = "controller_step (rbac_reconciler sample_rbac sample_flags) (deliver namespace_watch)
     (rbac_env sample_accounts sample_there sample_flags ''dev'')"
  let ?r = "namespace_request ''dev''"
  let ?q1 = "newQueue\<lparr>queue := [?r], dirty := {?r}\<rparr>"
  let ?q2 = "?q1\<lparr>queue := [], dirty := {}, processing := {?r}\<rparr>"
  let ?c1 = "sample_rbac_start\<lparr>c_events := [], c_queue := ?q1\<rparr>"
  let ?c2 = "?c1\<lparr>c_queue := ?q2, c_worker := Working ?r\<rparr>"
  have ev: "c_events sample_rbac_start = [] @ hd (c_events sample_rbac_start) # []" by (simp add: sample_rbac_start_def)
  have 1: "?step sample_rbac_start ?c1"
    using controller_step.event [OF ev, of "rbac_reconciler sample_rbac sample_flags" "deliver namespace_watch"]
    by (simp add: sample_rbac_start_def request_for_def namespace_request_def deliver_def namespace_watch_def
        q_Add_def newQueue_def Let_def)
  have 2: "?step ?c1 ?c2"
    using controller_step.take [of ?c1 ?r ?q2]
    by (simp add: sample_rbac_start_def q_Get_def newQueue_def)
  have "reconcileHandler (rbac_reconciler sample_rbac sample_flags) 0 ?r (c_sys ?c2) (c_queue ?c2) =
      (Ok True, sample_after, newQueue\<lparr>processing := {?r}\<rparr>)"
    using sample_first by (simp add: reconcileHandler_def rbac_reconciler_def namespace_request_def
        sample_rbac_start_def emptyResult_def Forget_def newQueue_def)
  from controller_step.reconcile [OF _ this] have 3: "?step ?c2 \<lparr>c_sys = sample_after,
      c_queue = newQueue\<lparr>processing := {?r}\<rparr>, c_worker = Returned ?r True, c_events = []\<rparr>"
    by (simp add: sample_rbac_start_def)
  show ?thesis by (rule run_step [OF run_step [OF run_step [OF run_start 1] 2] 3])
qed


end
