(* ===== verification/RbacCompletion.thy ===== *)
theory RbacCompletion imports RbacLoop Advance Total begin

text \<open>
  Every namespace gets set up.  In a cluster that is well (\<open>healthy_rbac\<close>) a reconciliation of a namespace that
  is there returns without an error, so it has set the namespace up; the rbac controller is an instance of
  \<open>advancing\<close>.
\<close>

section \<open>A cluster that is well\<close>

text \<open>A read finds the object or says that it is not there.\<close>

definition answered :: "(go_error + 'a) \<times> 'w \<Rightarrow> bool" where
  "answered r \<longleftrightarrow> (case fst r of Inr x \<Rightarrow> True | Inl e \<Rightarrow> IsNotFound e)"

definition rbac_calls_keep :: "'w rbac_client \<Rightarrow> ('w \<Rightarrow> bool) \<Rightarrow> bool" where
  "rbac_calls_keep K good \<longleftrightarrow>
     (\<forall>ns n. preserves good (get_ns K ns n)) \<and> (\<forall>ns n. preserves good (get_sa K ns n)) \<and>
     (\<forall>ns n. preserves good (get_rb K ns n)) \<and> (\<forall>n. preserves good (get_cr K n)) \<and>
     (\<forall>sa. preserves good (create_sa K sa)) \<and> (\<forall>ns rb. preserves good (create_rb K ns rb)) \<and>
     (\<forall>ns rb. preserves good (update_rb K ns rb)) \<and> (\<forall>cr. preserves good (create_cr K cr)) \<and>
     (\<forall>cr. preserves good (update_cr K cr))"

text \<open>
  On the worlds \<open>good\<close> an object that is not there can be created, one that is there can be updated, and the
  cluster role \<open>edit\<close> of Kubernetes is there.
\<close>

definition rbac_answers :: "'w rbac_client \<Rightarrow> 'w rbac_view \<Rightarrow> ('w \<Rightarrow> string \<Rightarrow> bool) \<Rightarrow> ('w \<Rightarrow> bool) \<Rightarrow> bool" where
  "rbac_answers K V there good \<longleftrightarrow>
     (\<forall>ns n w. good w \<longrightarrow> there w n \<longrightarrow> (\<exists>x. fst (get_ns K ns n w) = Inr x)) \<and>
     (\<forall>ns n w. good w \<longrightarrow> answered (get_sa K ns n w) \<and> answered (get_rb K ns n w) \<and> answered (get_cr K n w)) \<and>
     (\<forall>sa w. good w \<longrightarrow> v_sas V w (sa_Namespace sa, sa_Name sa) = None \<longrightarrow> fst (create_sa K sa w) = Inr ()) \<and>
     (\<forall>ns rb w. good w \<longrightarrow> fst (if v_rbs V w (ns, rb_Name rb) = None then create_rb K ns rb w else update_rb K ns rb w) = Inr ()) \<and>
     (\<forall>cr w. good w \<longrightarrow> fst (if v_crs V w (cr_Name cr) = None then create_cr K cr w else update_cr K cr w) = Inr ()) \<and>
     (\<forall>w. good w \<longrightarrow> v_crs V w ''edit'' \<noteq> None)"

definition healthy_rbac :: "'w rbac_client \<Rightarrow> 'w rbac_view \<Rightarrow> ('w \<Rightarrow> string \<Rightarrow> bool) \<Rightarrow> ('w \<Rightarrow> bool) \<Rightarrow> bool" where
  "healthy_rbac K V there good \<longleftrightarrow> rbac_server K V \<and> namespace_server K there \<and> rbac_calls_keep K good \<and>
     rbac_answers K V there good"

lemma healthy_rbacD:
  assumes "healthy_rbac K V there good"
  shows "rbac_server K V" "namespace_server K there" "rbac_calls_keep K good" "rbac_answers K V there good"
  using assms by (simp_all add: healthy_rbac_def)

section \<open>The steps of a reconciliation\<close>

text \<open>What is known of the world while a service account is bound: the cluster roles \<open>names\<close> are there.\<close>

definition with_roles :: "'w rbac_view \<Rightarrow> ('w \<Rightarrow> bool) \<Rightarrow> string set \<Rightarrow> 'w \<Rightarrow> bool" where
  "with_roles V good names w \<longleftrightarrow> good w \<and> (\<forall>n \<in> names. v_crs V w n \<noteq> None)"

definition read_back ::
  "'w rbac_view \<Rightarrow> ('w \<Rightarrow> bool) \<Rightarrow> string set \<Rightarrow> 'w \<Rightarrow> (go_error + 'a) \<Rightarrow> 'a option \<Rightarrow> 'w \<Rightarrow> bool" where
  "read_back V good names w q stored w' \<longleftrightarrow> with_roles V good names w' \<and> same_view V w w' \<and>
     (case q of Inr x \<Rightarrow> stored = Some x | Inl e \<Rightarrow> IsNotFound e \<and> stored = None)"

lemma read_backI:
  assumes "answered (f w)" and "preserves good f" and "f w = (q, w')" and "same_view V w w' \<and> reports q stored"
    and "with_roles V good names w"
  shows "read_back V good names w q stored w'"
  using assms unfolding read_back_def with_roles_def answered_def preserves_def reports_def same_view_def
  by (metis (no_types, lifting) fst_conv snd_conv sum.case_eq_if)

lemma healthy_reads:
  assumes H: "healthy_rbac K V there good" and w: "with_roles V good names w"
  shows "get_sa K ns n w = (q, w') \<Longrightarrow> read_back V good names w q (v_sas V w (ns, n)) w'"
    and "get_rb K ns n w = (p, w') \<Longrightarrow> read_back V good names w p (v_rbs V w (ns, n)) w'"
    and "get_cr K n w = (r, w') \<Longrightarrow> read_back V good names w r (v_crs V w n) w'"
proof -
  note K = healthy_rbacD(1) [OF H]
  from w have good: "good w" by (simp add: with_roles_def)
  have kept: "preserves good (get_sa K ns n)" "preserves good (get_rb K ns n)" "preserves good (get_cr K n)"
    using healthy_rbacD(3) [OF H] by (simp_all add: rbac_calls_keep_def)
  have ans: "answered (get_sa K ns n w)" "answered (get_rb K ns n w)" "answered (get_cr K n w)"
    using healthy_rbacD(4) [OF H] good by (simp_all add: rbac_answers_def)
  show "get_sa K ns n w = (q, w') \<Longrightarrow> read_back V good names w q (v_sas V w (ns, n)) w'"
    by (rule read_backI [OF ans(1) kept(1) _ server_read_sa [OF K] w])
  show "get_rb K ns n w = (p, w') \<Longrightarrow> read_back V good names w p (v_rbs V w (ns, n)) w'"
    by (rule read_backI [OF ans(2) kept(2) _ server_read_rb [OF K] w])
  show "get_cr K n w = (r, w') \<Longrightarrow> read_back V good names w r (v_crs V w n) w'"
    by (rule read_backI [OF ans(3) kept(3) _ server_read_cr [OF K] w])
qed

text \<open>The writes, whose errors there are none.\<close>

lemma healthy_writes:
  assumes H: "healthy_rbac K V there good" and w: "with_roles V good names w"
  shows "v_sas V w (sa_Namespace sa, sa_Name sa) = None \<Longrightarrow> \<exists>w'. create_sa K sa w = (Inr (), w') \<and> with_roles V good names w'"
    and "v_rbs V w (ns, rb_Name rb) = None \<Longrightarrow> \<exists>w'. create_rb K ns rb w = (Inr (), w') \<and> with_roles V good names w'"
    and "v_rbs V w (ns, rb_Name rb) \<noteq> None \<Longrightarrow> \<exists>w'. update_rb K ns rb w = (Inr (), w') \<and> with_roles V good names w'"
    and "v_crs V w (cr_Name cr) = None \<Longrightarrow>
      \<exists>w'. create_cr K cr w = (Inr (), w') \<and> with_roles V good (insert (cr_Name cr) names) w'"
    and "v_crs V w (cr_Name cr) \<noteq> None \<Longrightarrow>
      \<exists>w'. update_cr K cr w = (Inr (), w') \<and> with_roles V good (insert (cr_Name cr) names) w'"
proof -
  note K = healthy_rbacD(1) [OF H]
  from w have good: "good w" by (simp add: with_roles_def)
  have kept: "good (snd (create_sa K sa w))" "good (snd (create_rb K ns rb w))" "good (snd (update_rb K ns rb w))"
    "good (snd (create_cr K cr w))" "good (snd (update_cr K cr w))"
    using healthy_rbacD(3) [OF H] good by (simp_all add: rbac_calls_keep_def preserves_def)
  note A = healthy_rbacD(4) [OF H, unfolded rbac_answers_def]
  have sas: "v_sas V w (sa_Namespace sa, sa_Name sa) = None \<longrightarrow> fst (create_sa K sa w) = Inr ()" using A good by blast
  have rbs: "fst (if v_rbs V w (ns, rb_Name rb) = None then create_rb K ns rb w else update_rb K ns rb w) = Inr ()"
    using A good by blast
  have crs: "fst (if v_crs V w (cr_Name cr) = None then create_cr K cr w else update_cr K cr w) = Inr ()"
    using A good by blast
  have ok: "v_sas V w (sa_Namespace sa, sa_Name sa) = None \<Longrightarrow> fst (create_sa K sa w) = Inr ()"
    "v_rbs V w (ns, rb_Name rb) = None \<Longrightarrow> fst (create_rb K ns rb w) = Inr ()"
    "v_rbs V w (ns, rb_Name rb) \<noteq> None \<Longrightarrow> fst (update_rb K ns rb w) = Inr ()"
    "v_crs V w (cr_Name cr) = None \<Longrightarrow> fst (create_cr K cr w) = Inr ()"
    "v_crs V w (cr_Name cr) \<noteq> None \<Longrightarrow> fst (update_cr K cr w) = Inr ()"
    using sas rbs crs by (simp_all split: if_splits)
  have roles: "with_roles V good names w'" if "good w'" "v_crs V w' = v_crs V w" for w'
    using that w by (simp add: with_roles_def)
  have role: "with_roles V good (insert (cr_Name cr) names) w'" if "good w'" "v_crs V w' = (v_crs V w)(cr_Name cr \<mapsto> cr)" for w'
    using that w by (simp add: with_roles_def)
  show "v_sas V w (sa_Namespace sa, sa_Name sa) = None \<Longrightarrow> \<exists>w'. create_sa K sa w = (Inr (), w') \<and> with_roles V good names w'"
    using ok(1) kept(1) server_write_sa [OF K, of sa w] by (cases "create_sa K sa w") (auto simp: writes_sa_def intro!: roles)
  show "v_rbs V w (ns, rb_Name rb) = None \<Longrightarrow> \<exists>w'. create_rb K ns rb w = (Inr (), w') \<and> with_roles V good names w'"
    using ok(2) kept(2) server_write_rb(1) [OF K, of ns rb w] by (cases "create_rb K ns rb w") (auto simp: writes_rb_def intro!: roles)
  show "v_rbs V w (ns, rb_Name rb) \<noteq> None \<Longrightarrow> \<exists>w'. update_rb K ns rb w = (Inr (), w') \<and> with_roles V good names w'"
    using ok(3) kept(3) server_write_rb(2) [OF K, of ns rb w] by (cases "update_rb K ns rb w") (auto simp: writes_rb_def intro!: roles)
  show "v_crs V w (cr_Name cr) = None \<Longrightarrow>
      \<exists>w'. create_cr K cr w = (Inr (), w') \<and> with_roles V good (insert (cr_Name cr) names) w'"
    using ok(4) kept(4) server_write_cr(1) [OF K, of cr w] by (cases "create_cr K cr w") (auto simp: writes_cr_def intro!: role)
  show "v_crs V w (cr_Name cr) \<noteq> None \<Longrightarrow>
      \<exists>w'. update_cr K cr w = (Inr (), w') \<and> with_roles V good (insert (cr_Name cr) names) w'"
    using ok(5) kept(5) server_write_cr(2) [OF K, of cr w] by (cases "update_cr K cr w") (auto simp: writes_cr_def intro!: role)
qed

text \<open>A read and what follows on either of its answers.\<close>

lemma ends_read:
  assumes "\<And>w q w'. with_roles V good names w \<Longrightarrow> f w = (q, w') \<Longrightarrow> read_back V good names w q (stored w) w'"
    and "\<And>w w'. same_view V w w' \<Longrightarrow> stored w' = stored w"
    and "\<And>a. ends (holding (\<lambda>w. with_roles V good names w \<and> stored w = Some a) M) (g a) R"
    and "\<And>e. IsNotFound e \<Longrightarrow> ends (holding (\<lambda>w. with_roles V good names w \<and> stored w = None) M) (h e) R"
  shows "ends (holding (with_roles V good names) M) (go_catch (call f ev) h g) R"
  by (rule ends_call_or [OF _ _ assms(3,4)])
    (use assms(1,2) in \<open>fastforce simp: read_back_def\<close>)+

lemma same_view_read: "same_view V w w' \<Longrightarrow> v_sas V w' k = v_sas V w k \<and> v_rbs V w' k = v_rbs V w k \<and> v_crs V w' n = v_crs V w n"
  by (simp add: same_view_def)

lemma ends_ensureSA:
  assumes H: "healthy_rbac K V there good"
  shows "ends (holding (with_roles V good names) M) (ensureSA K F ns) (\<lambda>sa. holding (with_roles V good names) M)"
  unfolding ensureSA_def
proof (rule ends_read [where stored = "\<lambda>w. v_sas V w (ns, PipelineSA F)", OF healthy_reads(1) [OF H]])
  fix e assume e: "IsNotFound e"
  let ?sa = "\<lparr>sa_Name = PipelineSA F, sa_Namespace = ns\<rparr>"
  have "ends (holding (\<lambda>w. with_roles V good names w \<and> v_sas V w (ns, PipelineSA F) = None) M)
      (call (create_sa K ?sa) (CreateSA ?sa)) (\<lambda>u. holding (with_roles V good names) M)"
    by (rule ends_call) (use healthy_writes(1) [OF H, of names _ ?sa] in auto)
  then have "ends (holding (\<lambda>w. with_roles V good names w \<and> v_sas V w (ns, PipelineSA F) = None) M)
      (go_bind (call (create_sa K ?sa) (CreateSA ?sa)) (\<lambda>u. go_return ?sa)) (\<lambda>sa. holding (with_roles V good names) M)"
    by (rule ends_bind) simp
  with e show "ends (holding (\<lambda>w. with_roles V good names w \<and> v_sas V w (ns, PipelineSA F) = None) M)
      (if \<not> IsNotFound e then go_fail e
       else let sa = ?sa in go_bind (call (create_sa K sa) (CreateSA sa)) (\<lambda>u. go_return sa))
      (\<lambda>sa. holding (with_roles V good names) M)"
    by (simp add: Let_def)
qed (auto simp: holding_def same_view_read)

lemma ends_ensureSCClusterRole:
  assumes H: "healthy_rbac K V there good"
  shows "ends (holding (with_roles V good names) M) (ensureSCClusterRole K)
    (\<lambda>u. holding (with_roles V good (insert PipelineAnyuid names)) M)"
  unfolding ensureSCClusterRole_def with_clientset_server [OF healthy_rbacD(1) [OF H]]
proof (rule ends_read [where stored = "\<lambda>w. v_crs V w PipelineAnyuid", OF healthy_reads(3) [OF H]])
  have n: "cr_Name anyuid_role = PipelineAnyuid" by (simp add: anyuid_role_def)
  show "ends (holding (\<lambda>w. with_roles V good names w \<and> v_crs V w PipelineAnyuid = Some cr) M)
      (call (update_cr K anyuid_role) (UpdateCR anyuid_role))
      (\<lambda>u. holding (with_roles V good (insert PipelineAnyuid names)) M)" for cr
    by (rule ends_call) (use healthy_writes(5) [OF H, of names _ anyuid_role] n in auto)
  have "ends (holding (\<lambda>w. with_roles V good names w \<and> v_crs V w PipelineAnyuid = None) M)
      (call (create_cr K anyuid_role) (CreateCR anyuid_role))
      (\<lambda>u. holding (with_roles V good (insert PipelineAnyuid names)) M)"
    by (rule ends_call) (use healthy_writes(4) [OF H, of names _ anyuid_role] n in auto)
  then show "IsNotFound e \<Longrightarrow> ends (holding (\<lambda>w. with_roles V good names w \<and> v_crs V w PipelineAnyuid = None) M)
      (if IsNotFound e then call (create_cr K anyuid_role) (CreateCR anyuid_role) else go_fail e)
      (\<lambda>u. holding (with_roles V good (insert PipelineAnyuid names)) M)" for e
    by simp
qed (simp_all add: same_view_read)

text \<open>A binding: its cluster role is there.\<close>

lemma ends_check_role:
  assumes H: "healthy_rbac K V there good" and "name \<in> names" and X: "\<And>w w'. same_view V w w' \<Longrightarrow> X w \<Longrightarrow> X w'"
  shows "ends (holding (\<lambda>w. with_roles V good names w \<and> X w) M) (call (get_cr K name) (GetCR name))
    (\<lambda>cr. holding (\<lambda>w. with_roles V good names w \<and> X w) M)"
proof (rule ends_call)
  fix w assume w: "with_roles V good names w \<and> X w"
  obtain q w' where q: "get_cr K name w = (q, w')" by (cases "get_cr K name w")
  from healthy_reads(3) [OF H _ q] w have r: "read_back V good names w q (v_crs V w name) w'" by blast
  from w assms(2) have "v_crs V w name \<noteq> None" by (simp add: with_roles_def)
  with q r w X show "\<exists>a w'. get_cr K name w = (Inr a, w') \<and> with_roles V good names w' \<and> X w'"
    by (cases q) (auto simp: read_back_def)
qed

lemma ends_ensure_binding:
  assumes H: "healthy_rbac K V there good" and name: "name \<in> names"
  shows "ends (holding (with_roles V good names) M) (ensure_binding K name (create_named_binding K name) sa)
    (\<lambda>u. holding (with_roles V good names) M)"
  unfolding ensure_binding_def Let_def with_clientset_server [OF healthy_rbacD(1) [OF H]]
proof (rule ends_read [where stored = "\<lambda>w. v_rbs V w (sa_Namespace sa, name)", OF healthy_reads(2) [OF H]])
  note clientset = with_clientset_server [OF healthy_rbacD(1) [OF H]]
  let ?rb = "new_role_binding name sa"
  have n: "rb_Name ?rb = name" by (simp add: new_role_binding_def)
  have check: "ends (holding (\<lambda>w. with_roles V good names w \<and> v_rbs V w (sa_Namespace sa, name) = x) M)
      (call (get_cr K name) (GetCR name))
      (\<lambda>cr. holding (\<lambda>w. with_roles V good names w \<and> v_rbs V w (sa_Namespace sa, name) = x) M)" for x
    by (rule ends_check_role [OF H name]) (simp add: same_view_read)
  have "ends (holding (\<lambda>w. with_roles V good names w \<and> v_rbs V w (sa_Namespace sa, name) = None) M)
      (create_named_binding K name sa) (\<lambda>u. holding (with_roles V good names) M)"
    unfolding create_named_binding_def Let_def clientset
    by (rule ends_call) (use healthy_writes(2) [OF H, of names _ "sa_Namespace sa" ?rb] n in auto)
  with ends_bind [OF check]
  show "IsNotFound e \<Longrightarrow> ends (holding (\<lambda>w. with_roles V good names w \<and> v_rbs V w (sa_Namespace sa, name) = None) M)
      (if \<not> IsNotFound e then go_fail e
       else go_bind (call (get_cr K name) (GetCR name)) (\<lambda>cr. create_named_binding K name sa))
      (\<lambda>u. holding (with_roles V good names) M)" for e
    by simp
  have "ends (holding (\<lambda>w. with_roles V good names w \<and> v_rbs V w (sa_Namespace sa, name) = Some rb) M)
      (updateRoleBinding K rb sa) (\<lambda>u. holding (with_roles V good names) M)" for rb
  proof (cases "hasSubject (Subjects rb) (sa_subject sa)")
    case True
    then show ?thesis by (auto simp: updateRoleBinding_def Let_def holding_def)
  next
    case False
    let ?new = "rb\<lparr>Subjects := Subjects rb @ [sa_subject sa]\<rparr>"
    have "ends (holding (\<lambda>w. with_roles V good names w \<and> v_rbs V w (sa_Namespace sa, name) = Some rb) M)
        (call (update_rb K (sa_Namespace sa) ?new) (UpdateRB (sa_Namespace sa) ?new)) (\<lambda>u. holding (with_roles V good names) M)"
    proof (rule ends_call)
      fix w assume w: "with_roles V good names w \<and> v_rbs V w (sa_Namespace sa, name) = Some rb"
      then have "rb_Name ?new = name" using server_names(1) [OF healthy_rbacD(1) [OF H]] by auto
      with w healthy_writes(3) [OF H, of names w "sa_Namespace sa" ?new]
      show "\<exists>a w'. update_rb K (sa_Namespace sa) ?new w = (Inr a, w') \<and> with_roles V good names w'" by auto
    qed
    with False show ?thesis by (simp add: updateRoleBinding_def Let_def clientset)
  qed
  then show "ends (holding (\<lambda>w. with_roles V good names w \<and> v_rbs V w (sa_Namespace sa, name) = Some rb) M)
      (go_bind (call (get_cr K name) (GetCR name)) (\<lambda>cr. updateRoleBinding K rb sa))
      (\<lambda>u. holding (with_roles V good names) M)" for rb
    by (rule ends_bind [OF check])
qed (simp_all add: same_view_read)

section \<open>A reconciliation\<close>

lemma ends_Reconcile_rbac:
  assumes H: "healthy_rbac K V there good"
  shows "ends (holding (\<lambda>w. good w \<and> there w n) M) (Reconcile_rbac K F [] n) (\<lambda>v s. v = (emptyResult, None))"
proof (cases "fst (MatchString K (IgnorePattern F) n)")
  case True
  then show ?thesis by (simp add: Reconcile_rbac_def Let_def)
next
  case False
  have get: "ends (holding (\<lambda>w. good w \<and> there w n) M) (getNS K [] n) (\<lambda>ns. holding (with_roles V good {''edit''}) M)"
    unfolding getNS_def
  proof (rule ends_call)
    fix w assume w: "good w \<and> there w n"
    with healthy_rbacD(4) [OF H] obtain x where x: "fst (get_ns K [] n w) = Inr x" unfolding rbac_answers_def by blast
    from healthy_rbacD(3) [OF H] w have "good (snd (get_ns K [] n w))" by (simp add: rbac_calls_keep_def preserves_def)
    with healthy_rbacD(4) [OF H] have "with_roles V good {''edit''} (snd (get_ns K [] n w))"
      by (simp add: rbac_answers_def with_roles_def)
    with x show "\<exists>a w'. get_ns K [] n w = (Inr a, w') \<and> with_roles V good {''edit''} w'" by (metis prod.collapse)
  qed
  let ?names = "insert PipelineAnyuid {''edit''}"
  have scc: "ends (holding (with_roles V good ?names) M) (ensureSCCRoleBinding K sa) (\<lambda>u. holding (with_roles V good ?names) M)"
    and edit: "ends (holding (with_roles V good ?names) M) (ensureRoleBindings K sa) (\<lambda>u. holding (with_roles V good ?names) M)" for sa
    using ends_ensure_binding [OF H, of _ ?names M]
    by (simp_all add: ensureSCCRoleBinding_def ensureRoleBindings_def createSCCRoleBinding_def [abs_def]
        createRoleBinding_def [abs_def])
  show ?thesis
    unfolding Reconcile_rbac_def Let_def if_not_P [OF False]
    by (rule ends_catch [OF get], rule ends_catch [OF ends_ensureSA [OF H]],
        rule ends_catch [OF ends_ensureSCClusterRole [OF H]], rule ends_catch [OF scc], rule ends_catch [OF edit]) simp
qed

lemma Reconcile_rbac_calm:
  assumes K: "rbac_server K V" and run: "Reconcile_rbac K F req_ns n s = (r, s')"
  shows "\<not> is_panic r"
proof (cases "fst (MatchString K (IgnorePattern F) n)")
  case True
  with run show ?thesis by (auto simp: Reconcile_rbac_def Let_def go_return_def)
next
  case False
  obtain q w where q: "get_ns K req_ns n (world s) = (q, w)" by (cases "get_ns K req_ns n (world s)")
  show ?thesis
  proof (cases q)
    case (Inl e)
    with False run q show ?thesis
      by (auto simp: Reconcile_rbac_def Let_def go_catch_eq_cases getNS_def call_def go_return_def)
  next
    case (Inr ns)
    with Reconcile_rbac_ensures [OF K False _ run] q show ?thesis by (auto simp: ensured_def)
  qed
qed

definition keeps_good :: "('w \<Rightarrow> bool) \<Rightarrow> ('w, 'z) cluster_scheme \<Rightarrow> ('w, 'z) cluster_scheme \<Rightarrow> bool" where
  "keeps_good good s t \<longleftrightarrow> (good (world s) \<longrightarrow> good (world t))"

interpretation kg: step_relation "keeps_good good" for good
  by unfold_locales (simp_all add: keeps_good_def)

lemma keeps_good_call: "preserves good f \<Longrightarrow> kg.keeps good (call f ev)"
  by (intro kg.keepsI) (simp add: keeps_good_def world_snd_call preserves_def)

lemma Reconcile_rbac_good:
  assumes "rbac_calls_keep K good"
  shows "kg.keeps good (Reconcile_rbac K F req_ns n)"
  by (rule rbac_steps.keeps_Reconcile_rbac, intro rbac_steps.intro kg.step_relation_axioms rbac_steps_axioms.intro)
    (rule keeps_good_call; use assms [unfolded rbac_calls_keep_def] in blast)+

section \<open>The controller\<close>

definition rbac_course ::
  "'w rbac_client \<Rightarrow> 'w rbac_view \<Rightarrow> ('w \<Rightarrow> string \<Rightarrow> bool) \<Rightarrow> ('w \<Rightarrow> bool) \<Rightarrow> string \<Rightarrow> ('w, 'z) cluster_scheme \<Rightarrow> bool" where
  "rbac_course K V there good n s \<longleftrightarrow> healthy_rbac K V there good \<and> good (world s) \<and> there (world s) n"

interpretation secures: advancing "rbac_reconciler K F" "deliver namespace_watch" "rbac_env V there F n"
    "namespace_request n" "rbac_goal K V there F n" "rbac_course K V there good n" "\<lambda>s. 0"
  for K :: "'w rbac_client" and F V there n good
proof
  fix s s' :: "('w, 'b) cluster_scheme" and r req
  assume s: "rbac_course K V there good n s"
  then have H: "healthy_rbac K V there good" and w: "good (world s)" "there (world s) n" by (simp_all add: rbac_course_def)
  {
    assume run: "rbac_reconciler K F (namespace_request n) s = (r, s')"
    have "holding (\<lambda>w. good w \<and> there w n) (cluster.more s) s" using w by (simp add: holding_def)
    from endsD [OF ends_Reconcile_rbac [OF H] this, of F] run have "r = Ok (emptyResult, None)"
      by (metis rbac_reconciler_def namespace_request_def prod.inject Request.select_convs)
    then have "settled r" by (simp add: settled_def emptyResult_def)
    then show "rbac_goal K V there F n s' \<or> (0::nat) < 0" using rbac.settles [OF run] by blast
  }
  assume "rbac_reconciler K F req s = (r, s')"
  then have run: "Reconcile_rbac K F (req_Namespace req) (req_Name req) s = (r, s')" by (simp add: rbac_reconciler_def)
  show "\<not> is_panic r" by (rule Reconcile_rbac_calm [OF healthy_rbacD(1) [OF H] run])
  show "rbac_course K V there good n s' \<and> (0::nat) \<le> 0"
    using kg.keepsD [OF Reconcile_rbac_good [OF healthy_rbacD(3) [OF H]] run]
      sn.keepsD [OF Reconcile_rbac_namespaces [OF healthy_rbacD(2) [OF H]] run] H w
    by (simp add: rbac_course_def keeps_good_def same_namespaces_def)
qed

section \<open>Properties\<close>


text \<open>The sample server, with the cluster role \<open>edit\<close>.\<close>

definition sample_edit :: "accounts \<Rightarrow> bool" where
  "sample_edit a \<longleftrightarrow> at_crs a ''edit'' \<noteq> None"

lemma answered_found: "answered (Rbac.found x, w)"
  by (simp add: answered_def Rbac.found_def split: option.split)

lemma sample_healthy_rbac: "healthy_rbac sample_rbac sample_accounts sample_there sample_edit"
  unfolding healthy_rbac_def
proof (intro conjI sample_rbac_server sample_namespace_server)
  show "rbac_calls_keep sample_rbac sample_edit"
    by (simp add: rbac_calls_keep_def preserves_def sample_edit_def sample_rbac_def)
  show "rbac_answers sample_rbac sample_accounts sample_there sample_edit"
    by (simp add: rbac_answers_def sample_rbac_def sample_edit_def answered_found sample_views)
qed


end
