(* ===== verification/ManifestRuns.thy ===== *)
theory ManifestRuns imports Samples Reconciliation "HOL-Library.Sublist" begin

text \<open>
  The runs of \<open>Delete\<close>, \<open>Apply\<close> and \<open>wait.PollImmediate\<close>: which calls they make and in which order, and
  what has been seen of the cluster when they succeed.  The statements are about the trace of the calls,
  so they hold for every client.
\<close>

section \<open>Deleting\<close>

fun deleted :: "event list \<Rightarrow> (bool \<times> obj) list" where
  "deleted [] = []"
| "deleted (DeleteObj b u e # es) = (b, u) # deleted es"
| "deleted (ev # es) = deleted es"

lemma deleted_append [simp]: "deleted (es @ fs) = deleted es @ deleted fs"
  by (induction es rule: deleted.induct) auto

fun reads_or_deletes :: "event \<Rightarrow> bool" where
  "reads_or_deletes (GetObj u e) = True"
| "reads_or_deletes (DeleteObj b u e) = True"
| "reads_or_deletes ev = False"

text \<open>The object was not there, or a delete of it was accepted.\<close>

definition gone :: "event list \<Rightarrow> obj \<Rightarrow> bool" where
  "gone es u \<longleftrightarrow>
     list_ex (\<lambda>ev. case ev of
        GetObj v (Some e) \<Rightarrow> v = u \<and> IsNotFound e
      | DeleteObj b v None \<Rightarrow> v = u
      | DeleteObj b v (Some e) \<Rightarrow> v = u \<and> IsNotFound e
      | _ \<Rightarrow> False) es"

lemma gone_append [simp]: "gone (es @ fs) u \<longleftrightarrow> gone es u \<or> gone fs u"
  by (simp add: gone_def)

text \<open>What a deletion of the list \<open>us\<close> leaves in the trace.\<close>

definition deletion_of :: "bool \<Rightarrow> obj list \<Rightarrow> unit res \<Rightarrow> event list \<Rightarrow> bool" where
  "deletion_of foreground us r es \<longleftrightarrow>
     subseq (deleted es) (List.map (Pair foreground) (filter okToDelete us)) \<and>
     list_all reads_or_deletes es \<and>
     (r = Ok () \<longrightarrow> (\<forall>u \<in> set us. okToDelete u \<longrightarrow> gone es u))"

lemma delete_one_run:
  assumes "delete_one C foreground u s = (r, s')" and "okToDelete u"
  shows "\<exists>es. trace s' = trace s @ es \<and> deletion_of foreground [u] r es"
  using assms
  by (auto simp: delete_one_def mf_get_def delete_call_def go_catch_eq_cases call_def go_return_def
        go_fail_def deletion_of_def gone_def
      split: prod.splits sum.splits if_splits)

lemma deletion_of_append:
  assumes "deletion_of foreground us (Ok ()) es" and "deletion_of foreground vs r fs"
  shows "deletion_of foreground (us @ vs) r (es @ fs)"
  using assms by (auto simp: deletion_of_def list_emb_append_mono)

lemma deletion_of_fails:
  assumes "deletion_of foreground us r es" and "r \<noteq> Ok ()"
  shows "deletion_of foreground (us @ vs) r es"
  using assms by (auto simp: deletion_of_def list_emb_append2)

lemma Delete_loop:
  assumes "go_foreach (\<lambda>u. if okToDelete u then with_client m (delete_one C foreground u)
                           else go_return ()) us s = (r, s')"
  shows "\<exists>es. trace s' = trace s @ es \<and> deletion_of foreground us r es"
  using assms
proof (induction us arbitrary: s)
  case (Cons u us)
  let ?one = "if okToDelete u then with_client m (delete_one C foreground u) else go_return ()"
  obtain q t where q: "?one s = (q, t)" by (cases "?one s")
  then have "\<exists>es. trace t = trace s @ es \<and> deletion_of foreground [u] q es"
    using delete_one_run [of C foreground u s q t]
    by (auto simp: with_client_def go_panic_def go_return_def deletion_of_def split: if_splits)
  then obtain es where es: "trace t = trace s @ es" "deletion_of foreground [u] q es" by blast
  show ?case
  proof (cases q)
    case (Ok a)
    with Cons.prems q have "go_foreach (\<lambda>u. if okToDelete u then with_client m (delete_one C foreground u)
                           else go_return ()) us t = (r, s')"
      by (simp add: go_bind_eq_cases)
    from Cons.IH [OF this] obtain fs where "trace s' = trace t @ fs" "deletion_of foreground us r fs"
      by blast
    with es Ok show ?thesis
      using deletion_of_append [of foreground "[u]" es us r fs] by auto
  next
    case (Err e)
    with Cons.prems q es show ?thesis
      using deletion_of_fails [of foreground "[u]" "Err e" es us] by (auto simp: go_bind_eq_cases)
  next
    case (Panic p)
    with Cons.prems q es show ?thesis
      using deletion_of_fails [of foreground "[u]" "Panic p" es us] by (auto simp: go_bind_eq_cases)
  qed
qed (simp add: go_return_def deletion_of_def)

lemma Delete_run:
  assumes "Delete C foreground m s = (r, s')"
  obtains es where "trace s' = trace s @ es" and "deletion_of foreground (rev (resources m)) r es"
  using Delete_loop [OF assms [unfolded Delete_def]] by blast

section \<open>Waiting\<close>

definition seen_absent :: "obj list \<Rightarrow> event list \<Rightarrow> bool" where
  "seen_absent us es \<longleftrightarrow>
     list_all2 (\<lambda>u ev. case ev of GetObj v (Some e) \<Rightarrow> v = u \<and> IsNotFound e | _ \<Rightarrow> False) us es"

fun reads_object :: "event \<Rightarrow> bool" where
  "reads_object (GetObj u e) = True"
| "reads_object ev = False"

lemma all_absent_run:
  assumes "all_absent C us s = (r, s')"
  shows "\<exists>es. trace s' = trace s @ es \<and> list_all reads_object es \<and> length es \<le> length us \<and>
     (r = Ok True \<longrightarrow> seen_absent us es) \<and> \<not> is_panic r"
  using assms
proof (induction us arbitrary: s)
  case (Cons u us)
  show ?case
  proof (cases "get_obj C u (world s)")
    case (Pair q w)
    show ?thesis
    proof (cases "\<exists>e. q = Inl e \<and> IsNotFound e")
      case True
      then obtain e where e: "q = Inl e" "IsNotFound e" by blast
      let ?t = "s\<lparr>world := w, trace := trace s @ [GetObj u (Some e)]\<rparr>"
      from Cons.prems Pair e have "all_absent C us ?t = (r, s')"
        by (simp add: go_catch_eq_cases call_def)
      from Cons.IH [OF this] obtain es where "trace s' = trace ?t @ es" "list_all reads_object es"
        "length es \<le> length us" "r = Ok True \<longrightarrow> seen_absent us es" "\<not> is_panic r" by blast
      with e show ?thesis
        by (intro exI [of _ "GetObj u (Some e) # es"]) (auto simp: seen_absent_def)
    next
      case False
      with Cons.prems Pair show ?thesis
        by (cases q) (auto simp: go_catch_eq_cases call_def go_fail_def go_return_def)
    qed
  qed
qed (auto simp: go_return_def seen_absent_def)

lemma manifest_absent_run:
  assumes "manifest_absent C m s = (r, s')"
  shows "\<exists>es. trace s' = trace s @ es \<and> list_all reads_object es \<and> length es \<le> length (resources m) \<and>
     (r = Ok True \<longrightarrow> seen_absent (resources m) es) \<and> (has_client m \<longrightarrow> \<not> is_panic r)"
  using assms all_absent_run [of C "resources m" s r s']
  by (auto simp: manifest_absent_def with_client_def go_return_def go_panic_def seen_absent_def
      split: if_splits)

text \<open>The number of evaluations is bounded, and success means that the last one succeeded.\<close>

definition waited :: "nat \<Rightarrow> manifest \<Rightarrow> unit res \<Rightarrow> event list \<Rightarrow> bool" where
  "waited n m r es \<longleftrightarrow>
     list_all reads_object es \<and> length es \<le> n * length (resources m) \<and>
     (r = Ok () \<longrightarrow> (\<exists>before last. es = before @ last \<and> seen_absent (resources m) last))"

lemma waited_Cons:
  assumes "list_all reads_object es" and "length es \<le> length (resources m)" and "waited n m r fs"
  shows "waited (Suc n) m r (es @ fs)"
  using assms by (auto simp: waited_def) (metis append.assoc)

lemma waited_now:
  assumes "list_all reads_object es" and "length es \<le> length (resources m)"
    and "r = Ok () \<Longrightarrow> seen_absent (resources m) es"
  shows "waited (Suc n) m r es"
  using assms by (auto simp: waited_def intro: exI [of _ "[]"])

lemma waited_mono:
  assumes "waited n m r es" and "n \<le> k"
  shows "waited k m r es"
proof -
  from assms(2) have "n * length (resources m) \<le> k * length (resources m)" by (rule mult_le_mono1)
  with assms(1) show ?thesis unfolding waited_def using le_trans by blast
qed

lemma WaitFor_run:
  assumes "WaitFor n (manifest_absent C m) s = (r, s')"
  shows "\<exists>es. trace s' = trace s @ es \<and> waited (Suc n) m r es"
  using assms
proof (induction n arbitrary: s)
  case 0
  obtain q t where q: "manifest_absent C m s = (q, t)" by (cases "manifest_absent C m s")
  from manifest_absent_run [OF q] 0 q show ?case
    by (cases q) (auto simp: go_bind_eq_cases go_return_def go_fail_def intro!: waited_now split: if_splits)
next
  case (Suc n)
  obtain q t where q: "manifest_absent C m s = (q, t)" by (cases "manifest_absent C m s")
  then obtain es where es: "trace t = trace s @ es" "list_all reads_object es"
    "length es \<le> length (resources m)" "q = Ok True \<longrightarrow> seen_absent (resources m) es"
    using manifest_absent_run by blast
  show ?case
  proof (cases "q = Ok False")
    case True
    with Suc.prems q have "WaitFor n (manifest_absent C m) t = (r, s')"
      by (simp add: go_bind_eq_cases)
    with Suc.IH obtain fs where "trace s' = trace t @ fs" "waited (Suc n) m r fs" by blast
    with es show ?thesis using waited_Cons by fastforce
  next
    case False
    with Suc.prems q es show ?thesis
      by (cases q) (auto simp: go_bind_eq_cases go_return_def intro!: waited_now split: if_splits)
  qed
qed

lemma PollImmediate_run:
  assumes "PollImmediate C timeout (manifest_absent C m) s = (r, s')"
  obtains es where "trace s' = trace s @ es" and "waited (timeout + 2) m r es"
proof -
  obtain q t where q: "manifest_absent C m s = (q, t)" by (cases "manifest_absent C m s")
  then obtain es where es: "trace t = trace s @ es" "list_all reads_object es"
    "length es \<le> length (resources m)" "q = Ok True \<longrightarrow> seen_absent (resources m) es"
    using manifest_absent_run by blast
  show ?thesis
  proof (cases "q = Ok False")
    case True
    obtain n w where "poll_ticks C timeout (world t) = (n, w)" by (cases "poll_ticks C timeout (world t)")
    with True assms q have "WaitFor (min n timeout) (manifest_absent C m) (t\<lparr>world := w\<rparr>) = (r, s')"
      by (simp add: PollImmediate_def go_bind_eq_cases elapse_def)
    from WaitFor_run [OF this] obtain fs where fs: "trace s' = trace t @ fs"
      "waited (Suc (min n timeout)) m r fs" by auto
    from fs(2) have "waited (Suc timeout) m r fs" by (rule waited_mono) simp
    with es fs that [of "es @ fs"] show ?thesis by (simp add: waited_Cons)
  next
    case False
    with assms q es that [of es] show ?thesis
      by (cases q) (auto simp: PollImmediate_def go_bind_eq_cases go_return_def
          intro!: waited_now split: if_splits)
  qed
qed

section \<open>Applying\<close>

text \<open>The object that \<open>apply\<close> sends when \<open>spec\<close> is not there.\<close>

definition created :: "'w client \<Rightarrow> obj \<Rightarrow> obj" where
  "created C spec =
     (let current = strip_lastApplied (annotate ''manifestival'' resourceCreated spec)
      in annotate LastAppliedConfigAnnotation (marshal C current) current)"

lemma emits_apply_one:
  assumes "\<And>e. P (GetObj spec e)" and "\<And>e. P (CreateObj (created C spec) e)"
    and "\<And>u e. P (UpdateObj u e)"
  shows "emits P (apply_one C spec :: (('w, 'z) cluster_scheme, _) go)"
proof -
  note steps = emits_intros assms
  have "emits P (mf_get C spec :: (('w, 'z) cluster_scheme, _) go)"
    unfolding mf_get_def by (intro steps)
  moreover have "emits P (mf_update C live spec :: (('w, 'z) cluster_scheme, _) go)" for live
    unfolding mf_update_def Let_def by (intro steps)
  ultimately show ?thesis
    unfolding apply_one_def Let_def
    by (intro steps)
      (auto split: option.split sum.split intro!: steps assms(2) [unfolded created_def Let_def])
qed

lemma emits_apply_loop:
  assumes "\<And>spec e. spec \<in> set specs \<Longrightarrow> P (GetObj spec e)"
    and "\<And>spec e. spec \<in> set specs \<Longrightarrow> P (CreateObj (created C spec) e)"
    and "\<And>u e. P (UpdateObj u e)"
  shows "emits P (apply_loop C specs :: (('w, 'z) cluster_scheme, _) go)"
  using assms
  by (induction specs)
    (auto intro!: emits_intros emits_apply_one split: option.split prod.split)

lemma emits_Apply_specs:
  assumes "\<And>spec e. spec \<in> set (resources m) \<Longrightarrow> P (GetObj spec e)"
    and "\<And>spec e. spec \<in> set (resources m) \<Longrightarrow> P (CreateObj (created C spec) e)"
    and "\<And>u e. P (UpdateObj u e)"
  shows "emits P (Apply C m)"
  unfolding Apply_def with_client_def
  by (auto intro!: emits_intros emits_apply_loop assms split: prod.split)

fun applies_object :: "event \<Rightarrow> bool" where
  "applies_object (GetObj u e) = True"
| "applies_object (CreateObj u e) = True"
| "applies_object (UpdateObj u e) = True"
| "applies_object ev = False"

lemma emits_Apply: "emits applies_object (Apply C m)"
  by (rule emits_Apply_specs) simp_all

lemma strip_lastApplied_other:
  assumes "meta_ok u" and "k \<noteq> LastAppliedConfigAnnotation"
  shows "lookup_nil (GetAnnotations (strip_lastApplied u)) k = lookup_nil (GetAnnotations u) k"
  using assms an.get_set [of u "Some _"]
  by (auto simp: strip_lastApplied_def lookup_nil_def split: option.split)

lemma lookup_annotate:
  assumes "meta_ok u"
  shows "lookup_nil (GetAnnotations (annotate k v u)) k' =
    (if k' = k then Some v else lookup_nil (GetAnnotations u) k')"
  using assms an.get_set [of u "Some _"]
  by (auto simp: annotate_def lookup_nil_def split: option.split)

lemma annotate_keeps [simp]:
  "meta_ok (annotate k v u) = meta_ok u" "GetKind (annotate k v u) = GetKind u"
  "GetName (annotate k v u) = GetName u" "GetNamespace (annotate k v u) = GetNamespace u"
  by (simp_all add: annotate_def)

lemma strip_lastApplied_keeps [simp]:
  "meta_ok (strip_lastApplied u) = meta_ok u" "GetKind (strip_lastApplied u) = GetKind u"
  "GetName (strip_lastApplied u) = GetName u" "GetNamespace (strip_lastApplied u) = GetNamespace u"
  by (simp_all add: strip_lastApplied_def split: option.split)

lemma created_keeps [simp]:
  "GetKind (created C u) = GetKind u" "GetName (created C u) = GetName u"
  "GetNamespace (created C u) = GetNamespace u"
  by (simp_all add: created_def Let_def)

lemma created_okToDelete: "meta_ok u \<Longrightarrow> okToDelete (created C u)"
  by (simp add: okToDelete_def created_def Let_def lookup_annotate strip_lastApplied_other
      LastAppliedConfigAnnotation_def)

section \<open>Replacing the addons\<close>

text \<open>
  The order of the calls in \<open>deleteAndCreateAddons\<close>: first the deletes, then the reads of the wait, and
  only when they have seen every object gone, the calls of \<open>Apply\<close>.
\<close>

definition replaced :: "manifest \<Rightarrow> event list \<Rightarrow> bool" where
  "replaced m es \<longleftrightarrow> (\<exists>ds ws cs. es = ds @ ws @ cs \<and>
     list_all reads_or_deletes ds \<and> list_all reads_object ws \<and> list_all applies_object cs \<and>
     (cs \<noteq> [] \<longrightarrow> (\<forall>u \<in> set (resources m). okToDelete u \<longrightarrow> gone ds u) \<and>
        (\<exists>before last. ws = before @ last \<and> seen_absent (resources m) last)))"

lemma replaced_aborted:
  assumes "list_all reads_or_deletes ds" and "list_all reads_object ws"
  shows "replaced m (ds @ ws)"
  unfolding replaced_def using assms by (intro exI [of _ ds] exI [of _ ws] exI [of _ "[]"]) simp

lemma replaced_applied:
  assumes "deletion_of b (rev (resources m)) (Ok ()) ds" and "waited n m (Ok ()) ws"
    and "list_all applies_object cs"
  shows "replaced m (ds @ ws @ cs)"
  unfolding replaced_def using assms
  by (intro exI [of _ ds] exI [of _ ws] exI [of _ cs]) (auto simp: deletion_of_def waited_def)

lemma deleteAndCreateAddons_run:
  assumes "deleteAndCreateAddons E m s = (r, s')"
  shows "\<exists>es. trace s' = trace s @ es \<and> replaced m es"
proof -
  let ?C = "E_client E"
  obtain q t where q: "Delete ?C False m s = (q, t)" by (cases "Delete ?C False m s")
  then obtain ds where ds: "trace t = trace s @ ds" "deletion_of False (rev (resources m)) q ds"
    by (rule Delete_run)
  show ?thesis
  proof (cases "q = Ok ()")
    case False
    with assms q have "s' = t"
      by (cases q) (auto simp: deleteAndCreateAddons_def Let_def go_catch_eq_cases go_return_def)
    with ds show ?thesis
      using replaced_aborted [of ds "[]"] by (auto simp: deletion_of_def)
  next
    case True
    let ?P = "PollImmediate ?C replaceTimeoutAddons (manifest_absent ?C m)"
    obtain p v where p: "?P t = (p, v)" by (cases "?P t")
    then obtain ws where ws: "trace v = trace t @ ws" "waited (replaceTimeoutAddons + 2) m p ws"
      by (rule PollImmediate_run)
    show ?thesis
    proof (cases "p = Ok ()")
      case False
      with assms q True p have "s' = v"
        by (cases p) (auto simp: deleteAndCreateAddons_def Let_def go_catch_eq_cases go_return_def)
      with ds ws show ?thesis
        using replaced_aborted [of ds ws] by (auto simp: deletion_of_def waited_def)
    next
      case p_Ok: True
      with assms q True p have "Apply ?C m v = (r, s')"
        by (simp add: deleteAndCreateAddons_def Let_def go_catch_eq_cases)
      then obtain cs where "trace s' = trace v @ cs" "list_all applies_object cs"
        by (rule emitsD [OF emits_Apply])
      with True ds ws p_Ok replaced_applied [of False m ds _ ws cs] show ?thesis
        by auto
    qed
  qed
qed

text \<open>\<open>reconcileDeletion\<close> is three deletions, each tried only when those before it have succeeded.\<close>

lemma Delete_memory:
  fixes s s' :: "'w sys"
  assumes "Delete C b m s = (r, s')"
  shows "r_pipeline s' = r_pipeline s \<and> r_triggers s' = r_triggers s \<and> r_addons s' = r_addons s"
proof -
  have "cluster.more s' = cluster.more s"
    using mem.keepsD [OF mem.keeps_Delete assms] by (simp add: same_memory_def)
  then show ?thesis by (cases s; cases s') simp
qed

definition deletes_all :: "manifest list \<Rightarrow> (result \<times> go_error option) res \<Rightarrow> event list \<Rightarrow> bool" where
  "deletes_all ms r es \<longleftrightarrow>
     subseq (deleted es) (List.map (Pair True) (filter okToDelete (concat (List.map (rev \<circ> resources) ms)))) \<and>
     list_all reads_or_deletes es \<and>
     (r = Ok (emptyResult, None) \<longrightarrow>
        (\<forall>m \<in> set ms. \<forall>u \<in> set (resources m). okToDelete u \<longrightarrow> gone es u))"

lemma deletes_all_step:
  assumes "Delete C True m s = (q, t)" and "trace s' = trace t @ fs" and "q = Ok () \<Longrightarrow> deletes_all ms r fs"
    and "q \<noteq> Ok () \<Longrightarrow> fs = [] \<and> r \<noteq> Ok (emptyResult, None)"
  shows "\<exists>es. trace s' = trace s @ es \<and> deletes_all (m # ms) r es"
proof -
  obtain es where es: "trace t = trace s @ es" "deletion_of True (rev (resources m)) q es"
    using Delete_run [OF assms(1)] by blast
  show ?thesis
  proof (cases "q = Ok ()")
    case True
    with assms(2,3) es show ?thesis
      by (intro exI [of _ "es @ fs"]) (auto simp: deletes_all_def deletion_of_def list_emb_append_mono)
  next
    case False
    with assms(2,4) es show ?thesis
      by (intro exI [of _ es]) (auto simp: deletes_all_def deletion_of_def list_emb_append2)
  qed
qed

lemma deletes_all_chain:
  fixes s :: "'w sys"
  assumes "go_bind (go_get f) (\<lambda>m. go_catch (Delete C True m)
             (\<lambda>err. go_return (emptyResult, Some err)) (\<lambda>u. rest)) s = (r, s')"
    and "\<And>t. r_pipeline t = r_pipeline s \<and> r_triggers t = r_triggers s \<and> r_addons t = r_addons s \<Longrightarrow>
           rest t = (r, s') \<Longrightarrow> \<exists>fs. trace s' = trace t @ fs \<and> deletes_all ms r fs"
  shows "\<exists>es. trace s' = trace s @ es \<and> deletes_all (f s # ms) r es"
proof -
  obtain q t where q: "Delete C True (f s) s = (q, t)" by (cases "Delete C True (f s) s")
  show ?thesis
  proof (cases "q = Ok ()")
    case True
    with assms(1) q have "rest t = (r, s')" by (simp add: go_bind_eq_cases go_get_def go_catch_eq_cases)
    with assms(2) Delete_memory [OF q] obtain fs where "trace s' = trace t @ fs" "deletes_all ms r fs"
      by blast
    then show ?thesis using deletes_all_step [OF q] True by blast
  next
    case False
    with assms(1) q have "s' = t" "r \<noteq> Ok (emptyResult, None)"
      by (cases q; auto simp: go_bind_eq_cases go_get_def go_catch_eq_cases go_return_def)+
    then show ?thesis using deletes_all_step [OF q, of s' "[]"] False by simp
  qed
qed

lemma reconcileDeletion_run:
  assumes "reconcileDeletion E s = (r, s')"
  shows "\<exists>es. trace s' = trace s @ es \<and> deletes_all [r_pipeline s, r_triggers s, r_addons s] r es"
proof -
  have last: "\<exists>fs. trace s' = trace t @ fs \<and> deletes_all [] r fs"
    if "go_return (emptyResult, None) t = (r, s')" for t :: "'a sys"
    using that by (auto simp: go_return_def deletes_all_def)
  show ?thesis
  proof (rule deletes_all_chain [OF assms [unfolded reconcileDeletion_def Let_def]])
    fix t
    assume t: "r_pipeline t = r_pipeline s \<and> r_triggers t = r_triggers s \<and> r_addons t = r_addons s"
      and run: "go_bind (go_get r_triggers) (\<lambda>m. go_catch (Delete (E_client E) True m)
         (\<lambda>err. go_return (emptyResult, Some err)) (\<lambda>u. go_bind (go_get r_addons) (\<lambda>m.
         go_catch (Delete (E_client E) True m) (\<lambda>err. go_return (emptyResult, Some err))
         (\<lambda>u. go_return (emptyResult, None))))) t = (r, s')"
    have "\<exists>es. trace s' = trace t @ es \<and> deletes_all [r_triggers t, r_addons t] r es"
    proof (rule deletes_all_chain [OF run])
      fix v
      assume v: "r_pipeline v = r_pipeline t \<and> r_triggers v = r_triggers t \<and> r_addons v = r_addons t"
        and run: "go_bind (go_get r_addons) (\<lambda>m. go_catch (Delete (E_client E) True m)
           (\<lambda>err. go_return (emptyResult, Some err)) (\<lambda>u. go_return (emptyResult, None))) v = (r, s')"
      have "\<exists>es. trace s' = trace v @ es \<and> deletes_all [r_addons v] r es"
        by (rule deletes_all_chain [OF run last])
      with v show "\<exists>es. trace s' = trace v @ es \<and> deletes_all [r_addons t] r es" by simp
    qed
    with t show "\<exists>es. trace s' = trace t @ es \<and> deletes_all [r_triggers s, r_addons s] r es" by simp
  qed
qed

section \<open>Properties\<close>

text \<open>C10:
  \<open>Delete\<close> works through the manifest from its end, and it deletes nothing but the resources of the
  manifest that are safe to delete, each at most once, with the propagation policy it was given: a
  Namespace is deleted only with the annotation that it was created by an operator.  When it returns
  no error, every such resource was not there or its deletion was accepted.
\<close>

theorem Delete_in_reverse_order:
  assumes "Delete C foreground m s = (r, s')"
  shows "\<exists>es. trace s' = trace s @ es \<and> list_all reads_or_deletes es \<and>
     subseq (deleted es) (List.map (Pair foreground) (filter okToDelete (rev (resources m)))) \<and>
     (r = Ok () \<longrightarrow> (\<forall>u \<in> set (resources m). okToDelete u \<longrightarrow> gone es u))"
  by (rule Delete_run [OF assms]) (auto simp: deletion_of_def)


text \<open>C8:
  The addons are never created over old ones: whatever the calls of \<open>deleteAndCreateAddons\<close> return, the
  calls come in three phases (deletes, waiting, apply), and a call of the last phase is made only after
  the deletion of every resource was accepted and one evaluation of the wait has found all of them
  absent.
\<close>

theorem deleteAndCreateAddons_order:
  assumes "deleteAndCreateAddons E m s = (r, s')"
  shows "\<exists>ds ws cs. trace s' = trace s @ ds @ ws @ cs \<and>
     list_all reads_or_deletes ds \<and> list_all reads_object ws \<and> list_all applies_object cs \<and>
     (cs \<noteq> [] \<longrightarrow> (\<forall>u \<in> set (resources m). okToDelete u \<longrightarrow> gone ds u) \<and>
        (\<exists>before last. ws = before @ last \<and> seen_absent (resources m) last))"
  using deleteAndCreateAddons_run [OF assms] unfolding replaced_def by blast

text \<open>
  What \<open>Apply\<close> creates it may later delete: every object it sends to be created is the specification of a
  resource of the manifest (the same kind, namespace and name) with the operator's annotation, which
  \<open>Delete\<close> asks of a Namespace.
\<close>

theorem Apply_creates_deletable:
  assumes "list_all meta_ok (resources m)" and "Apply C m s = (r, s')"
  shows "\<exists>es. trace s' = trace s @ es \<and>
     list_all (\<lambda>ev. case ev of
        CreateObj v e \<Rightarrow> okToDelete v \<and> list_ex (\<lambda>u. GetKind v = GetKind u \<and> GetName v = GetName u \<and>
          GetNamespace v = GetNamespace u) (resources m)
      | _ \<Rightarrow> True) es"
  by (rule emitsD [OF emits_Apply_specs assms(2)])
    (use assms(1) in \<open>auto simp: list_all_iff list_ex_iff created_okToDelete\<close>)

text \<open>C27:
  Deleting the Config deletes the pipeline, the triggers and the addons, each from its end, in the
  foreground, and nothing else; it writes no status and creates nothing.  It returns without an error
  only when every resource of the three manifests that is safe to delete was not there or its deletion
  was accepted.  (The community manifest is not among them.)
\<close>

theorem reconcileDeletion_deletes:
  assumes "reconcileDeletion E s = (r, s')"
  shows "\<exists>es. trace s' = trace s @ es \<and> list_all reads_or_deletes es \<and>
     subseq (deleted es) (List.map (Pair True) (filter okToDelete
        (rev (resources (r_pipeline s)) @ rev (resources (r_triggers s)) @ rev (resources (r_addons s))))) \<and>
     (r = Ok (emptyResult, None) \<longrightarrow>
        (\<forall>u \<in> set (resources (r_pipeline s) @ resources (r_triggers s) @ resources (r_addons s)).
           okToDelete u \<longrightarrow> gone es u))"
proof -
  obtain es where "trace s' = trace s @ es" "deletes_all [r_pipeline s, r_triggers s, r_addons s] r es"
    using reconcileDeletion_run [OF assms] by blast
  then show ?thesis
    by (intro exI [of _ es]) (simp add: deletes_all_def ball_Un)
qed

section \<open>Witnesses\<close>

definition sample_run :: "store sys" where
  "sample_run = sample_sys (Some sample_config)"

lemma sample_run_trace [simp]: "trace sample_run = []"
  by (simp add: sample_run_def sample_sys_def)

text \<open>The Namespace of the sample manifest has no annotation: it stays, the deployments go, last first.\<close>

theorem Delete_in_reverse_order_witness:
  "\<exists>es. trace (snd (Delete sample_client True (r_pipeline sample_run) sample_run)) = es \<and>
     list_all reads_or_deletes es \<and>
     subseq (deleted es) (List.map (Pair True) (filter okToDelete (rev (resources (r_pipeline sample_run)))))"
  using Delete_in_reverse_order [OF prod.collapse [symmetric],
      of sample_client True "r_pipeline sample_run" sample_run] by auto


theorem deleteAndCreateAddons_order_witness:
  "\<exists>ds ws cs. trace (snd (deleteAndCreateAddons sample_env (r_addons sample_run) sample_run)) = ds @ ws @ cs \<and>
     list_all reads_or_deletes ds \<and> list_all reads_object ws \<and> list_all applies_object cs \<and>
     (cs \<noteq> [] \<longrightarrow> (\<exists>before last. ws = before @ last \<and> seen_absent (resources (r_addons sample_run)) last))"
  using deleteAndCreateAddons_order [OF prod.collapse [symmetric],
      of sample_env "r_addons sample_run" sample_run]
  unfolding sample_run_trace append_Nil by blast

theorem Apply_creates_deletable_witness:
  "\<exists>es. trace (snd (Apply sample_client (r_pipeline sample_run) sample_run)) = es \<and>
     list_all (\<lambda>ev. case ev of CreateObj v e \<Rightarrow> okToDelete v | _ \<Rightarrow> True) es"
proof -
  have ok: "list_all meta_ok (resources (r_pipeline sample_run))"
    by code_simp
  show ?thesis
    using Apply_creates_deletable [OF ok prod.collapse [symmetric], of sample_client sample_run]
    by (auto simp: list_all_iff split: event.splits)
qed

theorem reconcileDeletion_deletes_witness:
  "\<exists>es. trace (snd (reconcileDeletion sample_env sample_run)) = es \<and> list_all reads_or_deletes es \<and>
     (\<forall>u \<in> set (resources (r_addons sample_run)). okToDelete u \<longrightarrow> gone es u)"
proof -
  have ok: "fst (reconcileDeletion sample_env sample_run) = Ok (emptyResult, None)"
    by code_simp
  show ?thesis
    using reconcileDeletion_deletes [OF prod.collapse [symmetric], of sample_env sample_run]
    unfolding ok by auto
qed

end
