(* ===== verification/MergeFacts.thy ===== *)
theory MergeFacts imports MergePatch begin

text \<open>
  What the JSON merge patch does: it has no conflicts, and merging it into the object in the cluster
  gives the three-way merge \<open>three_way\<close> of the earlier manifest, the manifest and that object.  The functions
  are described key by key (\<open>map_of\<close>), and trees are compared path by path (\<open>leaf\<close>).
\<close>

section \<open>What is at a place\<close>

text \<open>
  What a value has at the end of a path of keys: an object counts as the empty object, so two trees are the
  same value when they have the same at every path.
\<close>

fun leaf :: "string list \<Rightarrow> json \<Rightarrow> json option" where
  "leaf [] (JObj doc) = Some (JObj [])"
| "leaf [] v = Some v"
| "leaf (k # p) (JObj doc) = (case map_of doc k of Some v \<Rightarrow> leaf p v | None \<Rightarrow> None)"
| "leaf (k # p) v = None"

text \<open>Trees whose objects have no key twice, and trees without null.\<close>

function (sequential) keys_ok :: "json \<Rightarrow> bool" and fields_ok :: "obj \<Rightarrow> bool" and items_ok :: "json list \<Rightarrow> bool" where
  "keys_ok (JObj doc) = (distinct (List.map fst doc) \<and> fields_ok doc)"
| "keys_ok (JList xs) = items_ok xs"
| "keys_ok v = True"
| "fields_ok [] = True"
| "fields_ok ((k, v) # doc) = (keys_ok v \<and> fields_ok doc)"
| "items_ok [] = True"
| "items_ok (x # xs) = (keys_ok x \<and> items_ok xs)"
  by pat_completeness auto
termination
  by (relation "measure (\<lambda>x. case x of
        Inl v \<Rightarrow> size v
      | Inr (Inl doc) \<Rightarrow> size_list (size_prod (\<lambda>k. 0) size) doc
      | Inr (Inr ary) \<Rightarrow> size_list size ary)") auto

function (sequential) null_free :: "json \<Rightarrow> bool" and null_free_fields :: "obj \<Rightarrow> bool"
  and null_free_items :: "json list \<Rightarrow> bool" where
  "null_free JNull = False"
| "null_free (JObj doc) = null_free_fields doc"
| "null_free (JList xs) = null_free_items xs"
| "null_free v = True"
| "null_free_fields [] = True"
| "null_free_fields ((k, v) # doc) = (null_free v \<and> null_free_fields doc)"
| "null_free_items [] = True"
| "null_free_items (x # xs) = (null_free x \<and> null_free_items xs)"
  by pat_completeness auto
termination
  by (relation "measure (\<lambda>x. case x of
        Inl v \<Rightarrow> size v
      | Inr (Inl doc) \<Rightarrow> size_list (size_prod (\<lambda>k. 0) size) doc
      | Inr (Inr ary) \<Rightarrow> size_list size ary)") auto

lemma fields_okD: "fields_ok doc \<Longrightarrow> map_of doc k = Some v \<Longrightarrow> keys_ok v"
  by (induction doc) (auto split: if_splits)

lemma null_free_fieldsD: "null_free_fields doc \<Longrightarrow> map_of doc k = Some v \<Longrightarrow> null_free v"
  by (induction doc) (auto split: if_splits)

lemma leaf_cong: "map_of d = map_of e \<Longrightarrow> leaf p (JObj d) = leaf p (JObj e)"
  by (cases p) simp_all

section \<open>The functions, key by key\<close>

definition object :: "json option \<Rightarrow> obj" where
  "object v = (case v of Some (JObj doc) \<Rightarrow> doc | _ \<Rightarrow> [])"

definition wrapped :: "obj \<Rightarrow> json option" where
  "wrapped d = (if d = [] then None else Some (JObj d))"

lemma object_simps [simp]:
  "object None = []" "object (Some (JObj d)) = d" "object (wrapped d) = d"
  by (simp_all add: object_def wrapped_def)

lemma diff_keys: "k \<notin> fst ` set b \<Longrightarrow> k \<notin> fst ` set (diff_entries a b)"
  by (induction b) (auto split: option.splits)

lemma map_of_diff_entries:
  "distinct (List.map fst b) \<Longrightarrow>
   map_of (diff_entries a b) k = Option.bind (map_of b k) (diff_value (map_of a k))"
proof (induction b)
  case (Cons e b)
  obtain k' bv where e: "e = (k', bv)" by (cases e)
  have "map_of (diff_entries a b) k' = None"
    using Cons.prems e diff_keys [of k' b a] by (simp add: map_of_eq_None_iff)
  with Cons e show ?case by (auto simp: map_add_def split: option.splits)
qed simp

lemma map_of_getDiff:
  assumes "distinct (List.map fst b)"
  shows "map_of (getDiff a b) k = (case map_of b k of
      Some bv \<Rightarrow> diff_value (map_of a k) bv
    | None \<Rightarrow> map_option (\<lambda>v. JNull) (map_of a k))"
proof -
  have rest: "map_of (List.map (\<lambda>e. (fst e, JNull)) (filter (\<lambda>e. map_of b (fst e) = None) a)) k =
      (if map_of b k = None then map_option (\<lambda>v. JNull) (map_of a k) else None)"
    by (induction a) auto
  show ?thesis
    by (auto simp: getDiff.simps map_of_diff_entries [OF assms] rest map_add_def split: option.splits)
qed

lemma distinct_getDiff:
  assumes "distinct (List.map fst a)" and "distinct (List.map fst b)"
  shows "distinct (List.map fst (getDiff a b))"
proof -
  have entries: "distinct (List.map fst (diff_entries a b))"
    using assms(2)
  proof (induction b)
    case (Cons e b)
    obtain k bv where e: "e = (k, bv)" by (cases e)
    with Cons diff_keys [of k b a] show ?case by (simp split: option.splits)
  qed simp
  have "fst \<circ> (\<lambda>e. (fst e, JNull)) = (fst :: string \<times> json \<Rightarrow> string)"
    by (simp add: fun_eq_iff)
  moreover have "fst ` set (diff_entries a b) \<inter> fst ` set (filter (\<lambda>e. map_of b (fst e) = None) a) = {}"
    using diff_keys [of _ b a] by (force simp: map_of_eq_None_iff)
  ultimately show ?thesis
    using entries distinct_map_filter [OF assms(1), of "\<lambda>e. map_of b (fst e) = None"]
    by (simp add: getDiff.simps image_comp)
qed

lemma keep_keys: "k \<notin> fst ` set m \<Longrightarrow> k \<notin> fst ` set (keepOrDeleteNull n m)"
  by (induction m) (auto split: option.splits)

lemma map_of_keep:
  "distinct (List.map fst m) \<Longrightarrow> map_of (keepOrDeleteNull n m) k = Option.bind (map_of m k) (keep_value n)"
proof (induction m)
  case (Cons e m)
  obtain k' v where e: "e = (k', v)" by (cases e)
  have "map_of (keepOrDeleteNull n m) k' = None"
    using Cons.prems e keep_keys [of k' m n] by (simp add: map_of_eq_None_iff)
  with Cons e show ?case by (auto simp: map_add_def split: option.splits)
qed simp

lemma distinct_keep: "distinct (List.map fst m) \<Longrightarrow> distinct (List.map fst (keepOrDeleteNull n m))"
proof (induction m)
  case (Cons e m)
  obtain k v where e: "e = (k, v)" by (cases e)
  with Cons keep_keys [of k m n] show ?case by (simp split: option.splits)
qed simp

lemma keep_value_obj: "keep_value n (JObj d) =
    (if d = [] then if n then None else Some (JObj []) else wrapped (keepOrDeleteNull n d))"
  by (cases d) (auto simp: wrapped_def Let_def)

lemma map_of_prune: "distinct (List.map fst d) \<Longrightarrow>
   map_of (pruneDocNulls d) k = (case map_of d k of None \<Rightarrow> None
     | Some v \<Rightarrow> if v = JNull then None else Some (pruneNulls v))"
proof (induction d)
  case (Cons e d)
  obtain k' v where e: "e = (k', v)" by (cases e)
  have "k' \<notin> fst ` set d \<Longrightarrow> k' \<notin> fst ` set (pruneDocNulls d)" by (induction d) (auto split: if_splits)
  with Cons.prems e have "map_of (pruneDocNulls d) k' = None" by (simp add: map_of_eq_None_iff)
  with Cons e show ?case by auto
qed simp

definition merged_field :: "json option \<Rightarrow> json \<Rightarrow> json" where
  "merged_field cur v = (case cur of
     Some cur \<Rightarrow> if cur = JNull then pruneNulls v else merge_value cur v | None \<Rightarrow> pruneNulls v)"

lemma map_of_mergeDocs: "distinct (List.map fst p) \<Longrightarrow>
   map_of (mergeDocs d p) k = (case map_of p k of None \<Rightarrow> map_of d k
     | Some v \<Rightarrow> if v = JNull then None else Some (merged_field (map_of d k) v))"
proof (induction p arbitrary: d)
  case (Cons e p)
  obtain k' v where e: "e = (k', v)" by (cases e)
  from Cons.prems e have new: "map_of p k' = None" by (simp add: map_of_eq_None_iff image_iff)
  from Cons e new show ?case
    by (cases "k = k'") (auto simp: merged_field_def delete_conv update_conv split: option.splits)
qed simp

section \<open>Trees without null\<close>

lemma keep_null_free:
  "null_free_fields m \<Longrightarrow> keepOrDeleteNull n m = (if n then [] else m)"
  "null_free v \<Longrightarrow> keep_value n v = (if n then None else Some v)"
proof (induction n m and n v rule: keepOrDeleteNull_keep_value.induct)
  case (5 n e m)
  then show ?case by (cases e) (auto simp: Let_def)
qed simp_all

lemma prune_null_free:
  "null_free v \<Longrightarrow> pruneNulls v = v" "null_free_fields d \<Longrightarrow> pruneDocNulls d = d"
  "null_free_items xs \<Longrightarrow> pruneAryNulls xs = xs"
  by (induction v and d and xs rule: pruneNulls_pruneDocNulls_pruneAryNulls.induct) auto

lemma null_free_entry: "null_free_fields d \<Longrightarrow> (k, v) \<in> set d \<Longrightarrow> v \<noteq> JNull"
  by (induction d) auto

lemma mergeDocs_new: "distinct (List.map fst p) \<Longrightarrow> fst ` set d \<inter> fst ` set p = {} \<Longrightarrow>
   mergeDocs d p = d @ pruneDocNulls p"
proof (induction p arbitrary: d)
  case (Cons e p)
  obtain k v where e: "e = (k, v)" by (cases e)
  have "AList.update k u d = d @ [(k, u)]" "AList.delete k d = d" if "k \<notin> fst ` set d" for u
    using that by (induction d) auto
  moreover from Cons.prems e have "k \<notin> fst ` set d" "map_of d k = None" by (auto simp: map_of_eq_None_iff)
  ultimately show ?case using Cons e by auto
qed simp

lemma mergeDocs_Nil: "distinct (List.map fst p) \<Longrightarrow> mergeDocs [] p = pruneDocNulls p"
  by (simp add: mergeDocs_new)

lemma distinct_mergeDocs: "distinct (List.map fst d) \<Longrightarrow> distinct (List.map fst (mergeDocs d p))"
  by (induction p arbitrary: d) (auto simp: distinct_update distinct_delete)

lemma diff_entries_Nil: "diff_entries [] b = b" "getDiff [] b = b"
proof -
  show "diff_entries [] b = b" by (induction b) auto
  then show "getDiff [] b = b" by (simp add: getDiff.simps)
qed

lemma diff_value_object: "diff_value x (JObj b) =
    (case x of Some (JObj a) \<Rightarrow> wrapped (getDiff a b) | _ \<Rightarrow> Some (JObj b))"
  by (auto simp: wrapped_def Let_def split: option.split json.split)

lemma diff_value_other: "\<nexists>b. v = JObj b \<Longrightarrow> diff_value x v =
    (case x of Some w \<Rightarrow> if matchesValue w v then None else Some v | None \<Rightarrow> Some v)"
  by (cases x; cases "the x"; cases v) auto

section \<open>The two patches\<close>

abbreviation deletions :: "obj \<Rightarrow> obj \<Rightarrow> obj" where
  "deletions original modified \<equiv> keepOrDeleteNull True (getDiff original modified)"

abbreviation changes :: "obj \<Rightarrow> obj \<Rightarrow> obj" where
  "changes current modified \<equiv> keepOrDeleteNull False (getDiff current modified)"

lemma deletions_Nil: "null_free_fields m \<Longrightarrow> deletions [] m = []"
  by (simp add: diff_entries_Nil keep_null_free)

lemma changes_Nil: "null_free_fields m \<Longrightarrow> changes [] m = m"
  by (simp add: diff_entries_Nil keep_null_free)

lemma deletions_field:
  assumes "keys_ok (JObj o')" and "keys_ok (JObj m)" and "null_free (JObj m)"
  shows "map_of (deletions o' m) k = (case map_of m k of
     None \<Rightarrow> map_option (\<lambda>v. JNull) (map_of o' k)
   | Some (JObj b) \<Rightarrow> wrapped (deletions (object (map_of o' k)) b)
   | Some v \<Rightarrow> None)"
proof -
  from assms have d: "map_of (deletions o' m) k = Option.bind (map_of (getDiff o' m) k) (keep_value True)"
    by (intro map_of_keep distinct_getDiff) simp_all
  have g: "map_of (getDiff o' m) k = (case map_of m k of
      Some bv \<Rightarrow> diff_value (map_of o' k) bv
    | None \<Rightarrow> map_option (\<lambda>v. JNull) (map_of o' k))"
    using assms by (intro map_of_getDiff) simp
  show ?thesis
  proof (cases "map_of m k")
    case None
    with d g show ?thesis by (cases "map_of o' k") simp_all
  next
    case (Some v)
    with assms(3) have free: "null_free v" using null_free_fieldsD by simp
    show ?thesis
    proof (cases "\<exists>b. v = JObj b")
      case True
      then obtain b where v: "v = JObj b" ..
      with free deletions_Nil [of b] keep_null_free(2) [OF free, of True] show ?thesis
        unfolding d g Some v
        by (auto simp: diff_value_object keep_value_obj wrapped_def object_def split: option.split json.split)
    next
      case False
      with free show ?thesis
        unfolding d g Some
        by (auto simp: diff_value_other keep_null_free split: option.split json.split)
    qed
  qed
qed

lemma changes_field_distinct:
  assumes "distinct (List.map fst c)" and "keys_ok (JObj m)" and "null_free (JObj m)"
  shows "map_of (changes c m) k = (case map_of m k of
     None \<Rightarrow> None
   | Some (JObj b) \<Rightarrow> (case map_of c k of Some (JObj a) \<Rightarrow> wrapped (changes a b) | _ \<Rightarrow> Some (JObj b))
   | Some v \<Rightarrow> (case map_of c k of Some w \<Rightarrow> if matchesValue w v then None else Some v | None \<Rightarrow> Some v))"
proof -
  from assms have d: "map_of (changes c m) k = Option.bind (map_of (getDiff c m) k) (keep_value False)"
    by (intro map_of_keep distinct_getDiff) simp_all
  have g: "map_of (getDiff c m) k = (case map_of m k of
      Some bv \<Rightarrow> diff_value (map_of c k) bv
    | None \<Rightarrow> map_option (\<lambda>v. JNull) (map_of c k))"
    using assms by (intro map_of_getDiff) simp
  show ?thesis
  proof (cases "map_of m k")
    case None
    with d g show ?thesis by (cases "map_of c k") simp_all
  next
    case (Some v)
    with assms(3) have free: "null_free v" using null_free_fieldsD by simp
    show ?thesis
    proof (cases "\<exists>b. v = JObj b")
      case True
      then obtain b where v: "v = JObj b" ..
      with free keep_null_free(2) [OF free, of False] show ?thesis
        unfolding d g Some v
        by (auto simp: diff_value_object keep_value_obj wrapped_def split: option.split json.split)
    next
      case False
      with free show ?thesis
        unfolding d g Some
        by (auto simp: diff_value_other keep_null_free split: option.split json.split)
    qed
  qed
qed

lemma changes_field:
  assumes "keys_ok (JObj c)" and "keys_ok (JObj m)" and "null_free (JObj m)"
  shows "map_of (changes c m) k = (case map_of m k of
     None \<Rightarrow> None
   | Some (JObj b) \<Rightarrow> (case map_of c k of Some (JObj a) \<Rightarrow> wrapped (changes a b) | _ \<Rightarrow> Some (JObj b))
   | Some v \<Rightarrow> (case map_of c k of Some w \<Rightarrow> if matchesValue w v then None else Some v | None \<Rightarrow> Some v))"
  using assms by (intro changes_field_distinct) simp_all

abbreviation fsize :: "obj \<Rightarrow> nat" where
  "fsize \<equiv> size_list (size_prod (\<lambda>k. 0) size)"

lemma object_smaller: "map_of m k = Some (JObj b) \<Longrightarrow> fsize b < fsize m"
  by (induction m) (auto split: if_splits)

lemma null_free_fieldsI:
  "distinct (List.map fst d) \<Longrightarrow> (\<And>k v. map_of d k = Some v \<Longrightarrow> null_free v) \<Longrightarrow> null_free_fields d"
proof (induction d)
  case (Cons e d)
  obtain k v where e: "e = (k, v)" by (cases e)
  have "null_free_fields d"
  proof (rule Cons.IH)
    show "null_free w" if "map_of d l = Some w" for l w
      using Cons.prems(1) Cons.prems(2) [of l w] that e by (auto simp: map_of_eq_None_iff image_iff dest: map_of_SomeD)
  qed (use Cons.prems(1) in simp)
  with Cons.prems(2) [of k v] e show ?case by simp
qed simp

lemma keys_ok_object: "keys_ok (JObj d) \<Longrightarrow> keys_ok (JObj (object (map_of d k)))"
  by (auto simp: object_def split: option.split json.split dest: fields_okD)

lemma keys_ok_field: "keys_ok (JObj d) \<Longrightarrow> map_of d k = Some v \<Longrightarrow> keys_ok v"
  by (auto dest: fields_okD)

lemma null_free_field: "null_free (JObj d) \<Longrightarrow> map_of d k = Some v \<Longrightarrow> null_free v"
  by (auto dest: null_free_fieldsD)

lemma distinct_patches:
  assumes "keys_ok (JObj a)" and "keys_ok (JObj b)"
  shows "distinct (List.map fst (keepOrDeleteNull n (getDiff a b)))"
  using assms by (intro distinct_keep distinct_getDiff) simp_all

lemma null_free_changes:
  "keys_ok (JObj c) \<Longrightarrow> keys_ok (JObj m) \<Longrightarrow> null_free (JObj m) \<Longrightarrow> null_free_fields (changes c m)"
proof (induction m arbitrary: c rule: measure_induct_rule [of fsize])
  case (less m)
  show ?case
  proof (rule null_free_fieldsI)
    show "distinct (List.map fst (changes c m))" by (rule distinct_patches [OF less.prems(1,2)])
    fix k v assume v: "map_of (changes c m) k = Some v"
    then obtain w where w: "map_of m k = Some w"
      by (auto simp: changes_field [OF less.prems] split: option.splits)
    have w_ok: "keys_ok w" "null_free w"
      using keys_ok_field [OF less.prems(2) w] null_free_field [OF less.prems(3) w] by simp_all
    show "null_free v"
    proof (cases "\<exists>a b. map_of c k = Some (JObj a) \<and> w = JObj b")
      case True
      then obtain a b where ab: "map_of c k = Some (JObj a)" "w = JObj b" by blast
      with less.IH [of b a] object_smaller w w_ok keys_ok_field [OF less.prems(1) ab(1)]
      have "null_free_fields (changes a b)" by simp
      with v w ab show ?thesis by (auto simp: changes_field [OF less.prems] wrapped_def split: if_splits)
    next
      case False
      with v w w_ok show ?thesis
        by (auto simp: changes_field [OF less.prems] split: option.splits json.splits if_splits)
    qed
  qed
qed

section \<open>The patch, key by key\<close>

abbreviation both :: "obj \<Rightarrow> obj \<Rightarrow> obj \<Rightarrow> obj" where
  "both original modified current \<equiv> mergeDocs (deletions original modified) (changes current modified)"


lemma wrapped_eq_None [simp]: "wrapped d = None \<longleftrightarrow> d = []"
  by (simp add: wrapped_def)

lemma both_field:
  assumes "keys_ok (JObj o')" and "keys_ok (JObj m)" and "keys_ok (JObj c)" and "null_free (JObj m)"
  shows "map_of (both o' m c) k = (case map_of m k of
     None \<Rightarrow> map_option (\<lambda>v. JNull) (map_of o' k)
   | Some (JObj b) \<Rightarrow> (case map_of c k of
        Some (JObj a) \<Rightarrow> wrapped (both (object (map_of o' k)) b a)
      | _ \<Rightarrow> Some (JObj (mergeDocs (deletions (object (map_of o' k)) b) b)))
   | Some v \<Rightarrow> (case map_of c k of Some w \<Rightarrow> if matchesValue w v then None else Some v | None \<Rightarrow> Some v))"
proof -
  have D: "map_of (both o' m c) k = (case map_of (changes c m) k of
      None \<Rightarrow> map_of (deletions o' m) k
    | Some v \<Rightarrow> if v = JNull then None else Some (merged_field (map_of (deletions o' m) k) v))"
    by (rule map_of_mergeDocs [OF distinct_patches [OF assms(3,2)]])
  show ?thesis
  proof (cases "map_of m k")
    case None
    then show ?thesis
      by (simp add: D changes_field [OF assms(3,2,4)] deletions_field [OF assms(1,2,4)])
  next
    case (Some v)
    have v_ok: "keys_ok v" "null_free v"
      using keys_ok_field [OF assms(2) Some] null_free_field [OF assms(4) Some] by simp_all
    show ?thesis
    proof (cases "\<exists>b. v = JObj b")
      case True
      then obtain b where b: "v = JObj b" ..
      with v_ok have whole: "distinct (List.map fst b)" "null_free_fields b" "mergeDocs [] b = b" "pruneDocNulls b = b"
        by (simp_all add: mergeDocs_Nil prune_null_free)
      show ?thesis
      proof (cases "\<exists>a. map_of c k = Some (JObj a)")
        case True
        then obtain a where a: "map_of c k = Some (JObj a)" ..
        let ?D = "deletions (object (map_of o' k)) b" and ?A = "changes a b"
        have "keys_ok (JObj a)" by (rule keys_ok_field [OF assms(3) a])
        then have A: "null_free_fields ?A" "mergeDocs [] ?A = ?A" "pruneDocNulls ?A = ?A"
          using null_free_changes [of a b] distinct_patches [of a b False] v_ok b
          by (simp_all add: mergeDocs_Nil prune_null_free)
        have "mergeDocs ?D ?A \<noteq> []" if "?A \<noteq> []"
        proof -
          from that obtain l w rest where A': "?A = (l, w) # rest" by (cases ?A) auto
          then have "map_of ?A l = Some w" by simp
          moreover from A(1) A' have "w \<noteq> JNull" by auto
          ultimately have "map_of (mergeDocs ?D ?A) l \<noteq> None"
            using map_of_mergeDocs [OF distinct_patches, of a b ?D False l] v_ok b \<open>keys_ok (JObj a)\<close> by simp
          then show ?thesis by auto
        qed
        with A show ?thesis
          unfolding D changes_field [OF assms(3,2,4)] deletions_field [OF assms(1,2,4)] Some b a
          by (cases "?A = []"; cases "?D = []") (simp_all add: wrapped_def merged_field_def)
      next
        case False
        then have "(case map_of c k of Some (JObj a) \<Rightarrow> f a | _ \<Rightarrow> x) = x" for f and x :: "json option"
          by (auto split: option.split json.split)
        with whole show ?thesis
          unfolding D changes_field [OF assms(3,2,4)] deletions_field [OF assms(1,2,4)] Some b
          by (auto simp: wrapped_def merged_field_def)
      qed
    next
      case False
      with v_ok show ?thesis
        unfolding D changes_field [OF assms(3,2,4)] deletions_field [OF assms(1,2,4)] Some
        by (cases v) (auto simp: merged_field_def prune_null_free split: option.split)
    qed
  qed
qed

section \<open>No conflicts\<close>

lemma conflict_fields_iff: "conflict_fields l r \<longleftrightarrow>
    (\<exists>k v w. (k, v) \<in> set l \<and> map_of r k = Some w \<and> HasConflicts v w)"
  by (induction l) (auto split: option.splits, blast+)

lemma no_conflicts:
  "keys_ok (JObj o') \<Longrightarrow> keys_ok (JObj m) \<Longrightarrow> keys_ok (JObj c) \<Longrightarrow> null_free (JObj m) \<Longrightarrow>
   \<not> conflict_fields (changes c m) (deletions o' m)"
proof (induction m arbitrary: o' c rule: measure_induct_rule [of fsize])
  case (less m)
  have "\<not> HasConflicts v w" if v: "(k, v) \<in> set (changes c m)" and w: "map_of (deletions o' m) k = Some w" for k v w
  proof -
    from v distinct_patches [OF less.prems(3,2), of False] have v: "map_of (changes c m) k = Some v" by simp
    from v w obtain b where b: "map_of m k = Some (JObj b)"
      and w: "w = JObj (deletions (object (map_of o' k)) b)"
      by (auto simp: changes_field [OF less.prems(3,2,4)] deletions_field [OF less.prems(1,2,4)] wrapped_def
          split: option.splits json.splits if_splits)
    have b_ok: "keys_ok (JObj b)" "null_free (JObj b)"
      using keys_ok_field [OF less.prems(2) b] null_free_field [OF less.prems(4) b] by simp_all
    note IH = less.IH [OF object_smaller [OF b] keys_ok_object [OF less.prems(1), of k] b_ok(1) _ b_ok(2)]
    show ?thesis
    proof (cases "\<exists>a. map_of c k = Some (JObj a)")
      case True
      then obtain a where a: "map_of c k = Some (JObj a)" ..
      with v b have "v = JObj (changes a b)"
        by (auto simp: changes_field [OF less.prems(3,2,4)] wrapped_def split: if_splits)
      with w IH [OF keys_ok_field [OF less.prems(3) a]] show ?thesis by simp
    next
      case False
      with v b have "v = JObj b"
        by (auto simp: changes_field [OF less.prems(3,2,4)] split: option.splits json.splits)
      with w IH [of "[]"] b_ok show ?thesis by (simp add: changes_Nil)
    qed
  qed
  then show ?case by (auto simp: conflict_fields_iff)
qed

lemma CreateThreeWay_ok:
  assumes "keys_ok (JObj o')" and "keys_ok (JObj m)" and "keys_ok (JObj c)" and "null_free (JObj m)"
  shows "CreateThreeWayJSONMergePatch o' m c = Inr (both o' m c)"
  using no_conflicts [OF assms] by (simp add: CreateThreeWayJSONMergePatch_def Let_def)

section \<open>What the merge is for\<close>

text \<open>
  The object an update should lead to: what the manifest says, without what an earlier manifest said and this
  one does not, and with everything else as it is in the cluster.
\<close>

function (sequential) three_way :: "obj \<Rightarrow> obj \<Rightarrow> obj \<Rightarrow> obj"
  and three_fields :: "obj \<Rightarrow> obj \<Rightarrow> obj \<Rightarrow> obj"
  and three_value :: "json option \<Rightarrow> json \<Rightarrow> json option \<Rightarrow> json" where
  "three_way original modified current = three_fields original modified current @
     filter (\<lambda>e. map_of modified (fst e) = None \<and> map_of original (fst e) = None) current"
| "three_fields original [] current = []"
| "three_fields original ((k, v) # modified) current =
     (k, three_value (map_of original k) v (map_of current k)) # three_fields original modified current"
| "three_value ov (JObj m) cv = JObj (three_way (object ov) m (object cv))"
| "three_value ov v cv = v"
  by pat_completeness auto
termination
  by (relation "measure (\<lambda>x. case x of
        Inl (a, b, c) \<Rightarrow> Suc (2 * fsize b)
      | Inr (Inl (a, b, c)) \<Rightarrow> 2 * fsize b
      | Inr (Inr (a, v, c)) \<Rightarrow> 2 * size v)") auto

declare three_way.simps [simp del]

lemma map_of_three_way: "map_of (three_way o' m c) k = (case map_of m k of
     Some v \<Rightarrow> Some (three_value (map_of o' k) v (map_of c k))
   | None \<Rightarrow> if map_of o' k = None then map_of c k else None)"
proof -
  have fields: "map_of (three_fields o' m c) k =
      map_option (\<lambda>v. three_value (map_of o' k) v (map_of c k)) (map_of m k)"
    by (induction m) auto
  have "map_of (filter (\<lambda>e. P (fst e)) c) k = (if P k then map_of c k else None)" for P
    by (induction c) auto
  from this [of "\<lambda>l. map_of m l = None \<and> map_of o' l = None"] fields show ?thesis
    by (auto simp: three_way.simps map_add_def split: option.splits)
qed

text \<open>Equal at a path, up to what \<open>matchesValue\<close> lets pass.\<close>

definition same_at :: "string list \<Rightarrow> json \<Rightarrow> json \<Rightarrow> bool" where
  "same_at p v w \<longleftrightarrow> rel_option matchesValue (leaf p v) (leaf p w)"

lemma matches_refl:
  "keys_ok v \<Longrightarrow> matchesValue v v"
  "fields_ok d \<Longrightarrow> \<forall>b. (\<forall>e \<in> set d. map_of b (fst e) = Some (snd e)) \<longrightarrow> matches_fields d b"
  "items_ok xs \<Longrightarrow> matchesArray xs xs"
  by (induction v and d and xs rule: keys_ok_fields_ok_items_ok.induct)
    (auto simp: list_all_iff map_of_eq_None_iff image_iff)

lemma leaf_ok: "keys_ok v \<Longrightarrow> leaf p v = Some w \<Longrightarrow> keys_ok w"
proof (induction p arbitrary: v)
  case Nil
  then show ?case by (cases v) auto
next
  case (Cons k p)
  then show ?case by (cases v) (auto split: option.splits dest: fields_okD)
qed

lemma same_at_refl: "keys_ok v \<Longrightarrow> same_at p v v"
  using leaf_ok [of v p] matches_refl(1) by (cases "leaf p v") (auto simp: same_at_def)

lemma same_at_object: "same_at [] (JObj d) (JObj e)"
  by (simp add: same_at_def)

lemma same_at_field: "same_at (k # p) (JObj d) (JObj e) \<longleftrightarrow>
    (case (map_of d k, map_of e k) of
       (Some v, Some w) \<Rightarrow> same_at p v w
     | (Some v, None) \<Rightarrow> leaf p v = None
     | (None, Some w) \<Rightarrow> leaf p w = None
     | (None, None) \<Rightarrow> True)"
  by (auto simp: same_at_def split: option.split)

lemma same_at_matches: "matchesValue v w \<Longrightarrow> \<nexists>b. w = JObj b \<Longrightarrow> same_at p v w"
  by (cases p; cases v; cases w) (auto simp: same_at_def)

section \<open>The merge does what it is for\<close>

lemma distinct_both:
  "keys_ok (JObj o') \<Longrightarrow> keys_ok (JObj m) \<Longrightarrow> distinct (List.map fst (both o' m c))"
  by (intro distinct_mergeDocs distinct_patches)

lemma merged_object:
  assumes "keys_ok (JObj o')" and "keys_ok (JObj m)" and "keys_ok (JObj c)" and "null_free (JObj m)"
    and "map_of m k = Some (JObj b)"
  shows "map_of (mergeDocs c (both o' m c)) k =
    Some (JObj (mergeDocs (object (map_of c k)) (both (object (map_of o' k)) b (object (map_of c k)))))"
proof -
  note R = map_of_mergeDocs [OF distinct_both [OF assms(1,2)], of c c k, unfolded both_field [OF assms(1-4)]]
  from keys_ok_field [OF assms(2,5)] null_free_field [OF assms(4,5)]
  have b: "keys_ok (JObj b)" "null_free_fields b" by simp_all
  show ?thesis
  proof (cases "\<exists>a. map_of c k = Some (JObj a)")
    case True
    then obtain a where "map_of c k = Some (JObj a)" ..
    with assms(5) show ?thesis by (auto simp: R wrapped_def merged_field_def)
  next
    case False
    then have c: "object (map_of c k) = []" by (auto simp: object_def split: option.split json.split)
    have "merged_field (map_of c k) (JObj d) = JObj (pruneDocNulls d)" for d
      using False by (cases "map_of c k"; cases "the (map_of c k)") (auto simp: merged_field_def)
    moreover have "pruneDocNulls (mergeDocs (deletions (object (map_of o' k)) b) b) =
        mergeDocs [] (mergeDocs (deletions (object (map_of o' k)) b) b)"
      using distinct_patches [OF keys_ok_object [OF assms(1), of k] b(1), of True]
      by (intro mergeDocs_Nil [symmetric] distinct_mergeDocs)
    moreover have "(case map_of c k of Some (JObj a) \<Rightarrow> f a | _ \<Rightarrow> x) = x" for f and x :: "json option"
      using False by (auto split: option.split json.split)
    ultimately show ?thesis
      using assms(5) b(2) by (simp add: R c changes_Nil)
  qed
qed

lemma merged_value:
  assumes "keys_ok (JObj o')" and "keys_ok (JObj m)" and "keys_ok (JObj c)" and "null_free (JObj m)"
    and "map_of m k = Some v" and "\<nexists>b. v = JObj b"
  obtains w where "map_of (mergeDocs c (both o' m c)) k = Some w" and "matchesValue w v"
proof -
  note R = map_of_mergeDocs [OF distinct_both [OF assms(1,2)], of c c k, unfolded both_field [OF assms(1-4)]]
  have v: "keys_ok v" "null_free v"
    using keys_ok_field [OF assms(2,5)] null_free_field [OF assms(4,5)] by simp_all
  then have "merged_field (map_of c k) v = v"
    using assms(6) by (cases "map_of c k"; cases "the (map_of c k)"; cases v)
      (auto simp: merged_field_def prune_null_free)
  moreover have "v \<noteq> JNull" using v by auto
  ultimately have "map_of (mergeDocs c (both o' m c)) k =
      (case map_of c k of Some w \<Rightarrow> Some (if matchesValue w v then w else v) | None \<Rightarrow> Some v)"
    using assms(5,6) by (cases v) (auto simp: R split: option.split)
  then show thesis using that matches_refl(1) [OF v(1)] by (cases "map_of c k") (auto split: if_splits)
qed

lemma merged_rest:
  assumes "keys_ok (JObj o')" and "keys_ok (JObj m)" and "keys_ok (JObj c)" and "null_free (JObj m)"
    and "map_of m k = None"
  shows "map_of (mergeDocs c (both o' m c)) k = (if map_of o' k = None then map_of c k else None)"
  using assms(5) by (cases "map_of o' k")
    (simp_all add: map_of_mergeDocs [OF distinct_both [OF assms(1,2)]] both_field [OF assms(1-4)])

lemma merge_three_way:
  "keys_ok (JObj o') \<Longrightarrow> keys_ok (JObj m) \<Longrightarrow> keys_ok (JObj c) \<Longrightarrow> null_free (JObj m) \<Longrightarrow>
   same_at p (JObj (mergeDocs c (both o' m c))) (JObj (three_way o' m c))"
proof (induction p arbitrary: o' m c)
  case Nil
  show ?case by (rule same_at_object)
next
  case (Cons k p)
  note ok = Cons.prems
  show ?case
  proof (cases "map_of m k")
    case None
    with merged_rest [OF ok None] keys_ok_field [OF ok(3)] show ?thesis
      by (auto simp: same_at_field map_of_three_way same_at_refl split: option.split)
  next
    case (Some v)
    show ?thesis
    proof (cases "\<exists>b. v = JObj b")
      case True
      then obtain b where b: "map_of m k = Some (JObj b)" using Some by auto
      have "same_at p (JObj (mergeDocs (object (map_of c k)) (both (object (map_of o' k)) b (object (map_of c k)))))
          (JObj (three_way (object (map_of o' k)) b (object (map_of c k))))"
        by (rule Cons.IH [OF keys_ok_object [OF ok(1)] keys_ok_field [OF ok(2) b] keys_ok_object [OF ok(3)]
            null_free_field [OF ok(4) b]])
      with b merged_object [OF ok b] show ?thesis by (simp add: same_at_field map_of_three_way)
    next
      case False
      then have "three_value (map_of o' k) v (map_of c k) = v" by (cases v) auto
      moreover obtain w where "map_of (mergeDocs c (both o' m c)) k = Some w" "same_at p w v"
        using merged_value [OF ok Some False] same_at_matches False by metis
      ultimately show ?thesis using Some by (simp add: same_at_field map_of_three_way)
    qed
  qed
qed

section \<open>Nothing to change\<close>

text \<open>The object says what the manifest says, and the earlier manifest said nothing else.\<close>

definition up_to_date :: "obj \<Rightarrow> obj \<Rightarrow> obj \<Rightarrow> bool" where
  "up_to_date original modified current \<longleftrightarrow>
     (\<forall>p v. leaf p (JObj modified) = Some v \<longrightarrow> (\<exists>w. leaf p (JObj current) = Some w \<and> matchesValue w v)) \<and>
     (\<forall>p. leaf p (JObj original) \<noteq> None \<longrightarrow> leaf p (JObj modified) \<noteq> None)"

lemma no_fields: "(\<And>k. map_of d k = None) \<Longrightarrow> d = []"
  by (cases d) (force split: if_splits)+

lemma no_changes:
  "keys_ok (JObj c) \<Longrightarrow> keys_ok (JObj m) \<Longrightarrow> null_free (JObj m) \<Longrightarrow>
   \<forall>p v. leaf p (JObj m) = Some v \<longrightarrow> (\<exists>w. leaf p (JObj c) = Some w \<and> matchesValue w v) \<Longrightarrow> changes c m = []"
proof (induction m arbitrary: c rule: measure_induct_rule [of fsize])
  case (less m)
  have "map_of (changes c m) k = None" for k
  proof (cases "map_of m k")
    case (Some v)
    have at: "\<exists>w. leaf p u = Some w \<and> matchesValue w x"
      if "map_of c k = Some u" "leaf p v = Some x" for p u x
      using less.prems(4) [rule_format, of "k # p" x] Some that by simp
    have "\<exists>x. leaf [] v = Some x" by (cases v) simp_all
    then obtain u where u: "map_of c k = Some u"
      using less.prems(4) [rule_format, of "[k]"] Some by (cases "map_of c k") auto
    show ?thesis
    proof (cases "\<exists>b. v = JObj b")
      case True
      then obtain b where b: "v = JObj b" ..
      with at [OF u, of "[]"] obtain a where a: "u = JObj a" by (cases u) auto
      have "changes a b = []"
        using less.IH [of b a] object_smaller Some b a u at [OF u] keys_ok_field [OF less.prems(1) u]
          keys_ok_field [OF less.prems(2) Some] null_free_field [OF less.prems(3) Some] by simp
      with Some u a b show ?thesis by (simp add: changes_field [OF less.prems(1-3)])
    next
      case False
      then have "leaf [] v = Some v" by (cases v) simp_all
      with at [OF u] have "\<exists>w. leaf [] u = Some w \<and> matchesValue w v" by blast
      with False have "matchesValue u v" by (cases u; cases v) auto
      with Some u False show ?thesis by (cases v) (simp_all add: changes_field [OF less.prems(1-3)])
    qed
  qed (simp add: changes_field [OF less.prems(1-3)])
  then show ?case by (rule no_fields)
qed

lemma no_deletions:
  "keys_ok (JObj o') \<Longrightarrow> keys_ok (JObj m) \<Longrightarrow> null_free (JObj m) \<Longrightarrow>
   \<forall>p. leaf p (JObj o') \<noteq> None \<longrightarrow> leaf p (JObj m) \<noteq> None \<Longrightarrow> deletions o' m = []"
proof (induction m arbitrary: o' rule: measure_induct_rule [of fsize])
  case (less m)
  have "map_of (deletions o' m) k = None" for k
  proof (cases "map_of m k")
    case None
    have "leaf [] v \<noteq> None" for v by (cases v) simp_all
    with less.prems(4) [rule_format, of "[k]"] None have "map_of o' k = None" by (cases "map_of o' k") auto
    with None show ?thesis by (simp add: deletions_field [OF less.prems(1-3)])
  next
    case (Some v)
    show ?thesis
    proof (cases "\<exists>b. v = JObj b")
      case True
      then obtain b where b: "map_of m k = Some (JObj b)" using Some by auto
      have "deletions (object (map_of o' k)) b = []"
      proof (cases "\<exists>a. map_of o' k = Some (JObj a)")
        case True
        then obtain a where a: "map_of o' k = Some (JObj a)" ..
        have "leaf p (JObj a) \<noteq> None \<longrightarrow> leaf p (JObj b) \<noteq> None" for p
          using less.prems(4) [rule_format, of "k # p"] a b by simp
        with less.IH [OF object_smaller [OF b] keys_ok_field [OF less.prems(1) a]
            keys_ok_field [OF less.prems(2) b] null_free_field [OF less.prems(3) b]] a
        show ?thesis by simp
      next
        case False
        then have "object (map_of o' k) = []" by (auto simp: object_def split: option.split json.split)
        with null_free_field [OF less.prems(3) b] show ?thesis by (simp add: deletions_Nil)
      qed
      with b show ?thesis by (simp add: deletions_field [OF less.prems(1-3)])
    qed (use Some in \<open>cases v; simp add: deletions_field [OF less.prems(1-3)]\<close>)
  qed
  then show ?case by (rule no_fields)
qed

lemma CreateThreeWay_up_to_date:
  assumes "keys_ok (JObj o')" and "keys_ok (JObj m)" and "keys_ok (JObj c)" and "null_free (JObj m)"
    and "up_to_date o' m c"
  shows "CreateThreeWayJSONMergePatch o' m c = Inr []"
  using no_changes [OF assms(3,2,4)] no_deletions [OF assms(1,2,4)] assms(5)
  by (simp add: CreateThreeWay_ok [OF assms(1-4)] up_to_date_def)

end
