(* ===== verification/ApplyFacts.thy ===== *)
theory ApplyFacts imports ManifestRuns MergeFacts begin

text \<open>
  What \<open>Apply\<close> does to an object that is in the cluster already, for the kinds client-go does not know: the
  custom resources of Tekton and their definitions.
\<close>

section \<open>One object\<close>

definition unknown_kind :: "'w client \<Rightarrow> obj \<Rightarrow> bool" where
  "unknown_kind C spec \<longleftrightarrow> \<not> is_ok (New_type (known_types C) (GroupVersionKind spec))"

text \<open>
  \<open>original\<close> is the earlier manifest of the object \<open>live\<close>, and all three are objects as the
  parsers make them, the manifest one without null.
\<close>

definition mergeable :: "'w client \<Rightarrow> obj \<Rightarrow> obj \<Rightarrow> obj \<Rightarrow> bool" where
  "mergeable C original spec live \<longleftrightarrow> unknown_kind C spec \<and>
     read_original C (getLastAppliedConfig live) = Inr original \<and>
     keys_ok (JObj original) \<and> keys_ok (JObj spec) \<and> keys_ok (JObj live) \<and> null_free (JObj spec)"

lemma patch_New_json:
  assumes "mergeable C original spec live"
  shows "patch_New C live spec =
    Inr (if both original spec live = [] then None else Some (JSONMergePatch (both original spec live)))"
proof -
  from assms have "CreateThreeWayJSONMergePatch original spec live = Inr (both original spec live)"
    by (intro CreateThreeWay_ok) (simp_all add: mergeable_def)
  with assms show ?thesis
    by (auto simp: patch_New_def createJsonMergePatch_def mergeable_def unknown_kind_def split: res.split)
qed

text \<open>The kind of an object is that of its manifest.\<close>

lemma header_leaf:
  "GetKind u = (case leaf [''kind''] (JObj u) of Some (JStr x) \<Rightarrow> x | _ \<Rightarrow> [])"
  "GetAPIVersion u = (case leaf [''apiVersion''] (JObj u) of Some (JStr x) \<Rightarrow> x | _ \<Rightarrow> [])"
  by (auto simp: getter_defs getNestedString_def NestedString_def NestedFieldNoCopy_def
      split: option.split json.split)

lemma three_way_text: "leaf [k] (JObj m) = Some (JStr x) \<Longrightarrow> leaf [k] (JObj (three_way o' m c)) = Some (JStr x)"
proof -
  assume m: "leaf [k] (JObj m) = Some (JStr x)"
  then obtain v where "map_of m k = Some v" "leaf [] v = Some (JStr x)" by (auto split: option.splits)
  moreover from this(2) have "v = JStr x" by (cases v) simp_all
  ultimately show ?thesis by (simp add: map_of_three_way)
qed

lemma matches_text: "matchesValue v (JStr x) \<longleftrightarrow> v = JStr x"
  by (cases v) auto

lemma merged_header:
  assumes "\<And>p. same_at p (JObj merged) (JObj (three_way o' spec c))"
    and "GetAPIVersion spec \<noteq> []" and "GetKind spec \<noteq> []"
  shows "GetAPIVersion merged = GetAPIVersion spec" and "GetKind merged = GetKind spec"
proof -
  have header: "leaf [k] (JObj merged) = Some (JStr x)" if "leaf [k] (JObj spec) = Some (JStr x)" for k x
    using assms(1) [of "[k]"] three_way_text [OF that, of o' c]
    by (auto simp: same_at_def option_rel_Some2 matches_text simp del: leaf.simps)
  from assms(2,3) show "GetAPIVersion merged = GetAPIVersion spec" "GetKind merged = GetKind spec"
    by (auto simp: header_leaf header simp del: leaf.simps split: option.splits json.splits)
qed

lemma kind_parsed: "snd (snd (GroupVersionKind u)) \<noteq> [] \<Longrightarrow> GetKind u \<noteq> []"
  by (auto simp: GroupVersionKind_def WithKind_def split: sum.splits)

text \<open>An object that has everything already.\<close>

lemma apply_one_up_to_date:
  assumes "get_obj C u (world s) = (Inr live, w)" and "mergeable C original u live" and "up_to_date original u live"
  shows "apply_one C u s = (Ok (u, None), s\<lparr>world := w, trace := trace s @ [GetObj u None]\<rparr>)"
proof -
  have "both original u live = []"
    using assms(2,3) CreateThreeWay_up_to_date [of original u live] CreateThreeWay_ok [of original u live]
    by (simp add: mergeable_def)
  with assms(1) show ?thesis
    by (simp add: apply_one_def mf_get_def go_catch_eq_cases call_def go_return_def patch_New_json [OF assms(2)])
qed

lemma apply_loop_up_to_date:
  assumes "\<And>u w. u \<in> set us \<Longrightarrow>
      \<exists>original live w'. get_obj C u w = (Inr live, w') \<and> mergeable C original u live \<and> up_to_date original u live"
  shows "\<exists>w. apply_loop C us s = (Ok (us, None), s\<lparr>world := w, trace := trace s @ List.map (\<lambda>u. GetObj u None) us\<rparr>)"
  using assms
proof (induction us arbitrary: s)
  case Nil
  show ?case by (intro exI [of _ "world s"]) (simp add: go_return_def)
next
  case (Cons u us)
  from Cons.prems [of u "world s"] obtain original live w' where "get_obj C u (world s) = (Inr live, w')"
      "mergeable C original u live" "up_to_date original u live" by auto
  note first = apply_one_up_to_date [OF this]
  let ?t = "s\<lparr>world := w', trace := trace s @ [GetObj u None]\<rparr>"
  obtain w where "apply_loop C us ?t = (Ok (us, None),
      ?t\<lparr>world := w, trace := trace ?t @ List.map (\<lambda>u. GetObj u None) us\<rparr>)"
    using Cons.IH [of ?t] Cons.prems by auto
  with first show ?case by (intro exI [of _ w]) (simp add: go_bind_eq_cases go_return_def)
qed

section \<open>Properties\<close>



section \<open>Witnesses\<close>

text \<open>
  A task whose image was changed in the cluster, where somebody has also put a label, and whose earlier
  manifest had a description.
\<close>

definition sample_spec :: obj where
  "sample_spec = [(''apiVersion'', JStr ''tekton.dev/v1alpha1''), (''kind'', JStr ''Task''),
     (''metadata'', JObj [(''name'', JStr ''t'')]), (''spec'', JObj [(''image'', JStr ''new'')])]"

definition sample_original :: obj where
  "sample_original = [(''kind'', JStr ''Task''), (''spec'', JObj [(''description'', JStr ''d''), (''image'', JStr ''old'')])]"

definition sample_live :: obj where
  "sample_live = [(''apiVersion'', JStr ''tekton.dev/v1alpha1''), (''kind'', JStr ''Task''),
     (''metadata'', JObj [(''labels'', JObj [(''mine'', JStr ''yes'')]), (''name'', JStr ''t''),
       (''annotations'', JObj [(LastAppliedConfigAnnotation, JStr ''{...}'')])]),
     (''spec'', JObj [(''image'', JStr ''hacked''), (''description'', JStr ''d'')])]"

definition sample_drift :: "store client" where
  "sample_drift = sample_client\<lparr>get_obj := (\<lambda>u w. (Inr sample_live, w)), unmarshal := (\<lambda>text. Inr sample_original)\<rparr>"



end
