(* ===== verification/TransformFacts.thy ===== *)
theory TransformFacts imports Samples begin

text \<open>
  What the transformers do to one object: which fields they set, what they leave alone, when they
  panic, and that applying them again changes nothing.  The manifests in memory are transformed anew
  by every reconciliation of a stage, starting from the result of the last one.
\<close>

section \<open>Owners\<close>

lemma getters_owner [simp]:
  "GetKind (SetOwnerReferences rs u) = GetKind u" "GetNamespace (SetOwnerReferences rs u) = GetNamespace u"
  "GetName (SetOwnerReferences rs u) = GetName u" "GetLabels (SetOwnerReferences rs u) = GetLabels u"
  "GetAnnotations (SetOwnerReferences rs u) = GetAnnotations u"
  "meta_ok (SetOwnerReferences rs u) = meta_ok u"
  by (auto simp: SetOwnerReferences_def SetNestedField_def NestedFieldNoCopy_put_diverge
      intro!: getters_cong)

lemma owner_field:
  "meta_ok u \<Longrightarrow> NestedFieldNoCopy (SetOwnerReferences rs u) [''metadata'', ''ownerReferences''] = Ok (Some (JList rs))"
  by (simp add: SetOwnerReferences_def SetNestedField_def NestedFieldNoCopy_put settable_metadata)

lemma subjects_owner [simp]:
  "NestedFieldNoCopy (SetOwnerReferences rs u) [''subjects''] = NestedFieldNoCopy u [''subjects'']"
  "NestedFieldNoCopy (SetNamespace ns u) [''subjects''] = NestedFieldNoCopy u [''subjects'']"
  by (simp_all add: SetOwnerReferences_def setter_defs NestedFieldNoCopy_put_diverge
      NestedFieldNoCopy_remove_diverge)

lemma owners_setters [simp]:
  "NestedFieldNoCopy (SetNamespace ns u) [''metadata'', ''ownerReferences''] =
   NestedFieldNoCopy u [''metadata'', ''ownerReferences'']"
  by (simp add: setter_defs NestedFieldNoCopy_put_diverge NestedFieldNoCopy_remove_diverge)

section \<open>Retargeting subjects\<close>

lemma retarget_idem: "retarget ns v = Ok v' \<Longrightarrow> retarget ns v' = Ok v'"
  by (cases "(ns, v)" rule: retarget.cases) (auto simp: update_twice)

lemma retarget_mapM_idem: "res_mapM (retarget ns) vs = Ok vs' \<Longrightarrow> res_mapM (retarget ns) vs' = Ok vs'"
  unfolding res_mapM_Ok_iff
  by (induction rule: list_all2_induct) (auto simp: retarget_idem)

lemma retarget_list_idem: "retarget_list ns v = Ok v' \<Longrightarrow> retarget_list ns v' = Ok v'"
  by (cases "(ns, v)" rule: retarget_list.cases)
    (auto simp: res_map_eq_Ok retarget_mapM_idem)

text \<open>The namespaces of the subjects after the loop.\<close>

fun subject_namespace :: "json \<Rightarrow> json option" where
  "subject_namespace (JObj m) = map_of m ''namespace''"
| "subject_namespace v = None"

lemma retarget_namespace:
  "retarget ns v = Ok v' \<Longrightarrow>
   subject_namespace v' = map_option (\<lambda>old. JStr ns) (subject_namespace v)"
  by (cases "(ns, v)" rule: retarget.cases) auto

section \<open>The transformers of a role binding\<close>

lemma InjectOwner_run:
  "mf_InjectOwner ow u = Ok u' \<Longrightarrow>
   GetKind u' = GetKind u \<and> GetName u' = GetName u \<and> GetNamespace u' = GetNamespace u \<and>
   GetLabels u' = GetLabels u \<and> GetAnnotations u' = GetAnnotations u \<and> meta_ok u' = meta_ok u \<and>
   NestedFieldNoCopy u' [''subjects''] = NestedFieldNoCopy u [''subjects'']"
  by (auto simp: mf_InjectOwner_def split: if_splits)

lemma RoleBindingSubjects_run:
  assumes "InjectNamespaceRoleBindingSubjects ns u = Ok u'"
  shows "GetKind u' = GetKind u \<and> GetName u' = GetName u \<and> GetNamespace u' = GetNamespace u \<and>
    GetAnnotations u' = GetAnnotations u \<and> meta_ok u' = meta_ok u \<and>
    NestedFieldNoCopy u' [''metadata'', ''ownerReferences''] =
      NestedFieldNoCopy u [''metadata'', ''ownerReferences'']"
  using assms
  by (auto simp: InjectNamespaceRoleBindingSubjects_def res_bind_eq_Ok res_map_eq_Ok
      split: if_splits option.splits)

interpretation rb: stable_observation "rb_transformers cfg" "\<lambda>u. (GetKind u, GetName u, meta_ok u)" for cfg
  by unfold_locales
    (auto simp: rb_transformers_def InjectNamespaceRoleBindingConditional_def Let_def mf_InjectOwner_def
       dest!: RoleBindingSubjects_run split: if_splits)

lemma RoleBindingSubjects_idem:
  assumes "InjectNamespaceRoleBindingSubjects ns u = Ok u'"
  shows "InjectNamespaceRoleBindingSubjects ns u' = Ok u'"
proof (cases "ToLower (GetKind u) = ''rolebinding''")
  case False
  with assms show ?thesis by (simp add: InjectNamespaceRoleBindingSubjects_def)
next
  case True
  show ?thesis
  proof (cases "NestedFieldNoCopy u [''subjects'']")
    case (Ok found)
    show ?thesis
    proof (cases found)
      case None
      with Ok True assms show ?thesis by (simp add: InjectNamespaceRoleBindingSubjects_def)
    next
      case (Some subjects)
      with Ok True assms obtain v where v: "retarget_list ns subjects = Ok v"
        and u': "u' = update_at u [''subjects''] (\<lambda>old. v)"
        by (auto simp: InjectNamespaceRoleBindingSubjects_def res_map_eq_Ok)
      from u' Ok Some have "NestedFieldNoCopy u' [''subjects''] = Ok (Some v)"
        using NestedFieldNoCopy_update_at by fastforce
      with True u' retarget_list_idem [OF v] show ?thesis
        by (simp add: InjectNamespaceRoleBindingSubjects_def update_at_same)
    qed
  qed (use True assms in \<open>simp_all add: InjectNamespaceRoleBindingSubjects_def\<close>)
qed

lemma res_bind_fold_Nil [simp]: "res_bind r (res_fold f []) = r"
  by (cases r) simp_all

text \<open>The two steps of \<open>rb_transformers\<close> on a role binding, with the value every field ends up with.\<close>

lemma rb_fold:
  "res_fold (\<lambda>transform u. transform u) (rb_transformers cfg) u =
     InjectNamespaceRoleBindingConditional AnnotationPreserveNS AnnotationPreserveRBSubjectNS
       (Cfg_TargetNamespace cfg)
       (if isClusterScoped (GetKind u) then u
        else SetOwnerReferences [NewControllerRef (Cfg_owner cfg)] u)"
  by (simp add: rb_transformers_def mf_InjectOwner_def)

definition preserves_namespace :: "obj \<Rightarrow> bool" where
  "preserves_namespace u = (lookup_nil (GetAnnotations u) AnnotationPreserveNS = Some ''true'')"

definition preserves_subjects :: "obj \<Rightarrow> bool" where
  "preserves_subjects u = (lookup_nil (GetAnnotations u) AnnotationPreserveRBSubjectNS = Some ''true'')"

lemma RoleBinding_names:
  "GetKind u = ''RoleBinding'' \<Longrightarrow> \<not> isClusterScoped (GetKind u) \<and> ToLower (GetKind u) = ''rolebinding''"
  by (simp add: isClusterScoped_def cluster_scoped_kinds_def) code_simp

lemma rb_fold_run:
  assumes "res_fold (\<lambda>transform u. transform u) (rb_transformers cfg) u = Ok u'"
    and "GetKind u = ''RoleBinding''" and "meta_ok u" and "Cfg_TargetNamespace cfg \<noteq> []"
  obtains v where
    "v = (if preserves_namespace u then SetOwnerReferences [NewControllerRef (Cfg_owner cfg)] u
          else SetNamespace (Cfg_TargetNamespace cfg) (SetOwnerReferences [NewControllerRef (Cfg_owner cfg)] u))"
    and "if preserves_subjects u then u' = v
         else InjectNamespaceRoleBindingSubjects (Cfg_TargetNamespace cfg) v = Ok u'"
    and "NestedFieldNoCopy v [''metadata'', ''ownerReferences''] =
           Ok (Some (JList [NewControllerRef (Cfg_owner cfg)]))"
    and "NestedFieldNoCopy v [''subjects''] = NestedFieldNoCopy u [''subjects'']"
    and "GetNamespace v = (if preserves_namespace u then GetNamespace u else Cfg_TargetNamespace cfg)"
    and "GetKind v = ''RoleBinding''" and "GetName v = GetName u" and "meta_ok v"
    and "GetAnnotations v = GetAnnotations u"
proof (rule that [OF HOL.refl])
  let ?o = "SetOwnerReferences [NewControllerRef (Cfg_owner cfg)] u"
  let ?v = "if preserves_namespace u then ?o else SetNamespace (Cfg_TargetNamespace cfg) ?o"
  show "if preserves_subjects u then u' = ?v
        else InjectNamespaceRoleBindingSubjects (Cfg_TargetNamespace cfg) ?v = Ok u'"
    using assms(1,2) RoleBinding_names [OF assms(2)]
    by (simp add: rb_fold InjectNamespaceRoleBindingConditional_def Let_def preserves_namespace_def
        preserves_subjects_def split: if_splits)
  show "NestedFieldNoCopy ?v [''metadata'', ''ownerReferences''] =
      Ok (Some (JList [NewControllerRef (Cfg_owner cfg)]))"
    using assms(3) by (simp add: owner_field)
  show "GetNamespace ?v = (if preserves_namespace u then GetNamespace u else Cfg_TargetNamespace cfg)"
    using assms(3,4) by (simp add: ns.get_set)
qed (use assms(2,3) in auto)

section \<open>Properties of role bindings\<close>

text \<open>C22:
  A transformed RoleBinding keeps its kind and name, is owned by the Config, and is in the target
  namespace unless it is annotated to stay; so are its subjects that name a namespace, unless the
  subjects are annotated to stay.  Subjects without a namespace are left alone.
\<close>

theorem role_binding_transformed:
  assumes "res_fold (\<lambda>transform u. transform u) (rb_transformers cfg) u = Ok u'"
    and "GetKind u = ''RoleBinding''" and "meta_ok u" and "Cfg_TargetNamespace cfg \<noteq> []"
    and "NestedFieldNoCopy u [''subjects''] = Ok (Some (JList subjects))"
  shows "GetKind u' = ''RoleBinding'' \<and> GetName u' = GetName u \<and>
     NestedFieldNoCopy u' [''metadata'', ''ownerReferences''] =
       Ok (Some (JList [NewControllerRef (Cfg_owner cfg)])) \<and>
     GetNamespace u' = (if preserves_namespace u then GetNamespace u else Cfg_TargetNamespace cfg) \<and>
     (\<exists>subjects'. NestedFieldNoCopy u' [''subjects''] = Ok (Some (JList subjects')) \<and>
        List.map subject_namespace subjects' =
          List.map (\<lambda>v. if preserves_subjects u then subject_namespace v
             else map_option (\<lambda>old. JStr (Cfg_TargetNamespace cfg)) (subject_namespace v)) subjects)"
proof -
  let ?ns = "Cfg_TargetNamespace cfg"
  from rb_fold_run [OF assms(1-4)] obtain v where v:
    "if preserves_subjects u then u' = v else InjectNamespaceRoleBindingSubjects ?ns v = Ok u'"
    "NestedFieldNoCopy v [''metadata'', ''ownerReferences''] = Ok (Some (JList [NewControllerRef (Cfg_owner cfg)]))"
    "NestedFieldNoCopy v [''subjects''] = Ok (Some (JList subjects))"
    "GetNamespace v = (if preserves_namespace u then GetNamespace u else ?ns)"
    "GetKind v = ''RoleBinding''" "GetName v = GetName u"
    using assms(5) by metis
  show ?thesis
  proof (cases "preserves_subjects u")
    case True
    with v show ?thesis by simp
  next
    case False
    with v(1) have run: "InjectNamespaceRoleBindingSubjects ?ns v = Ok u'" by simp
    with v(3) RoleBinding_names [OF v(5)] obtain ss where ss: "res_mapM (retarget ?ns) subjects = Ok ss"
      and u': "u' = update_at v [''subjects''] (\<lambda>old. JList ss)"
      by (auto simp: InjectNamespaceRoleBindingSubjects_def res_map_eq_Ok)
    from ss have "List.map subject_namespace ss =
        List.map (\<lambda>v. map_option (\<lambda>old. JStr ?ns) (subject_namespace v)) subjects"
      unfolding res_mapM_Ok_iff by (induction rule: list_all2_induct) (auto simp: retarget_namespace)
    moreover from u' v(3) have "NestedFieldNoCopy u' [''subjects''] = Ok (Some (JList ss))"
      using NestedFieldNoCopy_update_at by fastforce
    ultimately show ?thesis
      using False v RoleBindingSubjects_run [OF run] by simp
  qed
qed

text \<open>
  Transforming a RoleBinding again changes nothing, so the reconciliations that follow send the same
  object.
\<close>

theorem role_binding_idempotent:
  assumes "res_fold (\<lambda>transform u. transform u) (rb_transformers cfg) u = Ok u'"
    and "GetKind u = ''RoleBinding''" and "meta_ok u" and "Cfg_TargetNamespace cfg \<noteq> []"
  shows "res_fold (\<lambda>transform u. transform u) (rb_transformers cfg) u' = Ok u'"
proof -
  let ?ns = "Cfg_TargetNamespace cfg" and ?refs = "[NewControllerRef (Cfg_owner cfg)]"
  from rb_fold_run [OF assms] obtain v where v:
    "v = (if preserves_namespace u then SetOwnerReferences ?refs u
          else SetNamespace ?ns (SetOwnerReferences ?refs u))"
    "if preserves_subjects u then u' = v else InjectNamespaceRoleBindingSubjects ?ns v = Ok u'"
    "NestedFieldNoCopy v [''metadata'', ''ownerReferences''] = Ok (Some (JList ?refs))"
    "GetKind v = ''RoleBinding''" "GetAnnotations v = GetAnnotations u"
    by metis
  have namespace: "NestedFieldNoCopy v [''metadata'', ''namespace''] = Ok (Some (JStr ?ns))"
    if "\<not> preserves_namespace u"
    using that v(1) assms(3,4)
    by (simp add: setter_defs NestedFieldNoCopy_put settable_metadata)
  have fields: "NestedFieldNoCopy u' [''metadata'', x] = NestedFieldNoCopy v [''metadata'', x]" for x
    using v(2) by (auto simp: InjectNamespaceRoleBindingSubjects_def res_bind_eq_Ok res_map_eq_Ok
        split: if_splits option.splits)
  have kind: "GetKind u' = ''RoleBinding''" "GetAnnotations u' = GetAnnotations u"
    using v(2,4,5) RoleBindingSubjects_run [of ?ns v u'] by (auto split: if_splits)
  have owner: "SetOwnerReferences ?refs u' = u'"
    using v(3) by (simp add: SetOwnerReferences_def SetNestedField_def put_same fields)
  moreover have "SetNamespace ?ns u' = u'" if "\<not> preserves_namespace u"
    using namespace [OF that] assms(4) by (simp add: setter_defs put_same fields)
  moreover have "InjectNamespaceRoleBindingSubjects ?ns u' = Ok u'" if "\<not> preserves_subjects u"
    using v(2) that RoleBindingSubjects_idem by simp
  ultimately show ?thesis
    using kind RoleBinding_names [OF kind(1)]
    by (auto simp: rb_fold InjectNamespaceRoleBindingConditional_def Let_def preserves_namespace_def
        preserves_subjects_def)
qed

section \<open>Properties of the other transformers\<close>

text \<open>
  \<open>InjectNamespaceConditional\<close> moves an object to the target namespace and keeps its kind: an object that
  is annotated to stay is not touched, the namespace of a cluster-scoped object is not set, and a
  Namespace object itself is renamed.
\<close>

theorem InjectNamespaceConditional_target:
  assumes "InjectNamespaceConditional environ AnnotationPreserveNS ns u = Ok u'"
    and "meta_ok u" and "resolveEnv environ ns \<noteq> []"
  shows "GetKind u' = GetKind u \<and>
     (if preserves_namespace u then u' = u
      else GetNamespace u' = (if isClusterScoped (GetKind u) then GetNamespace u else resolveEnv environ ns) \<and>
           GetName u' = (if ToLower (GetKind u) = ''namespace'' then resolveEnv environ ns else GetName u))"
proof (cases "preserves_namespace u")
  case True
  with assms(1) show ?thesis by (simp add: InjectNamespaceConditional_def preserves_namespace_def)
next
  case False
  let ?ns = "resolveEnv environ ns"
  have space: "GetNamespace (SetNamespace ?ns u) = ?ns"
    using assms(2,3) by (rule ns.get_set)
  have name: "GetName (SetName ?ns v) = ?ns" if "meta_ok v" for v
    using that assms(3) by (rule nm.get_set)
  from False assms(1,2) show ?thesis
    by (auto simp: InjectNamespaceConditional_def preserves_namespace_def mf_InjectNamespace_def Let_def
        space name updateService_def res_map_eq_Ok res_bind_eq_Ok split: if_splits option.splits)
qed


text \<open>
  \<open>InjectLabel\<close> sets its label and keeps every other one: on the kinds it is told (on every kind if it is
  told none) the label gets the value, unless the policy is \<open>Retain\<close> and the object has the label
  already; the other objects are left as they are.
\<close>

theorem InjectLabel_labels:
  assumes "InjectLabel key val policy kinds u = Ok u'"
  shows "GetKind u' = GetKind u \<and> GetName u' = GetName u \<and>
     (if kinds \<noteq> [] \<and> GetKind u \<notin> set kinds then u' = u
      else (\<forall>k. lookup_nil (GetLabels u') k =
        (if k = key \<and> \<not> (policy = Retain \<and> lookup_nil (GetLabels u) key \<noteq> None) then Some val
         else lookup_nil (GetLabels u) k)))"
proof (cases "kinds \<noteq> [] \<and> GetKind u \<notin> set kinds")
  case True
  with assms show ?thesis by (auto simp: InjectLabel_def ItemInSlice_def Let_def list_ex_iff)
next
  case False
  then have kinds: "\<not> (kinds \<noteq> [] \<and> \<not> ItemInSlice (GetKind u) kinds)"
    by (auto simp: ItemInSlice_def list_ex_iff)
  with assms obtain found where found: "NestedStringMap u [''metadata'', ''labels''] = Ok found"
    by (cases "NestedStringMap u [''metadata'', ''labels'']") (auto simp: InjectLabel_def Let_def)
  then have labels: "GetLabels u = found" by (simp add: GetLabels_def)
  let ?labels = "AList.update key val (case found of Some l \<Rightarrow> l | None \<Rightarrow> [])"
  show ?thesis
  proof (cases "policy = Retain \<and> lookup_nil found key \<noteq> None")
    case True
    with assms kinds found labels False show ?thesis by (auto simp: InjectLabel_def Let_def)
  next
    case keep: False
    with assms kinds found have set: "SetNestedStringMap u ?labels [''metadata'', ''labels''] = Ok u'"
      by (auto simp: InjectLabel_def Let_def split: res.splits)
    then have "settable u [''metadata'', ''labels'']"
      using set_nested_Ok_iff unfolding SetNestedStringMap_def by blast
    then have ok: "meta_ok u" by (simp add: settable_metadata)
    from set have u': "u' = SetLabels ?labels u" by (simp add: SetLabels_def)
    have "GetLabels u' = Some ?labels" using lb.get_set [OF ok, of "Some ?labels"] u' by simp
    with u' labels keep False show ?thesis by (auto simp: lookup_nil_def split: option.splits)
  qed
qed

section \<open>The whole manifest\<close>

text \<open>
  The converter keeps what the typed structs do not name: an object that is read into a struct, whose
  fields are changed and which is written back has the kind it had.
\<close>

definition converter_keeps_kind :: "converter \<Rightarrow> bool" where
  "converter_keeps_kind conv \<longleftrightarrow>
     (\<forall>u cm d u'. cm_from conv u = Inr cm \<and> cm_to conv (cm\<lparr>cm_data := d\<rparr>) = Inr u' \<longrightarrow> GetKind u' = GetKind u) \<and>
     (\<forall>u dep cs u'. dep_from conv u = Inr dep \<and> dep_to conv (dep\<lparr>d_containers := cs\<rparr>) = Inr u' \<longrightarrow>
        GetKind u' = GetKind u)"

lemma of_sum_Ok [simp]: "of_sum x = Ok v \<longleftrightarrow> x = Inr v"
  by (cases x) auto

lemma keeps_kind:
  "mf_InjectOwner ow u = Ok u' \<Longrightarrow> GetKind u' = GetKind u"
  "InjectNamespaceConditional environ a ns u = Ok u' \<Longrightarrow> GetKind u' = GetKind u"
  "InjectNamespaceCRDWebhookClientConfig ns u = Ok u' \<Longrightarrow> GetKind u' = GetKind u"
  by (auto simp: mf_InjectOwner_def InjectNamespaceConditional_def mf_InjectNamespace_def Let_def
      InjectNamespaceCRDWebhookClientConfig_def updateService_def res_map_eq_Ok res_bind_eq_Ok
      split: if_splits option.splits)

lemma keeps_kind_converted:
  assumes "converter_keeps_kind conv"
  shows "set_configmap_entry conv name key val u = Ok u' \<Longrightarrow> GetKind u' = GetKind u"
    and "DeploymentImages conv images u = Ok u' \<Longrightarrow> GetKind u' = GetKind u"
  using assms
  by (auto simp: set_configmap_entry_def DeploymentImages_def converter_keeps_kind_def res_bind_eq_Ok
      split: if_splits option.splits)

lemma rest_stable_kind:
  assumes "converter_keeps_kind (E_conv E)"
  shows "stable_observation (rest_transformers E cfg @ [DeploymentImages (E_conv E) images]) GetKind"
  by unfold_locales
    (auto simp: rest_transformers_def InjectDefaultSA_def SetDisableAffinityAssistant_def
       dest: keeps_kind keeps_kind_converted [OF assms])

text \<open>
  \<open>transformManifest\<close> loses and invents nothing: the kinds of the transformed pipeline manifest are those
  of the manifest it started from, the role bindings moved behind everything else in their order; its
  client is the same one.
\<close>

theorem transformManifest_kinds:
  assumes "transformManifest E cfg m [DeploymentImages (E_conv E) images] = Ok m'"
    and "converter_keeps_kind (E_conv E)"
  shows "List.map GetKind (resources m') =
     filter (\<lambda>k. k \<noteq> ''RoleBinding'') (List.map GetKind (resources m)) @
     filter (\<lambda>k. k = ''RoleBinding'') (List.map GetKind (resources m)) \<and>
     has_client m' = has_client m"
proof -
  from assms(1) obtain rest rbs where
    rest: "Transform (rest_transformers E cfg @ [DeploymentImages (E_conv E) images])
             (Filter [mf_Not roleBinding] m) = Ok rest"
    and rbs: "Transform (rb_transformers cfg) (Filter [roleBinding] m) = Ok rbs"
    and m': "m' = Append rest [rbs]"
    by (auto simp: transformManifest_def Let_def res_bind_eq_Ok)
  have "List.map GetKind (resources rest) = List.map GetKind (resources (Filter [mf_Not roleBinding] m))"
    by (rule stable_observation.Transform_stable [OF rest_stable_kind [OF assms(2)] rest])
  moreover have "List.map GetKind (resources rbs) = List.map GetKind (resources (Filter [roleBinding] m))"
    using arg_cong [OF rb.Transform_stable [OF rbs], of "List.map fst"] by (simp add: o_def)
  moreover have "roleBinding = (\<lambda>u. GetKind u = ''RoleBinding'')"
    "mf_Not roleBinding = (\<lambda>u. GetKind u \<noteq> ''RoleBinding'')"
    by (auto simp: roleBinding_def mf_Any_def ByKind_def mf_Not_def)
  ultimately show ?thesis
    using m' Transform_client [OF rest] by (simp add: filter_map o_def)
qed

section \<open>Witnesses\<close>

definition sample_binding :: obj where
  "sample_binding = [(''kind'', JStr ''RoleBinding''), (''metadata'', JObj [(''name'', JStr ''b'')]),
     (''subjects'', JList [JObj [(''name'', JStr ''s''), (''namespace'', JStr ''old'')], JObj [(''name'', JStr ''g'')]])]"

text \<open>The transformed binding, computed.\<close>

definition sample_bound :: obj where
  "sample_bound = (case res_fold (\<lambda>transform u. transform u) (rb_transformers sample_config) sample_binding of
     Ok u \<Rightarrow> u | _ \<Rightarrow> [])"

lemma sample_binding_facts:
  "res_fold (\<lambda>transform u. transform u) (rb_transformers sample_config) sample_binding = Ok sample_bound"
  "GetKind sample_binding = ''RoleBinding''" "meta_ok sample_binding"
  "Cfg_TargetNamespace sample_config \<noteq> []"
  "NestedFieldNoCopy sample_binding [''subjects''] =
     Ok (Some (JList [JObj [(''name'', JStr ''s''), (''namespace'', JStr ''old'')], JObj [(''name'', JStr ''g'')]]))"
  by code_simp+

theorem role_binding_transformed_witness:
  "GetNamespace sample_bound = ''ns'' \<and>
   (\<exists>subjects. NestedFieldNoCopy sample_bound [''subjects''] = Ok (Some (JList subjects)) \<and>
      List.map subject_namespace subjects = [Some (JStr ''ns''), None])"
  using role_binding_transformed [OF sample_binding_facts]
  by (simp add: sample_config_def preserves_namespace_def preserves_subjects_def sample_binding_def
      GetAnnotations_def NestedStringMap_def NestedFieldNoCopy_def lookup_nil_def)

theorem role_binding_idempotent_witness:
  "res_fold (\<lambda>transform u. transform u) (rb_transformers sample_config) sample_bound = Ok sample_bound"
  by (rule role_binding_idempotent [OF sample_binding_facts(1-4)])

theorem InjectNamespaceConditional_target_witness:
  "\<exists>u'. InjectNamespaceConditional [] AnnotationPreserveNS ''ns'' (sample_object ''Namespace'' ''n'') = Ok u' \<and>
     GetName u' = ''ns'' \<and> GetNamespace u' = []"
proof -
  have "is_ok (InjectNamespaceConditional [] AnnotationPreserveNS ''ns'' (sample_object ''Namespace'' ''n''))"
    by code_simp
  then obtain u' where u': "InjectNamespaceConditional [] AnnotationPreserveNS ''ns'' (sample_object ''Namespace'' ''n'') = Ok u'"
    by (rule is_okE)
  have facts: "meta_ok (sample_object ''Namespace'' ''n'')" "resolveEnv [] ''ns'' \<noteq> []"
    "\<not> preserves_namespace (sample_object ''Namespace'' ''n'')"
    "isClusterScoped (GetKind (sample_object ''Namespace'' ''n''))"
    "ToLower (GetKind (sample_object ''Namespace'' ''n'')) = ''namespace''"
    "GetNamespace (sample_object ''Namespace'' ''n'') = []" "resolveEnv [] ''ns'' = ''ns''"
    by code_simp+
  from InjectNamespaceConditional_target [OF u' facts(1,2)] u' facts show ?thesis by auto
qed


theorem InjectLabel_labels_witness:
  "\<exists>u'. InjectLabel LabelProviderType ProviderTypeRedHat Overwrite [''ClusterTask''] (sample_object ''ClusterTask'' ''t'') = Ok u' \<and>
     lookup_nil (GetLabels u') LabelProviderType = Some ProviderTypeRedHat"
proof -
  let ?u = "sample_object ''ClusterTask'' ''t''"
  have "is_ok (InjectLabel LabelProviderType ProviderTypeRedHat Overwrite [''ClusterTask''] ?u)"
    by code_simp
  then obtain u' where u': "InjectLabel LabelProviderType ProviderTypeRedHat Overwrite [''ClusterTask''] ?u = Ok u'"
    by (rule is_okE)
  have "GetKind ?u = ''ClusterTask''" by code_simp
  with InjectLabel_labels [OF u'] u' show ?thesis by auto
qed

lemma sample_converter_keeps_kind: "converter_keeps_kind sample_converter"
proof -
  have set: "GetKind u' = GetKind u" if "SetNestedStringMap u d [''data''] = Ok u'" for u d u'
    using that nested_walk_set_diverge [of u _ "[]" "[''data'']" u' "[''kind'']" "[]"]
    by (intro getters_cong) (simp add: SetNestedStringMap_def NestedFieldNoCopy_def)
  show ?thesis
    by (auto simp: converter_keeps_kind_def sample_converter_def set split: res.splits option.splits)
qed

theorem transformManifest_kinds_witness:
  "\<exists>m'. transformManifest sample_env sample_config
       (sample_manifest [sample_binding, sample_object ''Service'' ''s'']) [DeploymentImages (E_conv sample_env) []] = Ok m' \<and>
     List.map GetKind (resources m') = [''Service'', ''RoleBinding'']"
proof -
  let ?m = "sample_manifest [sample_binding, sample_object ''Service'' ''s'']"
  have "is_ok (transformManifest sample_env sample_config ?m [DeploymentImages (E_conv sample_env) []])"
    by code_simp
  then obtain m' where m': "transformManifest sample_env sample_config ?m [DeploymentImages (E_conv sample_env) []] = Ok m'"
    by (rule is_okE)
  have "List.map GetKind (resources ?m) = [''RoleBinding'', ''Service'']" by code_simp
  moreover have "converter_keeps_kind (E_conv sample_env)"
    using sample_converter_keeps_kind by (simp add: sample_env_def)
  ultimately show ?thesis using transformManifest_kinds [OF m'] m' by auto
qed

end
