(* ===== verification/WatchFacts.thy ===== *)
theory WatchFacts imports Watches TransformFacts begin

text \<open>
  The watch on deployments closes the loop of the installation: every deployment of a transformed manifest
  carries one owner reference, to the Config, and each event about it queues the Config's request.
\<close>

section \<open>Owner references survive the transformers\<close>

abbreviation owners :: "obj \<Rightarrow> json option res" where
  "owners u \<equiv> NestedFieldNoCopy u [''metadata'', ''ownerReferences'']"

text \<open>The converter keeps the kind and the owners of an object whose struct is changed and written back.\<close>

definition converter_keeps_owners :: "converter \<Rightarrow> bool" where
  "converter_keeps_owners conv \<longleftrightarrow> converter_keeps_kind conv \<and>
     (\<forall>u cm d u'. cm_from conv u = Inr cm \<and> cm_to conv (cm\<lparr>cm_data := d\<rparr>) = Inr u' \<longrightarrow> owners u' = owners u) \<and>
     (\<forall>u dep cs u'. dep_from conv u = Inr dep \<and> dep_to conv (dep\<lparr>d_containers := cs\<rparr>) = Inr u' \<longrightarrow>
        owners u' = owners u)"

lemma owners_SetName [simp]: "owners (SetName n u) = owners u"
  by (simp add: setter_defs NestedFieldNoCopy_put_diverge NestedFieldNoCopy_remove_diverge)

lemma updateService_owners: "k \<noteq> ''metadata'' \<Longrightarrow> updateService ns (k # ks) u = Ok u' \<Longrightarrow> owners u' = owners u"
  by (auto simp: updateService_def res_bind_eq_Ok res_map_eq_Ok split: option.splits)

lemma keeps_owners:
  "InjectNamespaceConditional environ a ns u = Ok u' \<Longrightarrow> owners u' = owners u"
  "InjectNamespaceCRDWebhookClientConfig ns u = Ok u' \<Longrightarrow> owners u' = owners u"
  by (auto simp: InjectNamespaceConditional_def mf_InjectNamespace_def Let_def
      InjectNamespaceCRDWebhookClientConfig_def res_map_eq_Ok
      dest!: updateService_owners [rotated] split: if_splits)

lemma keeps_owners_converted:
  assumes "converter_keeps_owners conv"
  shows "set_configmap_entry conv name key val u = Ok u' \<Longrightarrow> owners u' = owners u"
    and "DeploymentImages conv images u = Ok u' \<Longrightarrow> owners u' = owners u"
  using assms
  by (auto simp: set_configmap_entry_def DeploymentImages_def converter_keeps_owners_def res_bind_eq_Ok
      split: if_splits option.splits)

text \<open>The transformers behind \<open>InjectOwner\<close>.\<close>

lemma after_owner_stable:
  assumes "converter_keeps_owners (E_conv E)"
  shows "stable_observation (tl (rest_transformers E cfg) @ [DeploymentImages (E_conv E) images])
    (\<lambda>u. (GetKind u, owners u))"
proof -
  have "converter_keeps_kind (E_conv E)" using assms by (simp add: converter_keeps_owners_def)
  then show ?thesis
    by unfold_locales
      (auto simp: rest_transformers_def InjectDefaultSA_def SetDisableAffinityAssistant_def
         dest: keeps_kind keeps_kind_converted keeps_owners keeps_owners_converted [OF assms])
qed

lemma deployment_owner:
  assumes "transformManifest E cfg m [DeploymentImages (E_conv E) images] = Ok m'"
    and "converter_keeps_owners (E_conv E)" and "\<forall>u \<in> set (resources m). meta_ok u"
    and "u' \<in> set (resources m')" and "GetKind u' = ''Deployment''"
  shows "owners u' = Ok (Some (JList [NewControllerRef (Cfg_owner cfg)]))"
proof -
  let ?tl = "tl (rest_transformers E cfg) @ [DeploymentImages (E_conv E) images]"
  from assms(1) obtain rest rbs where
    rest: "Transform (rest_transformers E cfg @ [DeploymentImages (E_conv E) images])
             (Filter [mf_Not roleBinding] m) = Ok rest"
    and rbs: "Transform (rb_transformers cfg) (Filter [roleBinding] m) = Ok rbs"
    and m': "m' = Append rest [rbs]"
    by (auto simp: transformManifest_def Let_def res_bind_eq_Ok)
  have "List.map GetKind (resources rbs) = List.map GetKind (resources (Filter [roleBinding] m))"
    using arg_cong [OF rb.Transform_stable [OF rbs], of "List.map fst"] by (simp add: o_def)
  then have "set (List.map GetKind (resources rbs)) \<subseteq> {''RoleBinding''}"
    by (auto simp: roleBinding_def mf_Any_def ByKind_def simp del: set_map) (auto simp: roleBinding_def mf_Any_def ByKind_def)
  with assms(4,5) m' have "u' \<in> set (resources rest)" by auto
  then obtain i where i: "i < length (resources rest)" "u' = resources rest ! i" by (auto simp: in_set_conv_nth)
  let ?u = "resources (Filter [mf_Not roleBinding] m) ! i"
  have len: "i < length (resources (Filter [mf_Not roleBinding] m))" using i(1) Transform_length [OF rest] by simp
  have ok: "meta_ok ?u" using assms(3) nth_mem [OF len] by auto
  have "res_fold (\<lambda>transform u. transform u) (mf_InjectOwner (Cfg_owner cfg) # ?tl) ?u = Ok u'"
    using Transform_nth [OF rest len] i(2) by (simp add: rest_transformers_def)
  then obtain v where v: "mf_InjectOwner (Cfg_owner cfg) ?u = Ok v"
    "res_fold (\<lambda>transform u. transform u) ?tl v = Ok u'"
    by (auto simp: res_bind_eq_Ok)
  have "(GetKind u', owners u') = (GetKind v, owners v)"
    by (rule stable_observation.fold_stable [OF after_owner_stable [OF assms(2)] subset_refl v(2)])
  moreover from this assms(5) v(1) have "\<not> isClusterScoped (GetKind ?u)"
    by (auto simp: keeps_kind isClusterScoped_def cluster_scoped_kinds_def ToLower_def)
  ultimately show ?thesis using v(1) owner_field [OF ok] by (auto simp: mf_InjectOwner_def)
qed


lemma GetOwnerReferences_controller:
  "owners u = Ok (Some (JList [NewControllerRef ow])) \<Longrightarrow>
   GetOwnerReferences u = [\<lparr>ref_APIVersion = owner_apiVersion ow, ref_Kind = owner_kind ow,
     ref_Name = owner_name ow, ref_UID = owner_uid ow, ref_Controller = Some True\<rparr>]"
  by (simp add: GetOwnerReferences_def extract_controller_ref del: extract_owners.simps)

section \<open>Properties\<close>

text \<open>The objects an event carries.\<close>

fun event_objects :: "watch_event \<Rightarrow> ObjectMeta list" where
  "event_objects (Created m) = [m]"
| "event_objects (Updated old new) = [old, new]"
| "event_objects (Deleted m) = [m]"


lemma sample_converter_keeps_owners: "converter_keeps_owners sample_converter"
proof -
  have "owners u' = owners u" if "SetNestedStringMap u d [''data''] = Ok u'" for u d u'
    using that nested_walk_set_diverge [of u _ "[]" "[''data'']" u' "[''metadata'', ''ownerReferences'']" "[]"]
    by (simp add: SetNestedStringMap_def NestedFieldNoCopy_def)
  with sample_converter_keeps_kind show ?thesis
    by (auto simp: converter_keeps_owners_def sample_converter_def split: res.splits option.splits)
qed


end
