(* ===== verification/ImageFacts.thy ===== *)
theory ImageFacts imports Samples begin

text \<open>
  The image overrides of the environment, end to end: what \<open>imagesFromEnv\<close> reads, what the containers
  get, and that the overrides can be applied again without a change (the manifests in memory are
  transformed by every reconciliation).
\<close>

section \<open>Overrides read from the environment\<close>

lemma imagesFromEnv_step_values:
  assumes "imagesFromEnv_step pre env images = Ok images'"
    and "\<forall>(k, v) \<in> set images. CHR ''='' \<notin> set v"
  shows "\<forall>(k, v) \<in> set images'. CHR ''='' \<notin> set v"
proof (cases "HasPrefix env pre")
  case False
  with assms show ?thesis by (simp add: imagesFromEnv_step_def)
next
  case True
  let ?kv = "Split env (CHR ''='')"
  from True assms(1) have images': "images' = AList.update (TrimPrefix (?kv ! 0) pre) (?kv ! 1) images"
    and "1 < length ?kv"
    by (auto simp: imagesFromEnv_step_def Let_def split: if_splits)
  then have "CHR ''='' \<notin> set (?kv ! 1)" by (intro Split_parts [of _ env]) (rule nth_mem)
  moreover have "set images' \<subseteq> insert (TrimPrefix (?kv ! 0) pre, ?kv ! 1) (set images)"
    unfolding images' by (rule set_update_subset)
  ultimately show ?thesis using assms(2) by blast
qed

text \<open>A list of overrides whose values can be split off an argument again.\<close>

definition plain_values :: "images \<Rightarrow> bool" where
  "plain_values images = (\<forall>(k, v) \<in> set images. CHR ''='' \<notin> set v)"

lemma imagesFromEnv_plain: "imagesFromEnv environ pre = Ok images \<Longrightarrow> plain_values images"
proof -
  have "plain_values images'"
    if "res_fold (imagesFromEnv_step pre) environ images = Ok images'" "plain_values images" for images images'
    using that
  proof (induction environ arbitrary: images)
    case (Cons env environ)
    then obtain im where "imagesFromEnv_step pre env images = Ok im"
      "res_fold (imagesFromEnv_step pre) environ im = Ok images'"
      by (auto simp: res_bind_eq_Ok)
    with Cons imagesFromEnv_step_values show ?case unfolding plain_values_def by blast
  qed simp
  from this [of "[]"] show "imagesFromEnv environ pre = Ok images \<Longrightarrow> plain_values images"
    by (simp add: imagesFromEnv_def plain_values_def)
qed

lemma plain_lookup: "plain_values images \<Longrightarrow> map_of images k = Some v \<Longrightarrow> CHR ''='' \<notin> set v"
  by (auto simp: plain_values_def dest: map_of_SomeD)

lemma ToLowerCaseKeys_plain:
  assumes "plain_values images"
  shows "plain_values (ToLowerCaseKeys images)"
proof -
  have "plain_values (fold (\<lambda>(k, v) newMap. AList.update (ToLower k) v newMap) kvs acc)"
    if "plain_values kvs" "plain_values acc" for kvs acc
    using that
  proof (induction kvs arbitrary: acc)
    case (Cons kv kvs)
    obtain k v where kv: "kv = (k, v)" by (cases kv)
    have "plain_values (AList.update (ToLower k) v acc)"
      using Cons.prems kv set_update_subset [of "ToLower k" v acc] by (fastforce simp: plain_values_def)
    moreover have "plain_values kvs" using Cons.prems(1) by (simp add: plain_values_def)
    ultimately show ?case using Cons.IH by (simp add: kv)
  qed simp
  moreover have "plain_values []" by (simp add: plain_values_def)
  ultimately show ?thesis using assms by (simp add: ToLowerCaseKeys_def)
qed

section \<open>Arguments\<close>

lemma splits_equals:
  assumes "splitsByEqual arg = (argVal, True)"
  shows "arg = argVal ! 0 @ ''='' @ argVal ! 1" and "CHR ''='' \<notin> set (argVal ! 0)"
proof -
  from assms have "length (Split arg (CHR ''='')) = 2" "argVal = Split arg (CHR ''='')"
    by (auto simp: splitsByEqual_def Let_def split: if_splits)
  then obtain a b where ab: "Split arg (CHR ''='') = [a, b]" "argVal = [a, b]"
    by (auto simp: length_Suc_conv numeral_2_eq_2)
  with Split_two [of arg "CHR ''=''" a b]
  show "arg = argVal ! 0 @ ''='' @ argVal ! 1" "CHR ''='' \<notin> set (argVal ! 0)" by simp_all
qed

lemma splits_joined:
  "CHR ''='' \<notin> set a \<Longrightarrow> CHR ''='' \<notin> set b \<Longrightarrow> splitsByEqual (a @ ''='' @ b) = ([a, b], True)"
  using Split_two [of "a @ ''='' @ b" "CHR ''=''" a b] by (simp add: splitsByEqual_def)

lemma splits_plain: "CHR ''='' \<notin> set a \<Longrightarrow> splitsByEqual a = ([a], False)"
  by (simp add: splitsByEqual_def Split_no_sep)

text \<open>An argument without \<open>=\<close> in front keeps its place.\<close>

lemma override_args_plain_head:
  assumes "override_args images (arg # rest) = Ok r" and "CHR ''='' \<notin> set arg"
  shows "\<exists>r'. r = arg # r'"
  by (cases arg images rest rule: override_args_Cons)
    (use assms splits_plain [OF assms(2)] in \<open>auto simp: res_map_eq_Ok Ok_eq_res_map\<close>)

lemma override_args_idem:
  assumes "plain_values images" and "override_args images args = Ok r"
  shows "override_args images r = Ok r"
  using assms(2)
proof (induction args arbitrary: r rule: override_args_induct [of _ images])
  case (equals arg rest argVal x)
  then obtain r' where r': "override_args images rest = Ok r'" "r = x # r'"
    by (auto simp: res_map_eq_Ok Ok_eq_res_map)
  note arg = splits_equals [OF equals.hyps(1)]
  have "\<exists>argVal'. splitsByEqual x = (argVal', True) \<and>
      x = (case map_of images (formKey ArgPrefix (argVal' ! 0)) of
             Some url \<Rightarrow> argVal' ! 0 @ ''='' @ url | None \<Rightarrow> x)"
  proof (cases "map_of images (formKey ArgPrefix (argVal ! 0))")
    case None
    with equals.hyps show ?thesis by auto
  next
    case (Some url)
    with equals.hyps splits_joined [OF arg(2) plain_lookup [OF assms(1) Some]] show ?thesis by auto
  qed
  then obtain argVal' where x: "splitsByEqual x = (argVal', True)"
    "x = (case map_of images (formKey ArgPrefix (argVal' ! 0)) of
             Some url \<Rightarrow> argVal' ! 0 @ ''='' @ url | None \<Rightarrow> x)" by blast
  from r' equals.IH have "override_args images r' = Ok r'" by simp
  then have "override_args images (x # r') = Ok (x # r')"
    by (cases x images r' rule: override_args_Cons) (use x in auto)
  with r' show ?case by simp
next
  case (plain arg rest argVal)
  then obtain r' where r': "override_args images rest = Ok r'" "r = arg # r'"
    by (auto simp: res_map_eq_Ok Ok_eq_res_map)
  with plain.IH have "override_args images r' = Ok r'" by simp
  then have "override_args images (arg # r') = Ok (arg # r')"
    by (cases arg images r' rule: override_args_Cons) (use plain.hyps in auto)
  with r' show ?case by simp
next
  case (follow arg argVal url old rest)
  then obtain r' where r': "override_args images (url # rest) = Ok r'" "r = arg # r'"
    by (auto simp: res_map_eq_Ok Ok_eq_res_map)
  with override_args_plain_head plain_lookup [OF assms(1) follow.hyps(2)] obtain r''
    where r'': "r' = url # r''" by blast
  from r' follow.IH have "override_args images r' = Ok r'" by simp
  then have "override_args images (arg # r') = Ok (arg # r')"
    by (cases arg images r' rule: override_args_Cons) (use follow.hyps r'' in auto)
  with r' show ?case by simp
qed auto

lemma override_args_panic:
  assumes "is_panic (override_args images args)"
  shows "args \<noteq> [] \<and> (\<exists>x \<in> insert (last args) (ran (map_of images)).
    \<not> snd (splitsByEqual x) \<and> map_of images (formKey ArgPrefix x) \<noteq> None)"
  using assms
proof (induction args rule: override_args_induct [of _ images])
  case (follow arg argVal url old rest)
  then have "\<exists>x \<in> insert (last (url # rest)) (ran (map_of images)).
    \<not> snd (splitsByEqual x) \<and> map_of images (formKey ArgPrefix x) \<noteq> None" by simp
  moreover from follow.hyps have "url \<in> ran (map_of images)" by (auto simp: ran_def)
  ultimately show ?case by (cases rest) auto
qed (auto split: if_splits)

section \<open>Containers\<close>

lemma replaceContainerImage_run:
  assumes "replaceContainerImage images c = Ok c'"
  shows "c_name c' = c_name c \<and> c_rest c' = c_rest c \<and>
     c_image c' = (case map_of images (formKey [] (c_name c)) of Some url \<Rightarrow> url | None \<Rightarrow> c_image c) \<and>
     override_args images (c_args c) = Ok (c_args c')"
  using assms
  by (auto simp: replaceContainerImage_def replaceContainersArgsImage_def Let_def args_loop_override
      res_map_eq_Ok Ok_eq_res_map split: option.splits)

lemma replaceContainerImage_idem:
  assumes "plain_values images" and "replaceContainerImage images c = Ok c'"
  shows "replaceContainerImage images c' = Ok c'"
proof -
  note run = replaceContainerImage_run [OF assms(2)]
  then have "override_args images (c_args c') = Ok (c_args c')"
    using override_args_idem [OF assms(1)] by blast
  with run show ?thesis
    by (auto simp: replaceContainerImage_def replaceContainersArgsImage_def Let_def args_loop_override
        split: option.split)
qed

section \<open>Which override a key finds\<close>

text \<open>The name an entry of the environment sets, and its value.\<close>

definition entry_name :: "string \<Rightarrow> string \<Rightarrow> string" where
  "entry_name pre env = TrimPrefix (Split env (CHR ''='') ! 0) pre"

definition entry_value :: "string \<Rightarrow> string" where
  "entry_value env = Split env (CHR ''='') ! 1"

lemma imagesFromEnv_step_Ok:
  "imagesFromEnv_step pre env images = Ok images' \<Longrightarrow>
   images' = (if HasPrefix env pre then AList.update (entry_name pre env) (entry_value env) images else images)"
  by (auto simp: imagesFromEnv_step_def Let_def entry_name_def entry_value_def split: if_splits)

lemma imagesFromEnv_fold_entries:
  assumes "res_fold (imagesFromEnv_step pre) environ acc = Ok images"
  shows "fst ` set images = fst ` set acc \<union> entry_name pre ` {env \<in> set environ. HasPrefix env pre}"
    and "(k, v) \<in> set images \<Longrightarrow> (k, v) \<in> set acc \<or>
      (\<exists>env \<in> set environ. HasPrefix env pre \<and> k = entry_name pre env \<and> v = entry_value env)"
  using assms
proof (induction environ arbitrary: acc)
  case (Cons env environ)
  {
    case 1
    then obtain acc' where acc': "imagesFromEnv_step pre env acc = Ok acc'"
        "res_fold (imagesFromEnv_step pre) environ acc' = Ok images"
      by (auto simp: res_bind_eq_Ok)
    from imagesFromEnv_step_Ok [OF acc'(1)] Cons.IH(1) [OF acc'(2)] show ?case
      by (auto simp: dom_update)
  next
    case 2
    then obtain acc' where acc': "imagesFromEnv_step pre env acc = Ok acc'"
        "res_fold (imagesFromEnv_step pre) environ acc' = Ok images"
      by (auto simp: res_bind_eq_Ok)
    from imagesFromEnv_step_Ok [OF acc'(1)] Cons.IH(2) [OF 2(1) acc'(2)] show ?case
      using set_update_subset [of "entry_name pre env" "entry_value env" acc]
      by (auto split: if_splits)
  }
qed simp_all

lemma ToLowerCaseKeys_entry:
  "map_of (ToLowerCaseKeys kvs) k = Some v \<Longrightarrow> \<exists>k'. (k', v) \<in> set kvs \<and> ToLower k' = k"
  unfolding map_of_ToLowerCaseKeys by (drule map_of_SomeD) auto

text \<open>The lookup of a key, when all entries for it (up to case) have the same value.\<close>

lemma override_lookup:
  assumes "imagesFromEnv environ pre = Ok images" and "env \<in> set environ" and "HasPrefix env pre"
    and "\<forall>env' \<in> set environ. HasPrefix env' pre \<and> ToLower (entry_name pre env') = ToLower (entry_name pre env) \<longrightarrow>
      entry_value env' = entry_value env"
  shows "map_of (ToLowerCaseKeys images) (ToLower (entry_name pre env)) = Some (entry_value env)"
proof -
  note entries = imagesFromEnv_fold_entries [OF assms(1) [unfolded imagesFromEnv_def]]
  have "entry_name pre env \<in> fst ` set images" using assms(2,3) by (auto simp: entries(1))
  then obtain v where v: "map_of (ToLowerCaseKeys images) (ToLower (entry_name pre env)) = Some v"
    using ToLowerCaseKeys_domain [of images "ToLower (entry_name pre env)"] by blast
  then obtain k where "(k, v) \<in> set images" "ToLower k = ToLower (entry_name pre env)"
    by (blast dest: ToLowerCaseKeys_entry)
  with entries(2) assms(4) have "v = entry_value env" by fastforce
  with v show ?thesis by simp
qed

section \<open>Properties\<close>

text \<open>C23:
  Overriding the images of containers, specified: every container keeps its name and everything the
  override does not name; its image is the one for its name if there is one; its arguments, which the
  code rewrites in place while it ranges over them, are those of the recursive specification
  \<open>override_args\<close>, as many as before.
\<close>

theorem replaceContainerImages_spec:
  assumes "replaceContainerImages containers images = Ok containers'"
  shows "list_all2 (\<lambda>c c'. c_name c' = c_name c \<and> c_rest c' = c_rest c \<and>
       c_image c' = (case map_of images (formKey [] (c_name c)) of Some url \<Rightarrow> url | None \<Rightarrow> c_image c) \<and>
       override_args images (c_args c) = Ok (c_args c') \<and> length (c_args c') = length (c_args c))
     containers containers'"
  using assms unfolding replaceContainerImages_def res_mapM_Ok_iff
  by (rule list_all2_mono) (auto dest: replaceContainerImage_run override_args_length)

text \<open>
  Overrides that come from the environment are applied once and for all: applying them to containers
  that have been overridden changes nothing.
\<close>

theorem replaceContainerImages_idempotent:
  assumes "imagesFromEnv environ pre = Ok images"
    and "replaceContainerImages containers (ToLowerCaseKeys images) = Ok containers'"
  shows "replaceContainerImages containers' (ToLowerCaseKeys images) = Ok containers'"
proof -
  have "plain_values (ToLowerCaseKeys images)"
    using assms(1) by (intro ToLowerCaseKeys_plain imagesFromEnv_plain)
  with assms(2) show ?thesis
    unfolding replaceContainerImages_def res_mapM_Ok_iff
    by (auto simp: list_all2_conv_all_nth intro: replaceContainerImage_idem)
qed



text \<open>
  The key of an argument that starts with a dash has two underscores: the override variable
  \<open>IMAGE_PIPELINES_ARG_NOP\<close>, as the README names it, is not the one the argument \<open>-nop\<close> looks up, and
  leaves the image after it alone; \<open>IMAGE_PIPELINES_ARG__NOP\<close> replaces it.
\<close>

theorem dashed_argument_key:
  "formKey ArgPrefix (CHR ''-'' # name) = ''arg__'' @ formKey [] name \<and>
   res_bind (imagesFromEnv [''IMAGE_PIPELINES_ARG_NOP=new''] PipelinesImagePrefix)
     (\<lambda>images. args_loop (ToLowerCaseKeys images) 2 0 [''-nop'', ''old'']) = Ok [''-nop'', ''old''] \<and>
   res_bind (imagesFromEnv [''IMAGE_PIPELINES_ARG__NOP=new''] PipelinesImagePrefix)
     (\<lambda>images. args_loop (ToLowerCaseKeys images) 2 0 [''-nop'', ''old'']) = Ok [''-nop'', ''new'']"
proof (intro conjI)
  show "formKey ArgPrefix (CHR ''-'' # name) = ''arg__'' @ formKey [] name"
    by (simp add: formKey_def Let_def ArgPrefix_def ReplaceAll_def ToLower_def)
qed code_simp+

section \<open>Witnesses\<close>

definition sample_container :: container where
  "sample_container = \<lparr>c_name = ''tekton-controller'', c_image = ''i'',
     c_args = [''-nop'', ''old'', ''shell=sh''], c_rest = []\<rparr>"

definition sample_images :: images where
  "sample_images = [(''TEKTON_CONTROLLER'', ''q''), (''ARG__NOP'', ''n''), (''ARG_SHELL'', ''s'')]"

definition sample_replaced :: "container list" where
  "sample_replaced = [\<lparr>c_name = ''tekton-controller'', c_image = ''q'',
     c_args = [''-nop'', ''n'', ''shell=s''], c_rest = []\<rparr>]"

lemma sample_overrides:
  "imagesFromEnv [''IMAGE_PIPELINES_TEKTON_CONTROLLER=q'', ''HOME=h'', ''IMAGE_PIPELINES_ARG__NOP=n'',
     ''IMAGE_PIPELINES_ARG_SHELL=s''] PipelinesImagePrefix = Ok sample_images"
  "replaceContainerImages [sample_container] (ToLowerCaseKeys sample_images) = Ok sample_replaced"
  by code_simp+

theorem replaceContainerImages_spec_witness:
  "override_args (ToLowerCaseKeys sample_images) (c_args sample_container) = Ok (c_args (sample_replaced ! 0)) \<and>
   c_image (sample_replaced ! 0) = ''q''"
  using replaceContainerImages_spec [OF sample_overrides(2)]
  by (simp add: sample_replaced_def)

theorem replaceContainerImages_idempotent_witness:
  "replaceContainerImages sample_replaced (ToLowerCaseKeys sample_images) = Ok sample_replaced"
  by (rule replaceContainerImages_idempotent [OF sample_overrides])



end
