(* ===== verification/DataFacts.thy ===== *)
theory DataFacts imports Samples begin

text \<open>
  What the transformers do to the data of an object: \<open>InjectDefaultSA\<close> and \<open>SetDisableAffinityAssistant\<close>
  to a config map (through the converter), \<open>TaskImages\<close> to the steps and parameters of a task.
\<close>

section \<open>Config maps\<close>

text \<open>
  What the operator relies on: a config map that was read from an object and written back with other
  data is read as it was written.
\<close>

definition converter_rereads :: "converter \<Rightarrow> bool" where
  "converter_rereads conv \<longleftrightarrow>
     (\<forall>u cm d u'. cm_from conv u = Inr cm \<and> cm_to conv (cm\<lparr>cm_data := Some d\<rparr>) = Inr u' \<longrightarrow>
        cm_from conv u' = Inr (cm\<lparr>cm_data := Some d\<rparr>))"

text \<open>The data of a config map after an entry has been set.\<close>

definition entry_set :: "converter \<Rightarrow> obj \<Rightarrow> string \<Rightarrow> string \<Rightarrow> obj \<Rightarrow> bool" where
  "entry_set conv u key val u' \<longleftrightarrow>
     (\<exists>cm d d'. cm_from conv u = Inr cm \<and> cm_data cm = Some d \<and>
        cm_from conv u' = Inr (cm\<lparr>cm_data := Some d'\<rparr>) \<and> map_of d' = (map_of d)(key \<mapsto> val))"

lemma set_configmap_entry_other:
  "ToLower (GetKind u) \<noteq> ''configmap'' \<or> GetName u \<noteq> name \<Longrightarrow> set_configmap_entry conv name key val u = Ok u"
  by (auto simp: set_configmap_entry_def)

lemma set_configmap_entry_nil:
  assumes "ToLower (GetKind u) = ''configmap''" and "GetName u = name" and "cm_from conv u = Inr cm"
  shows "is_panic (set_configmap_entry conv name key val u) \<longleftrightarrow> cm_data cm = None"
  using assms by (auto simp: set_configmap_entry_def split: option.split)

lemma set_configmap_entry_Ok:
  assumes "converter_rereads conv" and "set_configmap_entry conv name key val u = Ok u'"
    and "ToLower (GetKind u) = ''configmap''" and "GetName u = name"
  obtains cm d where "cm_from conv u = Inr cm" and "cm_data cm = Some d"
    and "cm_to conv (cm\<lparr>cm_data := Some (AList.update key val d)\<rparr>) = Inr u'"
    and "cm_from conv u' = Inr (cm\<lparr>cm_data := Some (AList.update key val d)\<rparr>)"
proof -
  from assms(2-4) obtain cm d where cm: "cm_from conv u = Inr cm" "cm_data cm = Some d"
      "cm_to conv (cm\<lparr>cm_data := Some (AList.update key val d)\<rparr>) = Inr u'"
    by (auto simp: set_configmap_entry_def res_bind_eq_Ok split: option.splits)
  moreover from cm(1,3) assms(1)
  have "cm_from conv u' = Inr (cm\<lparr>cm_data := Some (AList.update key val d)\<rparr>)"
    unfolding converter_rereads_def by blast
  ultimately show ?thesis by (rule that)
qed

lemma set_configmap_entry_set:
  assumes "converter_rereads conv" and "set_configmap_entry conv name key val u = Ok u'"
    and "ToLower (GetKind u) = ''configmap''" and "GetName u = name"
  shows "entry_set conv u key val u'"
  by (rule set_configmap_entry_Ok [OF assms]) (auto simp: entry_set_def)

lemma set_configmap_entry_idem:
  assumes "converter_rereads conv" and "set_configmap_entry conv name key val u = Ok u'"
  shows "set_configmap_entry conv name key val u' = Ok u'"
proof (cases "ToLower (GetKind u) = ''configmap'' \<and> GetName u = name")
  case True
  with assms obtain cm d where cm: "cm_to conv (cm\<lparr>cm_data := Some (AList.update key val d)\<rparr>) = Inr u'"
      "cm_from conv u' = Inr (cm\<lparr>cm_data := Some (AList.update key val d)\<rparr>)"
    by (auto elim: set_configmap_entry_Ok)
  then show ?thesis by (simp add: set_configmap_entry_def update_twice)
next
  case False
  with assms(2) show ?thesis by (auto simp: set_configmap_entry_other)
qed

section \<open>Steps and parameters\<close>

text \<open>One entry: only the field \<open>target\<close> changes, and only when its name has an override that is not empty.\<close>

definition overridden :: "string \<Rightarrow> string \<Rightarrow> images \<Rightarrow> json \<Rightarrow> json \<Rightarrow> bool" where
  "overridden pre target images v v' \<longleftrightarrow>
     (\<exists>m m'. v = JObj m \<and> v' = JObj m' \<and>
        map_of m' = (case map_of m ''name'' of
            Some (JStr name) \<Rightarrow> (case map_of images (formKey pre name) of
                Some img \<Rightarrow> if img = [] then map_of m else (map_of m)(target \<mapsto> JStr img)
              | None \<Rightarrow> map_of m)
          | _ \<Rightarrow> map_of m))"

lemma override_entry_overridden:
  "override_entry pre target images v = Ok v' \<Longrightarrow> overridden pre target images v v'"
  by (cases v) (auto simp: override_entry_def overridden_def split: option.split json.split)

lemma override_entries:
  "res_mapM (override_entry pre target images) vs = Ok vs' \<Longrightarrow> list_all2 (overridden pre target images) vs vs'"
  unfolding res_mapM_Ok_iff by (erule list_all2_mono) (rule override_entry_overridden)

text \<open>What an override of a list of the task's spec leaves of the object.\<close>

definition list_overridden :: "string list \<Rightarrow> string \<Rightarrow> string \<Rightarrow> images \<Rightarrow> obj \<Rightarrow> obj \<Rightarrow> bool" where
  "list_overridden path pre target images u u' \<longleftrightarrow>
     (\<exists>vs vs'. NestedFieldNoCopy u path = Ok (Some (JList vs)) \<and>
        NestedFieldNoCopy u' path = Ok (Some (JList vs')) \<and>
        list_all2 (overridden pre target images) vs vs')"

lemma SetNestedField_read:
  assumes "SetNestedField u v path = Ok u'"
  shows "NestedFieldNoCopy u' path = Ok (Some v)"
    and "diverge path gs \<Longrightarrow> NestedFieldNoCopy u' gs = NestedFieldNoCopy u gs"
  using assms
  by (auto simp: SetNestedField_def NestedFieldNoCopy_def nested_walk_set nested_walk_set_diverge)

lemma NestedSlice_Ok: "NestedSlice u path = Ok r \<Longrightarrow> NestedFieldNoCopy u path = Ok (map_option JList r)"
  by (cases "NestedFieldNoCopy u path") (auto simp: NestedSlice_def split: option.splits json.splits)

lemma list_overridden_put:
  assumes "NestedSlice u path = Ok (Some vs)" and "res_mapM (override_entry pre target images) vs = Ok vs'"
    and "SetNestedField u (JList vs') path = Ok w"
  shows "list_overridden path pre target images u w"
  using NestedSlice_Ok [OF assms(1)] override_entries [OF assms(2)] SetNestedField_read(1) [OF assms(3)]
  by (auto simp: list_overridden_def)

text \<open>The object after the steps: unchanged when it has none.\<close>

lemma TaskImages_cases:
  assumes "TaskImages images u = Ok u'" and "GetKind u = ''ClusterTask''"
  obtains "NestedFieldNoCopy u [''spec'', ''steps''] = Ok None" and "u' = u"
  | w steps' where "list_overridden [''spec'', ''steps''] [] ''image'' images u w"
      and "SetNestedField u steps' [''spec'', ''steps''] = Ok w"
      and "NestedFieldNoCopy w [''spec'', ''params''] = Ok None" and "u' = w"
  | w steps' params' where "list_overridden [''spec'', ''steps''] [] ''image'' images u w"
      and "SetNestedField u steps' [''spec'', ''steps''] = Ok w"
      and "list_overridden [''spec'', ''params''] ParamPrefix ''default'' images w u'"
      and "SetNestedField w params' [''spec'', ''params''] = Ok u'"
proof -
  let ?steps = "[''spec'', ''steps'']" and ?params = "[''spec'', ''params'']"
  from assms obtain found where found: "NestedSlice u ?steps = Ok found"
    and rest: "(case found of None \<Rightarrow> Ok u | Some steps \<Rightarrow>
        res_bind (replaceStepsImages steps images) (\<lambda>steps'.
        res_bind (SetNestedField u (JList steps') ?steps) (\<lambda>u.
        res_bind (NestedSlice u ?params) (\<lambda>found. case found of
          None \<Rightarrow> Ok u
        | Some params \<Rightarrow> res_bind (replaceParamsImage params images) (\<lambda>params'.
            SetNestedField u (JList params') ?params))))) = Ok u'"
    unfolding TaskImages_def by (simp only: res_bind_eq_Ok if_not_P not_not simp_thms) blast
  show ?thesis
  proof (cases found)
    case None
    with NestedSlice_Ok [OF found] rest show ?thesis by (intro that(1)) simp_all
  next
    case (Some steps)
    with rest obtain steps' w found' where w: "replaceStepsImages steps images = Ok steps'"
        "SetNestedField u (JList steps') ?steps = Ok w" "NestedSlice w ?params = Ok found'"
      and rest': "(case found' of None \<Rightarrow> Ok w | Some params \<Rightarrow>
          res_bind (replaceParamsImage params images) (\<lambda>params'. SetNestedField w (JList params') ?params)) = Ok u'"
      by (simp only: option.case res_bind_eq_Ok) blast
    have steps: "list_overridden ?steps [] ''image'' images u w"
      using found Some w(1,2) by (intro list_overridden_put) (simp_all add: replaceStepsImages_def)
    show ?thesis
    proof (cases found')
      case None
      with NestedSlice_Ok [OF w(3)] rest' steps w(2) show ?thesis by (intro that(2)) simp_all
    next
      case params: (Some params)
      with rest' obtain params' where p: "replaceParamsImage params images = Ok params'"
          "SetNestedField w (JList params') ?params = Ok u'"
        by (auto simp: res_bind_eq_Ok)
      with w(3) params have "list_overridden ?params ParamPrefix ''default'' images w u'"
        by (intro list_overridden_put) (simp_all add: replaceParamsImage_def)
      with steps w(2) p(2) show ?thesis by (intro that(3))
    qed
  qed
qed

section \<open>Properties\<close>


text \<open>
  \<open>TaskImages\<close> overrides the images of the steps of a ClusterTask and the defaults of its parameters, entry by
  entry and in place, and leaves every other field of the object alone; of a task without steps it
  leaves everything alone, its parameters included.
\<close>

theorem TaskImages_spec:
  assumes "TaskImages images u = Ok u'"
  shows "if GetKind u \<noteq> ''ClusterTask'' \<or> NestedFieldNoCopy u [''spec'', ''steps''] = Ok None then u' = u
    else list_overridden [''spec'', ''steps''] [] ''image'' images u u' \<and>
      (NestedFieldNoCopy u [''spec'', ''params''] = Ok None \<and> NestedFieldNoCopy u' [''spec'', ''params''] = Ok None \<or>
       list_overridden [''spec'', ''params''] ParamPrefix ''default'' images u u') \<and>
      (\<forall>gs. diverge [''spec'', ''steps''] gs \<and> diverge [''spec'', ''params''] gs \<longrightarrow>
         NestedFieldNoCopy u' gs = NestedFieldNoCopy u gs)"
proof (cases "GetKind u = ''ClusterTask''")
  case False
  with assms show ?thesis by (simp add: TaskImages_def)
next
  case True
  have d: "diverge [''spec'', ''steps''] [''spec'', ''params'']" "diverge [''spec'', ''params''] [''spec'', ''steps'']"
    by simp_all
  from assms True show ?thesis
  proof (cases rule: TaskImages_cases)
    case (2 w steps')
    note w = SetNestedField_read(2) [OF 2(2)]
    from 2(1) have "NestedFieldNoCopy u [''spec'', ''steps''] \<noteq> Ok None" by (auto simp: list_overridden_def)
    with 2 True w w [OF d(1)] show ?thesis by simp
  next
    case (3 w steps' params')
    note w = SetNestedField_read(2) [OF 3(2)] and u' = SetNestedField_read(2) [OF 3(4)]
    from 3(1) have "NestedFieldNoCopy u [''spec'', ''steps''] \<noteq> Ok None" by (auto simp: list_overridden_def)
    moreover have "list_overridden [''spec'', ''steps''] [] ''image'' images u u'"
      using 3(1) u' [OF d(2)] by (simp add: list_overridden_def)
    moreover have "list_overridden [''spec'', ''params''] ParamPrefix ''default'' images u u'"
      using 3(3) w [OF d(1)] by (simp add: list_overridden_def)
    ultimately show ?thesis using True w u' by simp
  qed simp
qed

section \<open>Witnesses\<close>

text \<open>A converter that takes the data out of an object and puts it back in front.\<close>

definition data_converter :: converter where
  "data_converter = sample_converter\<lparr>
     cm_from := (\<lambda>u. case NestedStringMap u [''data''] of
        Ok d \<Rightarrow> Inr \<lparr>cm_data = d, cm_rest = AList.delete ''data'' u\<rparr> | _ \<Rightarrow> Inl (PlainError ''no config map'')),
     cm_to := (\<lambda>cm. Inr (case cm_data cm of
        None \<Rightarrow> cm_rest cm | Some d \<Rightarrow> (''data'', string_map_json d) # cm_rest cm))\<rparr>"

lemma data_converter_rereads: "converter_rereads data_converter"
proof -
  have delete: "AList.delete ''data'' (AList.delete ''data'' u) = AList.delete ''data'' u" for u :: obj
    by (simp add: AList.delete_eq)
  show ?thesis
    by (auto simp: converter_rereads_def data_converter_def NestedStringMap_def NestedFieldNoCopy_def
        string_map_json_def delete split: res.splits option.splits)
qed

definition sample_defaults :: obj where
  "sample_defaults = [(''kind'', JStr ''ConfigMap''), (''metadata'', JObj [(''name'', JStr ''config-defaults'')]),
     (''data'', JObj [(''default-timeout-minutes'', JStr ''60'')])]"


definition sample_task :: obj where
  "sample_task = [(''kind'', JStr ''ClusterTask''), (''metadata'', JObj [(''name'', JStr ''t'')]),
     (''spec'', JObj [(''steps'', JList [JObj [(''name'', JStr ''push-it''), (''image'', JStr ''old'')]]),
        (''params'', JList [JObj [(''name'', JStr ''BUILDER''), (''default'', JStr ''old'')]])])]"

theorem TaskImages_spec_witness:
  "\<exists>u'. TaskImages [(''push_it'', ''new''), (''param_builder'', ''b'')] sample_task = Ok u' \<and>
     list_overridden [''spec'', ''steps''] [] ''image'' [(''push_it'', ''new''), (''param_builder'', ''b'')] sample_task u' \<and>
     GetKind u' = ''ClusterTask''"
proof -
  let ?images = "[(''push_it'', ''new''), (''param_builder'', ''b'')]"
  have "is_ok (TaskImages ?images sample_task)"
    by code_simp
  then obtain u' where u': "TaskImages ?images sample_task = Ok u'" by (rule is_okE)
  have kind: "GetKind sample_task = ''ClusterTask''" by code_simp
  have "NestedFieldNoCopy sample_task [''spec'', ''steps''] \<noteq> Ok None"
    by (simp add: sample_task_def NestedFieldNoCopy_def)
  with TaskImages_spec [OF u'] kind
  have "list_overridden [''spec'', ''steps''] [] ''image'' ?images sample_task u'"
    and fields_kept: "\<And>gs. diverge [''spec'', ''steps''] gs \<and> diverge [''spec'', ''params''] gs \<longrightarrow>
      NestedFieldNoCopy u' gs = NestedFieldNoCopy sample_task gs"
    by simp_all
  moreover have "GetKind u' = GetKind sample_task"
    by (rule getters_cong) (simp add: fields_kept)
  ultimately show ?thesis using u' kind by simp
qed

end
