(* ===== verification/Addons.thy ===== *)
theory Addons imports Manifestival "HOL-Library.Multiset" begin

text \<open>
  The generated pipelines (\<open>pkg/utils/addons/addons.go\<close>): for every S2I runtime a pipeline is made from a
  template, and from it one pipeline for each environment (OpenShift, Kubernetes, Knative).

  The code keeps references into the object it builds (\<open>tasks\<close>, \<open>taskBuild\<close>, \<open>taskDeploy\<close>) and writes
  through them; the model writes the task back with \<open>put_task\<close>.  The iteration order of the map
  \<open>flag.Runtimes\<close> is an argument.  Reading a template file is an argument as well.
\<close>

section \<open>Tasks of a pipeline\<close>

definition str_obj :: "(string \<times> string) list \<Rightarrow> json" where
  "str_obj kvs = JObj (List.map (\<lambda>(k, v). (k, JStr v)) kvs)"

definition str_list :: "string list \<Rightarrow> json" where
  "str_list xs = JList (List.map JStr xs)"

text \<open>\<open>tasks.([]interface{})[index].(map[string]interface{})\<close>\<close>

fun task_at :: "json \<Rightarrow> nat \<Rightarrow> obj res" where
  "task_at (JList tasks) index =
     (if index < length tasks then
        (case tasks ! index of
           JObj t \<Rightarrow> Ok t
         | _ \<Rightarrow> Panic ''interface conversion: not a map[string]interface{}'')
      else Panic ''index out of range'')"
| "task_at v index = Panic ''interface conversion: not []interface{}''"

fun replace_task :: "nat \<Rightarrow> obj \<Rightarrow> json \<Rightarrow> json" where
  "replace_task index t (JList tasks) = JList (tasks[index := JObj t])"
| "replace_task index t v = v"

definition put_task :: "nat \<Rightarrow> obj \<Rightarrow> obj \<Rightarrow> obj" where
  "put_task index t u = update_at u [''spec'', ''tasks''] (replace_task index t)"

text \<open>\<open>append(params.([]interface{}), item)\<close>\<close>

fun append_item :: "json \<Rightarrow> json \<Rightarrow> json res" where
  "append_item (JList xs) item = Ok (JList (xs @ [item]))"
| "append_item v item = Panic ''interface conversion: not []interface{}''"

section \<open>The deploy tasks\<close>

definition cluster_task :: "string \<Rightarrow> json" where
  "cluster_task name = str_obj [(''name'', name), (''kind'', ''ClusterTask'')]"

definition args_param :: "string list \<Rightarrow> json" where
  "args_param args = JObj [(''name'', JStr ''ARGS''), (''value'', str_list args)]"

definition openshiftDeployTask :: "obj \<Rightarrow> obj" where
  "openshiftDeployTask deployTask =
     (let t = AList.update ''taskRef'' (cluster_task ''openshift-client'') deployTask;
          t = AList.update ''runAfter'' (str_list [''build'']) t
      in AList.update ''params'' (JList [args_param [''rollout'', ''status'', ''dc/$(params.APP_NAME)'']]) t)"

definition kubernetesDeployTask :: "obj \<Rightarrow> obj" where
  "kubernetesDeployTask deployTask =
     (let t = AList.update ''taskRef'' (cluster_task ''openshift-client'') deployTask;
          t = AList.update ''runAfter'' (str_list [''build'']) t
      in AList.update ''params'' (JList [
           str_obj [(''name'', ''SCRIPT''), (''value'', ''kubectl $@'')],
           args_param [''rollout'', ''status'', ''deploy/$(params.APP_NAME)'']]) t)"

definition knativeDeployTask :: "obj \<Rightarrow> obj" where
  "knativeDeployTask deployTask =
     (let t = AList.update ''name'' (JStr ''kn-service-create'') deployTask;
          t = AList.update ''taskRef'' (cluster_task ''kn'') t;
          t = AList.update ''runAfter'' (str_list [''build'']) t
      in AList.update ''params'' (JList [args_param
           [''service'', ''create'', ''$(params.APP_NAME)'', ''--image=$(params.IMAGE_NAME)'', ''--force'']]) t)"

definition knativeResourcedDeployTask :: "obj \<Rightarrow> obj" where
  "knativeResourcedDeployTask deployTask =
     (let t = AList.update ''name'' (JStr ''kn-service-create'') deployTask;
          t = AList.update ''taskRef'' (cluster_task ''kn'') t;
          t = AList.update ''runAfter'' (str_list [''build'']) t;
          t = AList.update ''resources'' (JObj [(''inputs'', JList [JObj [
                (''name'', JStr ''image''), (''resource'', JStr ''app-image''),
                (''from'', str_list [''build''])]])]) t
      in AList.update ''params'' (JList [args_param
           [''service'', ''create'', ''$(params.APP_NAME)'', ''--image=$(resources.inputs.image.url)'', ''--force'']]) t)"

section \<open>One pipeline\<close>

text \<open>The struct \<open>pipeline\<close>, the only \<open>taskGenerator\<close>.\<close>

record pipeline =
  environment :: string
  nameSuffix :: string
  generateDeployTask :: "obj \<Rightarrow> obj"

text \<open>
  \<open>generate\<close>: writing to the nil labels panics; without tasks the result is the empty object
  \<open>unstructured.Unstructured{}\<close> and a nil error.
\<close>

definition generate :: "pipeline \<Rightarrow> obj \<Rightarrow> bool \<Rightarrow> obj res" where
  "generate p pl usingPipelineResource =
     (case GetLabels pl of
        None \<Rightarrow> Panic ''assignment to entry in nil map''
      | Some labels \<Rightarrow>
          (let newTempRes = SetLabels (AList.update LabelPipelineEnvironmentType (environment p) labels) pl;
               updatedName = GetName newTempRes @ nameSuffix p
           in res_bind (NestedFieldNoCopy newTempRes [''spec'', ''tasks'']) (\<lambda>found. case found of
                None \<Rightarrow> Ok []
              | Some taskDeploy \<Rightarrow>
                  (let index = (if usingPipelineResource then 1 else 2);
                       updatedName = (if usingPipelineResource then updatedName @ ''-pr'' else updatedName);
                       newTempRes = SetName updatedName newTempRes
                   in res_bind (task_at taskDeploy index) (\<lambda>t.
                      Ok (put_task index (generateDeployTask p t) newTempRes))))))"

section \<open>The base pipeline of a runtime\<close>

definition runtime_labels :: "string \<Rightarrow> RuntimeSpec \<Rightarrow> (string, string) gomap" where
  "runtime_labels name spec =
     (if name = ''buildah'' then [(LabelPipelineStrategy, ''docker'')]
      else [(LabelPipelineRuntime, Runtime spec)])"

definition runtime_annotations :: "RuntimeSpec \<Rightarrow> (string, string) gomap" where
  "runtime_annotations spec =
     (let annotations = [(AnnotationPreserveNS, ''true'')]
      in if SupportedVersions spec \<noteq> []
         then AList.update AnnotationPipelineSupportedVersions (SupportedVersions spec) annotations
         else annotations)"

definition version_param :: "string \<Rightarrow> string \<Rightarrow> json" where
  "version_param name def = str_obj [(''name'', name), (''type'', ''string''), (''default'', def)]"

text \<open>The two \<open>if spec.Version != ""\<close> blocks, on the parameters of the task and of the pipeline.\<close>

definition add_version :: "string \<Rightarrow> string \<Rightarrow> string \<Rightarrow> string \<Rightarrow> json \<times> json \<Rightarrow> (json \<times> json) res" where
  "add_version version taskParam pipelineParam def = (\<lambda>(taskParams, pipelineParams).
     if version = [] then Ok (taskParams, pipelineParams)
     else res_bind (append_item taskParams (str_obj [(''name'', taskParam), (''value'', version)])) (\<lambda>tp.
          res_bind (append_item pipelineParams (version_param pipelineParam def)) (\<lambda>pp. Ok (tp, pp))))"

text \<open>
  The body of the loop up to the deploy tasks; \<open>Ok None\<close> is the early \<open>return nil, nil\<close>.  \<open>template\<close> is the
  list of the resources of the template manifest.
\<close>

definition base_pipeline :: "obj list \<Rightarrow> bool \<Rightarrow> string \<Rightarrow> RuntimeSpec \<Rightarrow> obj option res" where
  "base_pipeline template usingPipelineResource name spec =
     (case template of
        [] \<Rightarrow> Panic ''index out of range''
      | tmpl # others \<Rightarrow>
          (let contextParamName = (if name = ''buildah'' then ''CONTEXT'' else ''PATH_CONTEXT'');
               u = SetName name (SetLabels (runtime_labels name spec)
                     (SetAnnotations (runtime_annotations spec) tmpl));
               index = (if usingPipelineResource then 0 else 1);
               taskName = (if usingPipelineResource then name @ ''-pr'' else name)
           in res_bind (NestedFieldNoCopy u [''spec'', ''params'']) (\<lambda>found. case found of
                None \<Rightarrow> Ok None
              | Some pipelineParams \<Rightarrow>
                  res_bind (NestedFieldNoCopy u [''spec'', ''tasks'']) (\<lambda>found. case found of
                    None \<Rightarrow> Ok None
                  | Some tasks \<Rightarrow>
                      res_bind (task_at tasks index) (\<lambda>t.
                      (let taskBuild = AList.update ''taskRef'' (cluster_task taskName) t
                       in case map_of taskBuild ''params'' of
                            None \<Rightarrow> Ok None
                          | Some taskParams \<Rightarrow>
                              res_bind (append_item taskParams
                                (str_obj [(''name'', contextParamName), (''value'', ''$(params.PATH_CONTEXT)'')])) (\<lambda>tp.
                              res_bind (add_version (Version spec) ''VERSION'' ''MAJOR_VERSION'' (Default spec)
                                          (tp, pipelineParams)) (\<lambda>ps.
                              res_bind (add_version (MinorVersion spec) ''MINOR_VERSION'' ''MINOR_VERSION''
                                          (Default spec) ps) (\<lambda>(tp, pp).
                              res_bind (SetNestedField u pp [''spec'', ''params'']) (\<lambda>u.
                              Ok (Some (put_task index (AList.update ''params'' tp taskBuild) u))))))))))))"

fun base_loop ::
  "obj list \<Rightarrow> pipeline list \<Rightarrow> bool \<Rightarrow> (string \<times> RuntimeSpec) list \<Rightarrow> obj list \<Rightarrow> obj list res" where
  "base_loop template taskGenerators usingPipelineResource [] pipelines = Ok pipelines"
| "base_loop template taskGenerators usingPipelineResource ((name, spec) # runtimes) pipelines =
     res_bind (base_pipeline template usingPipelineResource name spec) (\<lambda>base. case base of
       None \<Rightarrow> Ok []
     | Some newTempRes \<Rightarrow>
         res_bind (res_mapM (\<lambda>tg. generate tg newTempRes usingPipelineResource) taskGenerators) (\<lambda>ps.
         base_loop template taskGenerators usingPipelineResource runtimes (pipelines @ ps)))"

definition generateBasePipeline ::
  "(string \<times> RuntimeSpec) list \<Rightarrow> obj list \<Rightarrow> pipeline list \<Rightarrow> bool \<Rightarrow> obj list res" where
  "generateBasePipeline runtimes template taskGenerators usingPipelineResource =
     base_loop template taskGenerators usingPipelineResource runtimes []"

section \<open>All pipelines\<close>

definition workspacedTaskGenerators :: "pipeline list" where
  "workspacedTaskGenerators = [
     \<lparr>environment = ''openshift'', nameSuffix = [], generateDeployTask = openshiftDeployTask\<rparr>,
     \<lparr>environment = ''kubernetes'', nameSuffix = ''-deployment'', generateDeployTask = kubernetesDeployTask\<rparr>,
     \<lparr>environment = ''knative'', nameSuffix = ''-knative'', generateDeployTask = knativeDeployTask\<rparr>]"

definition resourcedTaskGenerators :: "pipeline list" where
  "resourcedTaskGenerators = [
     \<lparr>environment = ''openshift'', nameSuffix = [], generateDeployTask = openshiftDeployTask\<rparr>,
     \<lparr>environment = ''kubernetes'', nameSuffix = ''-deployment'', generateDeployTask = kubernetesDeployTask\<rparr>,
     \<lparr>environment = ''knative'', nameSuffix = ''-knative'', generateDeployTask = knativeResourcedDeployTask\<rparr>]"

text \<open>
  \<open>read_template\<close> parses the file with the given path; \<open>order1\<close> and \<open>order2\<close> are the orders of the two
  iterations over \<open>flag.Runtimes\<close>.
\<close>

definition CreatePipelines ::
  "(string \<Rightarrow> go_error + obj list) \<Rightarrow> (string \<times> RuntimeSpec) list \<Rightarrow> (string \<times> RuntimeSpec) list
   \<Rightarrow> string \<Rightarrow> manifest res" where
  "CreatePipelines read_template order1 order2 templatePath =
     res_bind (of_sum (read_template (templatePath @ ''/pipeline_using_workspace.yaml''))) (\<lambda>workspaced.
     res_bind (generateBasePipeline order1 workspaced workspacedTaskGenerators False) (\<lambda>wps.
     res_bind (of_sum (read_template (templatePath @ ''/pipeline_using_resource.yaml''))) (\<lambda>resourced.
     res_bind (generateBasePipeline order2 resourced resourcedTaskGenerators True) (\<lambda>rps.
     Ok \<lparr>resources = wps @ rps, has_client = True\<rparr>))))"

section \<open>Templates\<close>

text \<open>The index of the build task and the deploy task after it.\<close>

definition build_index :: "bool \<Rightarrow> nat" where
  "build_index usingPipelineResource = (if usingPipelineResource then 0 else 1)"

fun has_deploy :: "nat \<Rightarrow> json option res \<Rightarrow> bool" where
  "has_deploy index (Ok (Some (JList tasks))) =
     (index < length tasks \<and> (case tasks ! index of JObj t \<Rightarrow> True | _ \<Rightarrow> False))"
| "has_deploy index r = False"

fun has_build :: "nat \<Rightarrow> json option res \<Rightarrow> bool" where
  "has_build index (Ok (Some (JList tasks))) =
     (index < length tasks \<and> (case tasks ! index of
        JObj t \<Rightarrow> (case map_of t ''params'' of Some (JList ps) \<Rightarrow> True | _ \<Rightarrow> False) | _ \<Rightarrow> False))"
| "has_build index r = False"

fun is_list :: "json option res \<Rightarrow> bool" where
  "is_list (Ok (Some (JList xs))) = True"
| "is_list r = False"

text \<open>What the generator relies on: parameters, a build task with parameters, a deploy task after it.\<close>

definition template_ok :: "bool \<Rightarrow> obj \<Rightarrow> bool" where
  "template_ok pr tmpl \<longleftrightarrow> meta_ok tmpl \<and>
     is_list (NestedFieldNoCopy tmpl [''spec'', ''params'']) \<and>
     has_build (build_index pr) (NestedFieldNoCopy tmpl [''spec'', ''tasks'']) \<and>
     has_deploy (Suc (build_index pr)) (NestedFieldNoCopy tmpl [''spec'', ''tasks''])"

lemma is_listE: "is_list r \<Longrightarrow> (\<And>xs. r = Ok (Some (JList xs)) \<Longrightarrow> thesis) \<Longrightarrow> thesis"
  by (cases r rule: is_list.cases) auto

lemma has_deployE:
  assumes "has_deploy index r"
  obtains tasks t where "r = Ok (Some (JList tasks))" and "index < length tasks" and "tasks ! index = JObj t"
  using assms by (cases "(index, r)" rule: has_deploy.cases) (auto split: json.splits)

lemma has_buildE:
  assumes "has_build index r"
  obtains tasks t ps where "r = Ok (Some (JList tasks))" and "index < length tasks"
    and "tasks ! index = JObj t" and "map_of t ''params'' = Some (JList ps)"
  using assms by (cases "(index, r)" rule: has_build.cases) (auto split: json.splits option.splits)

lemma spec_setters [simp]:
  "NestedFieldNoCopy (SetName n u) (''spec'' # ks) = NestedFieldNoCopy u (''spec'' # ks)"
  "NestedFieldNoCopy (SetLabels l u) (''spec'' # ks) = NestedFieldNoCopy u (''spec'' # ks)"
  "NestedFieldNoCopy (SetAnnotations a u) (''spec'' # ks) = NestedFieldNoCopy u (''spec'' # ks)"
  by (simp_all add: setter_defs NestedFieldNoCopy_put_diverge NestedFieldNoCopy_remove_diverge)

lemma getters_put_task [simp]:
  "GetName (put_task i t u) = GetName u" "GetLabels (put_task i t u) = GetLabels u"
  "GetAnnotations (put_task i t u) = GetAnnotations u" "meta_ok (put_task i t u) = meta_ok u"
  by (simp_all add: put_task_def)

lemma tasks_put_task:
  assumes "NestedFieldNoCopy u [''spec'', ''tasks''] = Ok (Some (JList tasks))"
  shows "NestedFieldNoCopy (put_task i t u) [''spec'', ''tasks''] = Ok (Some (JList (tasks[i := JObj t])))"
  using NestedFieldNoCopy_update_at [OF assms] by (simp add: put_task_def)

text \<open>Setting the parameters of the pipeline.\<close>

lemma set_params:
  assumes "NestedFieldNoCopy u [''spec'', ''params''] = Ok (Some old)"
  shows "\<exists>u'. SetNestedField u pp [''spec'', ''params''] = Ok u' \<and>
    GetName u' = GetName u \<and> GetLabels u' = GetLabels u \<and> GetAnnotations u' = GetAnnotations u \<and>
    meta_ok u' = meta_ok u \<and>
    NestedFieldNoCopy u' [''spec'', ''tasks''] = NestedFieldNoCopy u [''spec'', ''tasks'']"
proof -
  have "set_nested u old [] [''spec'', ''params''] = Ok u"
    using assms by (intro set_nested_same) (simp_all add: NestedFieldNoCopy_def)
  then have "settable u [''spec'', ''params'']" using set_nested_Ok_iff by blast
  then obtain u' where u': "set_nested u pp [] [''spec'', ''params''] = Ok u'"
    using set_nested_Ok_iff by blast
  have frame: "NestedFieldNoCopy u' gs = NestedFieldNoCopy u gs" if "diverge [''spec'', ''params''] gs" for gs
    using nested_walk_set_diverge [OF u' that] by (simp add: NestedFieldNoCopy_def)
  have "settable u' [''metadata'', x] = settable u [''metadata'', x]" for x
    by (rule settable_set_diverge [OF u']) simp
  then have "meta_ok u' = meta_ok u" by (simp add: settable_metadata)
  with u' frame show ?thesis
    by (auto simp: SetNestedField_def intro!: getters_cong)
qed

lemma add_version_lists:
  "\<exists>tp' pp'. add_version v a b d (JList tp, JList pp) = Ok (JList tp', JList pp')"
  by (simp add: add_version_def)

lemma runtime_metadata:
  assumes "meta_ok u" and "name \<noteq> []"
  shows "GetName (SetName name (SetLabels l (SetAnnotations a u))) = name"
    and "GetLabels (SetName name (SetLabels l (SetAnnotations a u))) = Some l"
    and "GetAnnotations (SetName name (SetLabels l (SetAnnotations a u))) = Some a"
  using assms nm.get_set [of "SetLabels l (SetAnnotations a u)" name]
    lb.get_set [of "SetAnnotations a u" "Some l"] an.get_set [of u "Some a"] by simp_all

lemma base_pipeline_ok:
  assumes "template_ok pr tmpl" and "name \<noteq> []"
  shows "\<exists>u. base_pipeline (tmpl # others) pr name spec = Ok (Some u) \<and> GetName u = name \<and> meta_ok u \<and>
    GetLabels u = Some (runtime_labels name spec) \<and> GetAnnotations u = Some (runtime_annotations spec) \<and>
    has_deploy (Suc (build_index pr)) (NestedFieldNoCopy u [''spec'', ''tasks''])"
proof -
  let ?i = "build_index pr" and ?u = "SetName name (SetLabels (runtime_labels name spec) (SetAnnotations (runtime_annotations spec) tmpl))"
  obtain pp where pp: "NestedFieldNoCopy tmpl [''spec'', ''params''] = Ok (Some (JList pp))"
    using assms(1) by (auto simp: template_ok_def elim: is_listE)
  obtain tasks t ps where tasks: "NestedFieldNoCopy tmpl [''spec'', ''tasks''] = Ok (Some (JList tasks))"
    "?i < length tasks" "tasks ! ?i = JObj t" "map_of t ''params'' = Some (JList ps)"
    using assms(1) by (auto simp: template_ok_def elim: has_buildE)
  then obtain dt where dt: "Suc ?i < length tasks" "tasks ! Suc ?i = JObj dt"
    using assms(1) by (auto simp: template_ok_def split: json.splits)
  note meta = runtime_metadata [of tmpl name "runtime_labels name spec" "runtime_annotations spec"]
  have ok: "meta_ok tmpl" "meta_ok ?u" using assms(1) by (simp_all add: template_ok_def)
  let ?t = "AList.update ''taskRef'' (cluster_task (if pr then name @ ''-pr'' else name)) t"
  let ?first = "str_obj [(''name'', if name = ''buildah'' then ''CONTEXT'' else ''PATH_CONTEXT''),
      (''value'', ''$(params.PATH_CONTEXT)'')]"
  obtain tp1 pp1 where 1: "add_version (Version spec) ''VERSION'' ''MAJOR_VERSION'' (Default spec)
      (JList (ps @ [?first]), JList pp) = Ok (JList tp1, JList pp1)"
    using add_version_lists by blast
  obtain tp2 pp2 where 2: "add_version (MinorVersion spec) ''MINOR_VERSION'' ''MINOR_VERSION'' (Default spec)
      (JList tp1, JList pp1) = Ok (JList tp2, JList pp2)"
    using add_version_lists by blast
  obtain v where v: "SetNestedField ?u (JList pp2) [''spec'', ''params''] = Ok v"
    "GetName v = GetName ?u" "GetLabels v = GetLabels ?u" "GetAnnotations v = GetAnnotations ?u"
    "meta_ok v = meta_ok ?u" "NestedFieldNoCopy v [''spec'', ''tasks''] = Ok (Some (JList tasks))"
    using set_params [of ?u "JList pp" "JList pp2"] pp tasks(1) by auto
  let ?v = "put_task ?i (AList.update ''params'' (JList tp2) ?t) v"
  have "base_pipeline (tmpl # others) pr name spec = Ok (Some ?v)"
    using pp tasks 1 2 v(1) by (simp add: base_pipeline_def Let_def build_index_def)
  moreover have "has_deploy (Suc ?i) (NestedFieldNoCopy ?v [''spec'', ''tasks''])"
    using tasks_put_task [OF v(6)] dt by simp
  ultimately show ?thesis using v(2-5) meta [OF ok(1) assms(2)] ok(2) by auto
qed

text \<open>One environment of a base pipeline.\<close>

definition pipeline_name :: "bool \<Rightarrow> string \<Rightarrow> pipeline \<Rightarrow> string" where
  "pipeline_name pr name p = name @ nameSuffix p @ (if pr then ''-pr'' else [])"

lemma generate_ok:
  assumes "meta_ok u" and "GetName u \<noteq> []" and "GetLabels u = Some l"
    and "has_deploy (Suc (build_index pr)) (NestedFieldNoCopy u [''spec'', ''tasks''])"
  shows "\<exists>v. generate p u pr = Ok v \<and> GetName v = pipeline_name pr (GetName u) p \<and>
    GetLabels v = Some (AList.update LabelPipelineEnvironmentType (environment p) l) \<and>
    GetAnnotations v = GetAnnotations u"
proof -
  obtain tasks t where tasks: "NestedFieldNoCopy u [''spec'', ''tasks''] = Ok (Some (JList tasks))"
    "Suc (build_index pr) < length tasks" "tasks ! Suc (build_index pr) = JObj t"
    using assms(4) by (rule has_deployE)
  let ?l = "AList.update LabelPipelineEnvironmentType (environment p) l"
  have name: "GetName (SetName (pipeline_name pr (GetName u) p) (SetLabels ?l u)) = pipeline_name pr (GetName u) p"
    using assms(1,2) by (intro nm.get_set) (simp_all add: pipeline_name_def)
  have labels: "GetLabels (SetLabels ?l u) = Some ?l" using lb.get_set [of u "Some ?l"] assms(1) by simp
  have "generate p u pr = Ok (put_task (Suc (build_index pr)) (generateDeployTask p t)
      (SetName (pipeline_name pr (GetName u) p) (SetLabels ?l u)))"
    using assms(3) tasks
    by (cases pr) (simp_all add: generate_def Let_def build_index_def pipeline_name_def numeral_2_eq_2)
  with name labels show ?thesis by simp
qed

text \<open>What is asked of a generated pipeline.\<close>

definition generated :: "bool \<Rightarrow> string \<Rightarrow> RuntimeSpec \<Rightarrow> pipeline \<Rightarrow> obj \<Rightarrow> bool" where
  "generated pr name spec p v \<longleftrightarrow> GetName v = pipeline_name pr name p \<and>
     GetLabels v = Some (AList.update LabelPipelineEnvironmentType (environment p) (runtime_labels name spec)) \<and>
     GetAnnotations v = Some (runtime_annotations spec)"

lemma base_loop_ok:
  assumes "template_ok pr tmpl" and "\<And>name spec. (name, spec) \<in> set runtimes \<Longrightarrow> name \<noteq> []"
  shows "\<exists>ps. base_loop (tmpl # others) gens pr runtimes acc = Ok (acc @ ps) \<and>
    list_all2 (\<lambda>((name, spec), p) v. generated pr name spec p v) (List.product runtimes gens) ps"
  using assms(2)
proof (induction runtimes arbitrary: acc)
  case (Cons rt runtimes)
  obtain name spec where rt: "rt = (name, spec)" by (cases rt)
  with Cons.prems have "name \<noteq> []" by auto
  from base_pipeline_ok [OF assms(1) this] obtain u where u:
    "base_pipeline (tmpl # others) pr name spec = Ok (Some u)" "GetName u = name" "meta_ok u"
    "GetLabels u = Some (runtime_labels name spec)" "GetAnnotations u = Some (runtime_annotations spec)"
    "has_deploy (Suc (build_index pr)) (NestedFieldNoCopy u [''spec'', ''tasks''])" by blast
  have "\<exists>vs. res_mapM (\<lambda>tg. generate tg u pr) gs = Ok vs \<and> list_all2 (generated pr name spec) gs vs" for gs
  proof (induction gs)
    case (Cons g gs)
    from generate_ok [OF u(3) _ u(4) u(6), of g] u(2,5) \<open>name \<noteq> []\<close>
    obtain v where "generate g u pr = Ok v" "generated pr name spec g v" by (auto simp: generated_def)
    with Cons show ?case by auto
  qed simp
  then obtain vs where vs: "res_mapM (\<lambda>tg. generate tg u pr) gens = Ok vs"
    "list_all2 (generated pr name spec) gens vs" by blast
  from Cons obtain ps where ps: "base_loop (tmpl # others) gens pr runtimes (acc @ vs) = Ok ((acc @ vs) @ ps)"
    "list_all2 (\<lambda>((name, spec), p) v. generated pr name spec p v) (List.product runtimes gens) ps"
    by fastforce
  have "list_all2 (\<lambda>((name, spec), p) v. generated pr name spec p v) (List.map (Pair rt) gens) vs"
    using vs(2) rt by (simp add: list_all2_map1)
  with u(1) vs(1) ps rt show ?case
    by (intro exI [of _ "vs @ ps"]) (simp add: list_all2_appendI)
qed simp

lemma generated_names:
  assumes "list_all2 (\<lambda>((name, spec), p) v. generated pr name spec p v) rps ps"
  shows "List.map GetName ps = List.map (\<lambda>((name, spec), p). pipeline_name pr name p) rps"
  using assms by (induction rule: list_all2_induct) (auto simp: generated_def)

lemma generated_preserves:
  assumes "list_all2 (\<lambda>((name, spec), p) v. generated pr name spec p v) rps ps" and "v \<in> set ps"
  shows "lookup_nil (GetAnnotations v) AnnotationPreserveNS = Some ''true''"
proof -
  from assms obtain rp where "case rp of ((name, spec), p) \<Rightarrow> generated pr name spec p v"
    by (auto simp: list_all2_conv_all_nth in_set_conv_nth)
  then obtain name spec p where "generated pr name spec p v" by (auto split: prod.splits)
  then show ?thesis
    by (simp add: generated_def runtime_annotations_def lookup_nil_def AnnotationPreserveNS_def
        AnnotationPipelineSupportedVersions_def Let_def)
qed

text \<open>The names of the generated pipelines, in any order of the runtimes.\<close>

definition pipeline_names :: "bool \<Rightarrow> (string \<times> RuntimeSpec) list \<Rightarrow> pipeline list \<Rightarrow> string list" where
  "pipeline_names pr runtimes gens =
     concat (List.map (\<lambda>rt. List.map (pipeline_name pr (fst rt)) gens) runtimes)"

lemma names_product:
  "List.map (\<lambda>((name, spec), p). pipeline_name pr name p) (List.product runtimes gens) =
   pipeline_names pr runtimes gens"
  by (induction runtimes) (auto simp: pipeline_names_def)

lemma mset_pipeline_names:
  assumes "mset runtimes = mset runtimes'"
  shows "mset (pipeline_names pr runtimes gens) = mset (pipeline_names pr runtimes' gens)"
proof -
  have "mset (pipeline_names pr xs gens) =
      \<Sum>\<^sub># (image_mset (\<lambda>rt. mset (List.map (pipeline_name pr (fst rt)) gens)) (mset xs))" for xs
    by (induction xs) (simp_all add: pipeline_names_def)
  with assms show ?thesis by simp
qed

lemma Runtimes_names:
  "distinct (pipeline_names False Runtimes workspacedTaskGenerators @
             pipeline_names True Runtimes resourcedTaskGenerators)"
  "length (pipeline_names False Runtimes workspacedTaskGenerators @
           pipeline_names True Runtimes resourcedTaskGenerators) = 60"
  by code_simp+

lemma Runtimes_named: "(name, spec) \<in> set Runtimes \<Longrightarrow> name \<noteq> []"
  by (auto simp: Runtimes_def)

section \<open>Properties\<close>

text \<open>C25:
  From a template with parameters, a build task with parameters and a deploy task, the generator never
  panics and never fails: it makes exactly one pipeline for every runtime and every environment, named
  after both, labelled with the environment and the runtime (or the strategy), and annotated with the
  supported versions and to stay in its namespace.
\<close>

theorem generateBasePipeline_total:
  assumes "template_ok pr tmpl" and "\<forall>rt \<in> set runtimes. fst rt \<noteq> []"
  shows "\<exists>ps. generateBasePipeline runtimes (tmpl # others) gens pr = Ok ps \<and>
     list_all2 (\<lambda>((name, spec), p) v.
        GetName v = name @ nameSuffix p @ (if pr then ''-pr'' else []) \<and>
        GetLabels v = Some (AList.update LabelPipelineEnvironmentType (environment p) (runtime_labels name spec)) \<and>
        GetAnnotations v = Some (runtime_annotations spec))
       (List.product runtimes gens) ps"
proof -
  have "name \<noteq> []" if "(name, spec) \<in> set runtimes" for name spec using assms(2) that by auto
  from base_loop_ok [OF assms(1) this, where others = others and gens = gens and acc = "[]"] show ?thesis
    by (auto simp: generateBasePipeline_def generated_def [abs_def] pipeline_name_def)
qed

text \<open>C26:
  Whatever order Go iterates the runtimes in, \<open>CreatePipelines\<close> makes 60 pipelines from two well-formed
  templates, no two of them with the same name, and all of them annotated to stay in their namespace.
\<close>

theorem CreatePipelines_distinct:
  assumes "read_template (path @ ''/pipeline_using_workspace.yaml'') = Inr (tmpl1 # others1)"
    and "read_template (path @ ''/pipeline_using_resource.yaml'') = Inr (tmpl2 # others2)"
    and "template_ok False tmpl1" and "template_ok True tmpl2"
    and "mset order1 = mset Runtimes" and "mset order2 = mset Runtimes"
  shows "\<exists>m. CreatePipelines read_template order1 order2 path = Ok m \<and> length (resources m) = 60 \<and>
     distinct (List.map GetName (resources m)) \<and>
     (\<forall>v \<in> set (resources m). lookup_nil (GetAnnotations v) AnnotationPreserveNS = Some ''true'')"
proof -
  have named: "name \<noteq> []" if "(name, spec) \<in> set order" "mset order = mset Runtimes" for name spec order
    using that Runtimes_named mset_eq_setD by blast
  obtain wps where wps: "generateBasePipeline order1 (tmpl1 # others1) workspacedTaskGenerators False = Ok wps"
    "list_all2 (\<lambda>((name, spec), p) v. generated False name spec p v)
       (List.product order1 workspacedTaskGenerators) wps"
    using base_loop_ok [OF assms(3), of order1 others1 workspacedTaskGenerators "[]"] named assms(5)
    by (auto simp: generateBasePipeline_def)
  obtain rps where rps: "generateBasePipeline order2 (tmpl2 # others2) resourcedTaskGenerators True = Ok rps"
    "list_all2 (\<lambda>((name, spec), p) v. generated True name spec p v)
       (List.product order2 resourcedTaskGenerators) rps"
    using base_loop_ok [OF assms(4), of order2 others2 resourcedTaskGenerators "[]"] named assms(6)
    by (auto simp: generateBasePipeline_def)
  have "List.map GetName (wps @ rps) =
      pipeline_names False order1 workspacedTaskGenerators @ pipeline_names True order2 resourcedTaskGenerators"
    using generated_names [OF wps(2)] generated_names [OF rps(2)] by (simp add: names_product)
  then have names: "mset (List.map GetName (wps @ rps)) = mset (pipeline_names False Runtimes workspacedTaskGenerators @
      pipeline_names True Runtimes resourcedTaskGenerators)"
    using mset_pipeline_names [OF assms(5)] mset_pipeline_names [OF assms(6)] by simp
  have "distinct (List.map GetName (wps @ rps))"
    using mset_eq_imp_distinct_iff [OF names] Runtimes_names(1) by simp
  moreover have "length (wps @ rps) = 60"
    using mset_eq_length [OF names] Runtimes_names(2) by simp
  moreover have "CreatePipelines read_template order1 order2 path = Ok \<lparr>resources = wps @ rps, has_client = True\<rparr>"
    using assms(1,2) wps(1) rps(1) by (simp add: CreatePipelines_def)
  ultimately show ?thesis
    using generated_preserves [OF wps(2)] generated_preserves [OF rps(2)] by auto
qed

text \<open>
  A template without parameters, or whose build task has none, silently gives no pipelines at all: the
  result is empty and there is no error.
\<close>

theorem generateBasePipeline_drops_all:
  assumes "meta_ok tmpl" and "NestedFieldNoCopy tmpl [''spec'', ''params''] = Ok None \<or>
      (\<exists>ps tasks t. NestedFieldNoCopy tmpl [''spec'', ''params''] = Ok (Some ps) \<and>
        NestedFieldNoCopy tmpl [''spec'', ''tasks''] = Ok (Some tasks) \<and>
        task_at tasks (build_index pr) = Ok t \<and> map_of t ''params'' = None)"
  shows "generateBasePipeline (rt # runtimes) (tmpl # others) gens pr = Ok []"
  using assms(2)
  by (cases rt) (auto simp: generateBasePipeline_def base_pipeline_def Let_def build_index_def)

section \<open>Witnesses\<close>

definition sample_template :: "bool \<Rightarrow> obj" where
  "sample_template pr =
     (let fetch = JObj [(''name'', JStr ''fetch-repository'')];
          build = JObj [(''name'', JStr ''build''), (''taskRef'', JObj [(''kind'', JStr ''ClusterTask'')]),
            (''params'', JList [JObj [(''name'', JStr ''TLSVERIFY''), (''value'', JStr ''false'')]])];
          deploy = JObj [(''name'', JStr ''deploy'')]
      in [(''kind'', JStr ''Pipeline''), (''metadata'', JObj [(''namespace'', JStr ''openshift'')]),
          (''spec'', JObj [(''params'', JList [JObj [(''name'', JStr ''APP_NAME'')]]),
             (''tasks'', JList (if pr then [build, deploy] else [fetch, build, deploy]))])])"

lemma sample_template_ok: "template_ok False (sample_template False)" "template_ok True (sample_template True)"
  by code_simp+

theorem generateBasePipeline_total_witness:
  "\<exists>ps. generateBasePipeline Runtimes [sample_template False] workspacedTaskGenerators False = Ok ps \<and>
     length ps = 30"
proof -
  have "\<forall>rt \<in> set Runtimes. fst rt \<noteq> []" by (simp add: Runtimes_def)
  from generateBasePipeline_total [OF sample_template_ok(1) this, of "[]" workspacedTaskGenerators]
  obtain ps where "generateBasePipeline Runtimes [sample_template False] workspacedTaskGenerators False = Ok ps"
    "length ps = length (List.product Runtimes workspacedTaskGenerators)"
    by (auto dest: list_all2_lengthD)
  then show ?thesis by (simp add: Runtimes_def workspacedTaskGenerators_def)
qed

theorem CreatePipelines_distinct_witness:
  "\<exists>m. CreatePipelines (\<lambda>path. Inr [sample_template (path = TemplatePath @ ''/pipeline_using_resource.yaml'')])
        Runtimes (rev Runtimes) TemplatePath = Ok m \<and> length (resources m) = 60"
  using CreatePipelines_distinct [of "\<lambda>path. Inr [sample_template (path = TemplatePath @ ''/pipeline_using_resource.yaml'')]"
      TemplatePath "sample_template False" "[]" "sample_template True" "[]" Runtimes "rev Runtimes"]
    sample_template_ok by auto

theorem generateBasePipeline_drops_all_witness:
  "generateBasePipeline Runtimes [[(''kind'', JStr ''Pipeline''), (''spec'', JObj [(''tasks'', JList [])])]]
     workspacedTaskGenerators False = Ok []"
proof -
  let ?tmpl = "[(''kind'', JStr ''Pipeline''), (''spec'', JObj [(''tasks'', JList [])])]"
  have "meta_ok ?tmpl" "NestedFieldNoCopy ?tmpl [''spec'', ''params''] = Ok None"
    by code_simp+
  then show ?thesis
    unfolding Runtimes_def by (intro generateBasePipeline_drops_all) simp_all
qed

end
