(* ===== verification/ConfigSetup.thy ===== *)
theory ConfigSetup imports Samples Addons Watches begin

text \<open>
  The start of the config controller: \<open>newReconciler\<close> reads the manifests, \<open>add\<close> registers the controller
  and creates the Config (\<open>config_controller.go\<close>), \<open>AddToManager\<close> runs every controller's \<open>Add\<close>
  (\<open>pkg/controller/controller.go\<close>).

  \<open>host\<close> is what the operator starts in: \<open>parse\<close> stands for \<open>Source.Parse\<close> of manifestival (files and
  URLs), \<open>crd_client\<close> and \<open>get_crd\<close> for the API extensions clientset, the rest for the manager of the
  controller runtime; \<open>H_scheme\<close> is its scheme, from which the second watch takes the kind of the owners.
\<close>

text \<open>\<open>mf.Path\<close> and \<open>mf.Recursive\<close>.\<close>

datatype mf_source = Path string | Recursive_path string

record ('w, 'c) host =
  H_flags :: flags
  H_platform :: platform
  H_client :: "'w client"
  parse :: "mf_source \<Rightarrow> 'w \<Rightarrow> (go_error + obj list) \<times> 'w"
  crd_client :: "'w \<Rightarrow> (go_error + 'c) \<times> 'w"
  get_crd :: "'c \<Rightarrow> string \<Rightarrow> 'w \<Rightarrow> (go_error + unit) \<times> 'w"
  runtimes1 :: "(string \<times> RuntimeSpec) list"
  runtimes2 :: "(string \<times> RuntimeSpec) list"
  new_controller :: "'w \<Rightarrow> (go_error + unit) \<times> 'w"
  H_scheme :: scheme
  watch_configs :: "'w \<Rightarrow> (go_error + unit) \<times> 'w"
  watch_deployments :: "'w \<Rightarrow> (go_error + unit) \<times> 'w"

text \<open>A step of the world that is not a call to the cluster.\<close>

definition outside :: "('w \<Rightarrow> (go_error + 'a) \<times> 'w) \<Rightarrow> (('w, 'z) cluster_scheme, 'a) go" where
  "outside f = (\<lambda>s. case f (world s) of (r, w) \<Rightarrow> (of_sum r, s\<lparr>world := w\<rparr>))"

definition outside_res :: "('w \<Rightarrow> 'a res \<times> 'w) \<Rightarrow> (('w, 'z) cluster_scheme, 'a) go" where
  "outside_res f = (\<lambda>s. case f (world s) of (r, w) \<Rightarrow> (r, s\<lparr>world := w\<rparr>))"

text \<open>\<open>filepath.Join\<close> and \<open>path.Join\<close> of a clean path and a name.\<close>

definition Join_path :: "string \<Rightarrow> string \<Rightarrow> string" where
  "Join_path dir name = dir @ ''/'' @ name"

definition sourceBasedOnRecursion :: "flags \<Rightarrow> string \<Rightarrow> mf_source" where
  "sourceBasedOnRecursion F path = (if Recursive F then Recursive_path path else Path path)"

text \<open>\<open>mf.ManifestFrom(src, mf.UseClient(...))\<close>: the manifest has its client also when parsing fails.\<close>

definition ManifestFrom ::
  "('w, 'c) host \<Rightarrow> mf_source \<Rightarrow> (('w, 'z) cluster_scheme, manifest) go" where
  "ManifestFrom H src =
     go_bind (outside (parse H src)) (\<lambda>rs. go_return \<lparr>resources = rs, has_client = True\<rparr>)"

definition fetchCommuntiyResources ::
  "('w, 'c) host \<Rightarrow> (('w, 'z) cluster_scheme, manifest) go" where
  "fetchCommuntiyResources H =
     (if SkipNonRedHatResources (H_flags H) then go_return emptyManifest
      else if GOARCH (H_platform H) = ''ppc64le'' \<or> GOARCH (H_platform H) = ''s390x''
        then go_return emptyManifest
      else ManifestFrom H (sourceBasedOnRecursion (H_flags H) (Join CommunityResourceURLs '','')))"

definition readOptional :: "('w, 'c) host \<Rightarrow> (('w, 'z) cluster_scheme, manifest) go" where
  "readOptional H =
     go_bind (outside_res (CRD (crd_client H) (get_crd H) ''consoleyamlsamples.console.openshift.io''))
       (\<lambda>consoleCRDinstalled.
          if consoleCRDinstalled
          then ManifestFrom H (sourceBasedOnRecursion (H_flags H) (Join_path (ResourceDir (H_flags H)) ''optional''))
          else go_return emptyManifest)"

text \<open>
  The templates are read by \<open>mf.NewManifest\<close>, a \<open>Path\<close> whatever the flag \<open>recursive\<close> says; the two reads
  come in the order of the code, the second only when the first template has been expanded.
\<close>

definition create_pipelines :: "('w, 'c) host \<Rightarrow> (('w, 'z) cluster_scheme, manifest) go" where
  "create_pipelines H =
     go_bind (outside (parse H (Path (Join_path TemplatePath ''pipeline_using_workspace.yaml'')))) (\<lambda>workspaced.
     go_bind (go_lift (generateBasePipeline (runtimes1 H) workspaced workspacedTaskGenerators False)) (\<lambda>wps.
     go_bind (outside (parse H (Path (Join_path TemplatePath ''pipeline_using_resource.yaml'')))) (\<lambda>resourced.
     go_bind (go_lift (generateBasePipeline (runtimes2 H) resourced resourcedTaskGenerators True)) (\<lambda>rps.
     go_return \<lparr>resources = wps @ rps, has_client = True\<rparr>))))"

definition readAddons :: "('w, 'c) host \<Rightarrow> (('w, 'z) cluster_scheme, manifest) go" where
  "readAddons H =
     go_bind (ManifestFrom H (sourceBasedOnRecursion (H_flags H) (Join_path (ResourceDir (H_flags H)) ''addons'')))
       (\<lambda>addons.
     go_bind (readOptional H) (\<lambda>optionalResources.
     go_bind (create_pipelines H) (\<lambda>addonPipelineTemplates.
     go_return (Append (Append addons [optionalResources]) [addonPipelineTemplates]))))"

text \<open>The manifests of the struct \<open>ReconcileConfig\<close>.\<close>

record ReconcileConfig =
  rc_pipeline :: manifest
  rc_triggers :: manifest
  rc_addons :: manifest
  rc_community :: manifest

definition newReconciler :: "('w, 'c) host \<Rightarrow> (('w, 'z) cluster_scheme, ReconcileConfig) go" where
  "newReconciler H =
     (let read = (\<lambda>dir. ManifestFrom H (sourceBasedOnRecursion (H_flags H)
                    (Join_path (ResourceDir (H_flags H)) dir)))
      in go_bind (read ''pipelines'') (\<lambda>pipeline.
         go_bind (read ''triggers'') (\<lambda>triggers.
         go_bind (readAddons H) (\<lambda>addons.
         go_bind (go_catch (fetchCommuntiyResources H) (\<lambda>err. go_return emptyManifest) go_return) (\<lambda>community.
         go_return \<lparr>rc_pipeline = pipeline, rc_triggers = triggers, rc_addons = addons,
                     rc_community = community\<rparr>)))))"

text \<open>The Config the operator creates for itself.\<close>

definition new_config :: "flags \<Rightarrow> Config" where
  "new_config F = zeroConfig\<lparr>Cfg_owner := (Cfg_owner zeroConfig)\<lparr>owner_name := ResourceWatched F\<rparr>,
     Cfg_TargetNamespace := TargetNamespace F\<rparr>"

definition createCR :: "('w, 'c) host \<Rightarrow> (('w, 'z) cluster_scheme, unit) go" where
  "createCR H =
     (let cr = new_config (H_flags H)
      in go_catch (call (create_config (H_client H) cr) (CreateConfig cr))
           (\<lambda>err. if IsAlreadyExists err then go_return () else go_fail err) go_return)"

definition add_controller :: "('w, 'c) host \<Rightarrow> (('w, 'z) cluster_scheme, unit) go" where
  "add_controller H =
     go_bind (outside (new_controller H)) (\<lambda>u.
     go_bind (outside (watch_configs H)) (\<lambda>u.
     go_bind (go_lift (parseOwnerTypeGroupKind (H_scheme H) (v1alpha1_type ''Config''))) (\<lambda>gk.
     go_bind (outside (watch_deployments H)) (\<lambda>u.
     if NoAutoInstall (H_flags H) then go_return () else createCR H))))"

definition Add :: "('w, 'c) host \<Rightarrow> (('w, 'z) cluster_scheme, ReconcileConfig) go" where
  "Add H = go_bind (newReconciler H) (\<lambda>rec. go_bind (add_controller H) (\<lambda>u. go_return rec))"

text \<open>\<open>AddToManager\<close> on the list \<open>AddToManagerFuncs\<close>.\<close>

definition AddToManager :: "(('w, 'z) cluster_scheme, unit) go list \<Rightarrow> (('w, 'z) cluster_scheme, unit) go" where
  "AddToManager funcs = go_foreach (\<lambda>f. f) funcs"

section \<open>Facts\<close>

lemma emits_outside: "emits P (outside f)"
  by (rule em.keepsI) (simp add: outside_def appends_def split: prod.split)

lemma emits_outside_res: "emits P (outside_res f)"
  by (rule em.keepsI) (simp add: outside_res_def appends_def split: prod.split)

lemmas setup_intros = emits_intros emits_outside emits_outside_res

lemma emits_ManifestFrom: "emits P (ManifestFrom H src)"
  unfolding ManifestFrom_def by (intro setup_intros)

lemma emits_newReconciler: "emits P (newReconciler H)"
  unfolding newReconciler_def readAddons_def readOptional_def create_pipelines_def
    fetchCommuntiyResources_def Let_def
  by (intro setup_intros emits_ManifestFrom)

lemma emits_createCR: "(\<And>e. P (CreateConfig (new_config (H_flags H)) e)) \<Longrightarrow> emits P (createCR H)"
  unfolding createCR_def Let_def by (intro setup_intros)

text \<open>With files that reading does not change, \<open>create_pipelines\<close> is \<open>CreatePipelines\<close>.\<close>

lemma create_pipelines_pure:
  assumes "\<And>p w. parse H (Path p) w = (read_template p, w)"
  shows "create_pipelines H s =
    (CreatePipelines read_template (runtimes1 H) (runtimes2 H) TemplatePath, s)"
  by (simp add: create_pipelines_def CreatePipelines_def Join_path_def outside_def assms go_bind_eq_cases
      go_lift_def go_return_def split: sum.split res.split)

section \<open>Properties\<close>


text \<open>
  Failing to read the community manifest does not stop the operator: when the other manifests can be read,
  \<open>newReconciler\<close> succeeds with an empty community manifest; with the flag \<open>skip-non-redhat\<close> and on the
  architectures ppc64le and s390x nothing is fetched at all.
\<close>

theorem newReconciler_community:
  assumes "newReconciler H s = (r, s')"
    and "go_bind (ManifestFrom H (sourceBasedOnRecursion (H_flags H) (Join_path (ResourceDir (H_flags H)) ''pipelines''))) (\<lambda>p.
         go_bind (ManifestFrom H (sourceBasedOnRecursion (H_flags H) (Join_path (ResourceDir (H_flags H)) ''triggers''))) (\<lambda>t.
         go_bind (readAddons H) (\<lambda>a. go_return (p, t, a)))) s = (Ok (p, t, a), s'')"
  shows "\<exists>rec. r = Ok rec \<and> rc_pipeline rec = p \<and> rc_triggers rec = t \<and> rc_addons rec = a \<and>
     (if SkipNonRedHatResources (H_flags H) \<or> GOARCH (H_platform H) \<in> {''ppc64le'', ''s390x''}
      then rc_community rec = emptyManifest \<and> s' = s''
      else case parse H (sourceBasedOnRecursion (H_flags H) (Join CommunityResourceURLs '','')) (world s'') of
        (Inr rs, w) \<Rightarrow> rc_community rec = \<lparr>resources = rs, has_client = True\<rparr> \<and> world s' = w
      | (Inl e, w) \<Rightarrow> rc_community rec = emptyManifest \<and> world s' = w)"
  using assms
  by (auto simp: newReconciler_def Let_def go_bind_eq_cases go_catch_eq_cases go_return_def
      fetchCommuntiyResources_def ManifestFrom_def outside_def split: prod.splits res.splits sum.splits if_splits)

section \<open>Witnesses\<close>

text \<open>The type of the Config is all the setup looks up in the scheme.\<close>

definition sample_types :: scheme where
  "sample_types = NewScheme\<lparr>typeToGVK := [(v1alpha1_type ''Config'', [WithKind SchemeGroupVersion ''Config''])]\<rparr>"

lemma Add_scheme:
  assumes "parseOwnerTypeGroupKind sch (v1alpha1_type ''Config'') =
      parseOwnerTypeGroupKind (H_scheme H) (v1alpha1_type ''Config'')"
  shows "Add (H\<lparr>H_scheme := sch\<rparr>) = Add H"
  using assms
  by (simp add: Add_def newReconciler_def add_controller_def createCR_def ManifestFrom_def readAddons_def
      readOptional_def create_pipelines_def fetchCommuntiyResources_def cong: if_cong)

text \<open>A host whose files and URLs can be read, but for the community's.\<close>

definition sample_host :: "(store, unit) host" where
  "sample_host = \<lparr>H_flags = flag_init (Inr []), H_platform = \<lparr>Environ = [], GOARCH = ''amd64''\<rparr>,
     H_client = sample_client,
     parse = (\<lambda>src st. (case src of
        Path p \<Rightarrow> Inr [sample_template (p = Join_path TemplatePath ''pipeline_using_resource.yaml'')]
      | Recursive_path p \<Rightarrow>
          if HasPrefix p ''https'' then Inl (PlainError ''no route to host'') else Inr [sample_object ''Task'' p], st)),
     crd_client = (\<lambda>st. (Inr (), st)), get_crd = (\<lambda>c n st. (Inr (), st)),
     runtimes1 = Runtimes, runtimes2 = rev Runtimes,
     new_controller = (\<lambda>st. (Inr (), st)), H_scheme = sample_types,
     watch_configs = (\<lambda>st. (Inr (), st)),
     watch_deployments = (\<lambda>st. (Inr (), st))\<rparr>"


end
