(* ===== verification/CommandLine.thy ===== *)
theory CommandLine imports Flags "HOL-Library.List_Lexorder" "HOL-Library.Char_ord" begin

text \<open>
  The command line: the flag set that \<open>init\<close> of \<open>pkg/flag/flag.go\<close> declares, the one \<open>main\<close> puts together,
  and the parser of pflag it is parsed with.

  A flag's \<open>Value\<close> is an interface; of it the parser uses \<open>Set\<close>, which here is a program on the variables of
  the process.  No flag is deprecated and no normalisation function is set, so both are left out, as
  are the usage texts.  The flags of zap and of Go's package \<open>flag\<close> are arguments.
\<close>

section \<open>Flags and flag sets\<close>

record 's Flag =
  Fl_Name :: string
  Fl_Shorthand :: string
  Fl_NoOptDefVal :: string
  Fl_Set :: "string \<Rightarrow> ('s, unit) go"

record 's FlagSet =
  formal :: "(string, 's Flag) gomap"
  shorthands :: "(char, 's Flag) gomap"
  interspersed :: bool
  UnknownFlags :: bool

definition NewFlagSet :: "'s FlagSet" where
  "NewFlagSet = \<lparr>formal = [], shorthands = [], interspersed = True, UnknownFlags = False\<rparr>"

definition AddFlag :: "'s FlagSet \<Rightarrow> 's Flag \<Rightarrow> 's FlagSet res" where
  "AddFlag f flag =
     (if map_of (formal f) (Fl_Name flag) \<noteq> None then Panic (''flag redefined: '' @ Fl_Name flag)
      else let f = f\<lparr>formal := formal f @ [(Fl_Name flag, flag)]\<rparr>
           in case Fl_Shorthand flag of
                [] \<Rightarrow> Ok f
              | [c] \<Rightarrow>
                  if map_of (shorthands f) c \<noteq> None
                  then Panic (''unable to redefine '' @ quoted [c] @ '' shorthand'')
                  else Ok (f\<lparr>shorthands := shorthands f @ [(c, flag)]\<rparr>)
              | cs \<Rightarrow> Panic (quoted cs @ '' shorthand is more than one ASCII character''))"

text \<open>\<open>VisitAll\<close> goes through the flags sorted by name.\<close>

definition VisitAll :: "'s FlagSet \<Rightarrow> 's Flag list" where
  "VisitAll f = List.map snd (sort_key fst (formal f))"

text \<open>The body of the loops of \<open>AddFlagSet\<close> and \<open>AddGoFlagSet\<close>: a flag that is there already is ignored.\<close>

definition AddMissing :: "'s Flag \<Rightarrow> 's FlagSet \<Rightarrow> 's FlagSet res" where
  "AddMissing flag f = (if map_of (formal f) (Fl_Name flag) = None then AddFlag f flag else Ok f)"

definition AddFlagSet :: "'s FlagSet \<Rightarrow> 's FlagSet \<Rightarrow> 's FlagSet res" where
  "AddFlagSet f newSet = res_fold AddMissing (VisitAll newSet) f"

text \<open>A flag of Go's package \<open>flag\<close>; \<open>VisitAll\<close> of that package is sorted, too.\<close>

record 's GoFlag =
  Go_Name :: string
  IsBoolFlag :: bool
  Go_Set :: "string \<Rightarrow> ('s, unit) go"

definition PFlagFromGoFlag :: "'s GoFlag \<Rightarrow> 's Flag" where
  "PFlagFromGoFlag goflag = \<lparr>Fl_Name = Go_Name goflag,
     Fl_Shorthand = (if length (Go_Name goflag) = 1 then Go_Name goflag else []),
     Fl_NoOptDefVal = (if IsBoolFlag goflag then ''true'' else []), Fl_Set = Go_Set goflag\<rparr>"

definition AddGoFlagSet :: "'s FlagSet \<Rightarrow> 's GoFlag list \<Rightarrow> 's FlagSet res" where
  "AddGoFlagSet f newSet = res_fold AddMissing (List.map PFlagFromGoFlag (sort_key Go_Name newSet)) f"

section \<open>The flags of the operator\<close>

text \<open>The package variables and whatever other flags set.\<close>

record 'v variables =
  v_flags :: flags
  v_rest :: 'v

text \<open>\<open>strconv.ParseBool\<close>; \<open>boolValue.Set\<close> stores false when the text is not a truth value.\<close>

definition ParseBool :: "string \<Rightarrow> go_error + bool" where
  "ParseBool s =
     (if s \<in> {''1'', ''t'', ''T'', ''TRUE'', ''true'', ''True''} then Inr True
      else if s \<in> {''0'', ''f'', ''F'', ''FALSE'', ''false'', ''False''} then Inr False
      else Inl (PlainError (''strconv.ParseBool: parsing '' @ quoted s @ '': invalid syntax'')))"

definition StringVar :: "(string \<Rightarrow> 's \<Rightarrow> 's) \<Rightarrow> string \<Rightarrow> 's Flag" where
  "StringVar store name = \<lparr>Fl_Name = name, Fl_Shorthand = [], Fl_NoOptDefVal = [],
     Fl_Set = (\<lambda>val. go_modify (store val))\<rparr>"

definition BoolVar :: "(bool \<Rightarrow> 's \<Rightarrow> 's) \<Rightarrow> string \<Rightarrow> 's Flag" where
  "BoolVar store name = \<lparr>Fl_Name = name, Fl_Shorthand = [], Fl_NoOptDefVal = ''true'',
     Fl_Set = (\<lambda>val. case ParseBool val of
        Inr v \<Rightarrow> go_modify (store v)
      | Inl err \<Rightarrow> go_bind (go_modify (store False)) (\<lambda>u. go_fail err))\<rparr>"

abbreviation in_flags :: "(flags \<Rightarrow> flags) \<Rightarrow> 'v variables \<Rightarrow> 'v variables" where
  "in_flags f s \<equiv> s\<lparr>v_flags := f (v_flags s)\<rparr>"

definition operator_flags :: "'v variables Flag list" where
  "operator_flags = [
     StringVar (\<lambda>v. in_flags (\<lambda>F. F\<lparr>PipelineSA := v\<rparr>)) ''rbac-sa'',
     StringVar (\<lambda>v. in_flags (\<lambda>F. F\<lparr>IgnorePattern := v\<rparr>)) ''ignore-ns-matching'',
     StringVar (\<lambda>v. in_flags (\<lambda>F. F\<lparr>ResourceWatched := v\<rparr>)) ''watch-resource'',
     StringVar (\<lambda>v. in_flags (\<lambda>F. F\<lparr>TargetNamespace := v\<rparr>)) ''target-namespace'',
     StringVar (\<lambda>v. in_flags (\<lambda>F. F\<lparr>ResourceDir := v\<rparr>)) ''resource-dir'',
     BoolVar (\<lambda>v. in_flags (\<lambda>F. F\<lparr>NoAutoInstall := v\<rparr>)) ''no-auto-install'',
     BoolVar (\<lambda>v. in_flags (\<lambda>F. F\<lparr>SkipNonRedHatResources := v\<rparr>)) ''skip-non-redhat'',
     BoolVar (\<lambda>v. in_flags (\<lambda>F. F\<lparr>Recursive := v\<rparr>)) ''recursive'']"

definition operator_FlagSet :: "'v variables FlagSet res" where
  "operator_FlagSet = res_fold (\<lambda>flag f. AddFlag f flag) operator_flags NewFlagSet"

text \<open>\<open>pflag.CommandLine\<close> as \<open>main\<close> fills it.\<close>

definition command_line ::
  "'v variables FlagSet \<Rightarrow> 'v variables GoFlag list \<Rightarrow> 'v variables FlagSet res" where
  "command_line zap gos =
     res_bind (AddFlagSet NewFlagSet zap) (\<lambda>f.
     res_bind (AddGoFlagSet f gos) (\<lambda>f.
     res_bind operator_FlagSet (\<lambda>ops. AddFlagSet f ops)))"

section \<open>The parser\<close>

text \<open>The variables, and the fields \<open>args\<close>, \<open>argsLenAtDash\<close> and \<open>actual\<close> (its keys) of the flag set.\<close>

record 's parsing =
  p_vars :: 's
  p_args :: "string list"
  p_dash :: int
  p_actual :: "string list"

definition on_vars :: "('s, 'a) go \<Rightarrow> ('s parsing, 'a) go" where
  "on_vars m = (\<lambda>s. case m (p_vars s) of (r, v) \<Rightarrow> (r, s\<lparr>p_vars := v\<rparr>))"

definition flagName :: "'s Flag \<Rightarrow> string" where
  "flagName flag =
     (if Fl_Shorthand flag \<noteq> [] then ''-'' @ Fl_Shorthand flag @ '', --'' @ Fl_Name flag else ''--'' @ Fl_Name flag)"

definition set_flag :: "'s FlagSet \<Rightarrow> string \<Rightarrow> string \<Rightarrow> ('s parsing, unit) go" where
  "set_flag f name val = (case map_of (formal f) name of
       None \<Rightarrow> go_fail (PlainError (''no such flag -'' @ name))
     | Some flag \<Rightarrow> go_catch (on_vars (Fl_Set flag val))
         (\<lambda>err. go_fail (PlainError (''invalid argument '' @ quoted val @ '' for '' @ quoted (flagName flag)
            @ '' flag: '' @ Error_string err)))
         (\<lambda>u. go_modify (\<lambda>s. if name \<in> set (p_actual s) then s else s\<lparr>p_actual := p_actual s @ [name]\<rparr>)))"

definition ErrHelp :: go_error where
  "ErrHelp = PlainError ''pflag: help requested''"

fun stripUnknownFlagValue :: "string list \<Rightarrow> string list" where
  "stripUnknownFlagValue [] = []"
| "stripUnknownFlagValue (first # rest) =
     (if first \<noteq> [] \<and> hd first = CHR ''-'' then first # rest else rest)"

text \<open>\<open>strings.SplitN(name, "=", 2)\<close>.\<close>

definition split_value :: "string \<Rightarrow> string \<times> string option" where
  "split_value name = (takeWhile (\<lambda>c. c \<noteq> CHR ''='') name,
     case dropWhile (\<lambda>c. c \<noteq> CHR ''='') name of [] \<Rightarrow> None | c # val \<Rightarrow> Some val)"

text \<open>The value of the parsers of one argument is the rest of the arguments.\<close>

definition parseLongArg :: "'s FlagSet \<Rightarrow> string \<Rightarrow> string list \<Rightarrow> ('s parsing, string list) go" where
  "parseLongArg f s args =
     (if drop 2 s = [] \<or> hd (drop 2 s) \<in> {CHR ''-'', CHR ''=''} then go_fail (PlainError (''bad flag syntax: '' @ s))
      else case split_value (drop 2 s) of (name, given) \<Rightarrow>
        (case map_of (formal f) name of
           None \<Rightarrow>
             if name = ''help'' then go_fail ErrHelp
             else if UnknownFlags f then go_return (if given \<noteq> None then args else stripUnknownFlagValue args)
             else go_fail (PlainError (''unknown flag: --'' @ name))
         | Some flag \<Rightarrow>
             (let put = (\<lambda>val rest. go_bind (set_flag f (Fl_Name flag) val) (\<lambda>u. go_return rest))
              in case given of
                   Some val \<Rightarrow> put val args
                 | None \<Rightarrow>
                     if Fl_NoOptDefVal flag \<noteq> [] then put (Fl_NoOptDefVal flag) args
                     else case args of
                       a # rest \<Rightarrow> put a rest
                     | [] \<Rightarrow> go_fail (PlainError (''flag needs an argument: '' @ s)))))"

text \<open>The value: the short flags that are left in this argument, and the rest of the arguments.\<close>

definition parseSingleShortArg ::
  "'s FlagSet \<Rightarrow> string \<Rightarrow> string list \<Rightarrow> ('s parsing, string \<times> string list) go" where
  "parseSingleShortArg f shorts args =
     (if HasPrefix shorts ''test.'' then go_return ([], args)
      else case map_of (shorthands f) (hd shorts) of
        None \<Rightarrow>
          if hd shorts = CHR ''h'' then go_fail ErrHelp
          else if UnknownFlags f then
            (if 2 < length shorts \<and> shorts ! 1 = CHR ''='' then go_return ([], args)
             else go_return (tl shorts, stripUnknownFlagValue args))
          else go_fail (PlainError (''unknown shorthand flag: '' @ [CHR 0x27, hd shorts, CHR 0x27] @ '' in -'' @ shorts))
      | Some flag \<Rightarrow>
          (let put = (\<lambda>val out. go_bind (set_flag f (Fl_Name flag) val) (\<lambda>u. go_return out))
           in if 2 < length shorts \<and> shorts ! 1 = CHR ''='' then put (drop 2 shorts) ([], args)
              else if Fl_NoOptDefVal flag \<noteq> [] then put (Fl_NoOptDefVal flag) (tl shorts, args)
              else if 1 < length shorts then put (drop 1 shorts) ([], args)
              else case args of
                a # rest \<Rightarrow> put a (tl shorts, rest)
              | [] \<Rightarrow> go_fail (PlainError (''flag needs an argument: '' @ [CHR 0x27, hd shorts, CHR 0x27] @ '' in -'' @ shorts))))"


text \<open>
  The loops; each step gives \<open>next\<close> fewer letters or arguments.  \<open>parseSingleShortArg\<close> always gets the
  arguments the short flags began with.
\<close>

lemma go_return_run: "go_return a s = (r, t) \<longleftrightarrow> r = Ok a \<and> t = s"
  and go_fail_run: "go_fail e s = (r, t) \<longleftrightarrow> r = Err e \<and> t = s"
  by (auto simp: go_defs)

lemma set_flag_then: "go_bind (set_flag f n v) (\<lambda>u. go_return out) s = (Ok x, t) \<Longrightarrow> x = out"
  by (auto simp: go_bind_Ok_iff go_return_run)

lemma parseSingleShortArg_shorter:
  "parseSingleShortArg f shorts args s = (Ok (rest, a), t) \<Longrightarrow> shorts \<noteq> [] \<Longrightarrow>
   length rest < length shorts \<and> length a \<le> length args"
  by (cases args rule: stripUnknownFlagValue.cases)
    (auto simp: parseSingleShortArg_def Let_def go_return_run go_fail_run dest!: set_flag_then
      split: if_splits option.splits list.splits)

lemma parseLongArg_shorter: "parseLongArg f x args s = (Ok a, t) \<Longrightarrow> length a \<le> length args"
  by (cases args rule: stripUnknownFlagValue.cases)
    (auto simp: parseLongArg_def Let_def go_return_run go_fail_run dest!: set_flag_then
      split: if_splits option.splits list.splits prod.splits)

function short_loop ::
  "'s FlagSet \<Rightarrow> string \<Rightarrow> string list \<Rightarrow> string list \<Rightarrow> ('s parsing, string list) go" where
  "short_loop f shorts args a s =
     (if shorts = [] then (Ok a, s)
      else case parseSingleShortArg f shorts args s of
        (Ok (rest, a'), t) \<Rightarrow> short_loop f rest args a' t
      | (Err e, t) \<Rightarrow> (Err e, t)
      | (Panic p, t) \<Rightarrow> (Panic p, t))"
  by pat_completeness auto
termination
  by (relation "measure (\<lambda>(f, shorts, args, a, s). length shorts)")
    (auto dest!: parseSingleShortArg_shorter [OF sym])

declare short_loop.simps [simp del]

definition parseShortArg :: "'s FlagSet \<Rightarrow> string \<Rightarrow> string list \<Rightarrow> ('s parsing, string list) go" where
  "parseShortArg f x args = short_loop f (drop 1 x) args args"

lemma short_loop_shorter: "short_loop f shorts args a s = (Ok b, t) \<Longrightarrow> length a \<le> length args \<Longrightarrow> length b \<le> length args"
proof (induction f shorts args a s rule: short_loop.induct)
  case (1 f shorts args a s)
  from 1(2,3) show ?case
    by (subst (asm) short_loop.simps)
      (auto split: if_splits prod.splits res.splits intro: 1(1) dest: parseSingleShortArg_shorter)
qed

lemma parseShortArg_shorter: "parseShortArg f x args s = (Ok a, t) \<Longrightarrow> length a \<le> length args"
  unfolding parseShortArg_def by (erule short_loop_shorter) simp

function parseArgs :: "'s FlagSet \<Rightarrow> string list \<Rightarrow> ('s parsing, unit) go" where
  "parseArgs f [] s = (Ok (), s)"
| "parseArgs f (x # args) s =
     (if x = [] \<or> hd x \<noteq> CHR ''-'' \<or> length x = 1 then
        (if \<not> interspersed f then (Ok (), s\<lparr>p_args := p_args s @ x # args\<rparr>)
         else parseArgs f args (s\<lparr>p_args := p_args s @ [x]\<rparr>))
      else if x = ''--'' then
        (Ok (), s\<lparr>p_dash := int (length (p_args s)), p_args := p_args s @ args\<rparr>)
      else case (if x ! 1 = CHR ''-'' then parseLongArg f x args else parseShortArg f x args) s of
        (Ok rest, t) \<Rightarrow> parseArgs f rest t
      | (Err e, t) \<Rightarrow> (Err e, t)
      | (Panic p, t) \<Rightarrow> (Panic p, t))"
  by pat_completeness auto
termination
  by (relation "measure (\<lambda>(f, args, s). length args)")
    (auto simp: less_Suc_eq_le split: if_splits
      dest!: parseLongArg_shorter [OF sym] parseShortArg_shorter [OF sym])

text \<open>
  \<open>Parse\<close> of a flag set that exits on errors; the value is the exit code, should the process end here.
  Parsing the Go flag sets with no arguments changes nothing.
\<close>

definition Parse :: "'s FlagSet \<Rightarrow> string list \<Rightarrow> ('s parsing, nat option) go" where
  "Parse f arguments =
     go_bind (go_modify (\<lambda>s. s\<lparr>p_args := []\<rparr>)) (\<lambda>u.
     go_catch (parseArgs f arguments) (\<lambda>err. go_return (Some 2)) (\<lambda>u. go_return None))"

definition start_parsing :: "'s \<Rightarrow> 's parsing" where
  "start_parsing v = \<lparr>p_vars = v, p_args = [], p_dash = -1, p_actual = []\<rparr>"


lemma start_parsing_args [simp]:
  "(start_parsing v)\<lparr>p_args := []\<rparr> = start_parsing v" "p_args (start_parsing v) = []"
  by (simp_all add: start_parsing_def)

section \<open>Options with a value\<close>

text \<open>The argument \<open>--name=value\<close>, and what it does.\<close>

definition option_arg :: "string \<times> string \<Rightarrow> string" where
  "option_arg o' = ''--'' @ fst o' @ ''='' @ snd o'"

definition option_name :: "string \<Rightarrow> bool" where
  "option_name n \<longleftrightarrow> n \<noteq> [] \<and> hd n \<noteq> CHR ''-'' \<and> CHR ''='' \<notin> set n"

definition assign :: "'s FlagSet \<Rightarrow> string \<times> string \<Rightarrow> ('s parsing, unit) go" where
  "assign f o' = (case map_of (formal f) (fst o') of
       None \<Rightarrow> go_fail (if fst o' = ''help'' then ErrHelp else PlainError (''unknown flag: --'' @ fst o'))
     | Some flag \<Rightarrow> set_flag f (Fl_Name flag) (snd o'))"

lemma split_value_option: "option_name n \<Longrightarrow> split_value (n @ CHR ''='' # v) = (n, Some v)"
  by (induction n) (auto simp: split_value_def option_name_def takeWhile_append dropWhile_append)

lemma option_name_first: "option_name n \<Longrightarrow> hd (n @ xs) \<notin> {CHR ''-'', CHR ''=''}"
  by (cases n) (auto simp: option_name_def)

lemma parse_option:
  assumes "option_name (fst o')" and "\<not> UnknownFlags f"
  shows "parseArgs f (option_arg o' # args) s = go_bind (assign f o') (\<lambda>u. parseArgs f args) s"
proof -
  have long: "parseLongArg f (option_arg o') args = go_bind (assign f o') (\<lambda>u. go_return args)"
    using assms option_name_first [OF assms(1), of "CHR ''='' # snd o'"] split_value_option [OF assms(1), of "snd o'"]
    by (auto simp: parseLongArg_def option_arg_def assign_def Let_def split: option.split)
  have "option_arg o' \<noteq> ''--''" "hd (option_arg o') = CHR ''-''" "length (option_arg o') \<noteq> 1"
    "option_arg o' \<noteq> []" "option_arg o' ! 1 = CHR ''-''"
    by (auto simp: option_arg_def)
  then show ?thesis
    by (simp add: long) (simp add: go_bind_eq_cases go_return_def split: prod.split res.split)
qed

lemma parse_options:
  "list_all option_name (List.map fst os) \<Longrightarrow> \<not> UnknownFlags f \<Longrightarrow>
   parseArgs f (List.map option_arg os) s = go_foreach (assign f) os s"
proof (induction os arbitrary: s)
  case (Cons o' os)
  then show ?case
    by (simp add: parse_option go_bind_eq_cases del: parseArgs.simps split: prod.split res.split)
qed (simp add: go_return_def)

section \<open>The flag sets\<close>

text \<open>Adding flags keeps those that are there, and adds those that are not.\<close>

lemma AddFlag_formal: "AddFlag f flag = Ok f' \<Longrightarrow>
    formal f' = formal f @ [(Fl_Name flag, flag)] \<and> UnknownFlags f' = UnknownFlags f"
  by (auto simp: AddFlag_def Let_def split: if_splits list.splits)

lemma AddMissing_keeps:
  assumes "AddMissing flag f = Ok f'"
  shows "map_of (formal f) n = Some x \<Longrightarrow> map_of (formal f') n = Some x"
    and "n \<noteq> Fl_Name flag \<Longrightarrow> map_of (formal f') n = map_of (formal f) n"
    and "map_of (formal f) (Fl_Name flag) = None \<Longrightarrow> map_of (formal f') (Fl_Name flag) = Some flag"
    and "UnknownFlags f' = UnknownFlags f"
  using assms by (auto simp: AddMissing_def map_add_def dest!: AddFlag_formal split: if_splits option.splits)

lemma AddMissing_all:
  "res_fold AddMissing flags f = Ok f' \<Longrightarrow>
   (\<forall>n x. map_of (formal f) n = Some x \<longrightarrow> map_of (formal f') n = Some x) \<and>
   (\<forall>n. n \<notin> Fl_Name ` set flags \<longrightarrow> map_of (formal f') n = map_of (formal f) n) \<and>
   UnknownFlags f' = UnknownFlags f"
proof (induction flags arbitrary: f)
  case (Cons flag flags)
  then obtain g where "AddMissing flag f = Ok g" "res_fold AddMissing flags g = Ok f'"
    by (auto simp: res_bind_eq_Ok)
  with Cons.IH [of g] AddMissing_keeps [of flag f g] show ?case by auto
qed simp

lemma AddMissing_added:
  "res_fold AddMissing flags f = Ok f' \<Longrightarrow> distinct (List.map Fl_Name flags) \<Longrightarrow> flag \<in> set flags \<Longrightarrow>
   map_of (formal f) (Fl_Name flag) = None \<Longrightarrow> map_of (formal f') (Fl_Name flag) = Some flag"
proof (induction flags arbitrary: f)
  case (Cons x flags)
  then obtain g where g: "AddMissing x f = Ok g" "res_fold AddMissing flags g = Ok f'"
    by (auto simp: res_bind_eq_Ok)
  show ?case
  proof (cases "flag = x")
    case True
    with AddMissing_keeps(3) [OF g(1)] Cons.prems(4) AddMissing_all [OF g(2)] show ?thesis by simp
  next
    case False
    with Cons.prems(2,3) have "flag \<in> set flags" "Fl_Name x \<notin> Fl_Name ` set flags" by simp_all
    then have "Fl_Name flag \<noteq> Fl_Name x" by (metis imageI)
    with AddMissing_keeps(2) [OF g(1)] Cons.IH [OF g(2)] Cons.prems False show ?thesis by simp
  qed
qed simp

text \<open>The set that \<open>init\<close> builds has the eight flags.\<close>

lemma operator_FlagSet_Ok: "operator_FlagSet = Ok
    \<lparr>formal = List.map (\<lambda>flag. (Fl_Name flag, flag)) operator_flags, shorthands = [], interspersed = True,
     UnknownFlags = False\<rparr>"
  by (simp add: operator_FlagSet_def operator_flags_def NewFlagSet_def AddFlag_def StringVar_def BoolVar_def)

definition operator_names :: "string list" where
  "operator_names = [''rbac-sa'', ''ignore-ns-matching'', ''watch-resource'', ''target-namespace'',
     ''resource-dir'', ''no-auto-install'', ''skip-non-redhat'', ''recursive'']"

lemma operator_flags_names: "List.map Fl_Name operator_flags = operator_names" "distinct operator_names"
  by (simp_all add: operator_flags_def operator_names_def StringVar_def BoolVar_def)

lemma operator_names_set: "Fl_Name ` set operator_flags = set operator_names"
  by (metis list.set_map operator_flags_names(1))

lemma command_line_flags:
  assumes "command_line zap gos = Ok f"
    and "\<forall>n \<in> set operator_names. n \<notin> Fl_Name ` set (VisitAll zap) \<and> n \<notin> Go_Name ` set gos"
    and "flag \<in> set operator_flags"
  shows "map_of (formal f) (Fl_Name flag) = Some flag" "\<not> UnknownFlags f"
proof -
  from assms(1) obtain g h ops where
    steps: "AddFlagSet NewFlagSet zap = Ok g" "AddGoFlagSet g gos = Ok h" "operator_FlagSet = Ok ops"
    "AddFlagSet h ops = Ok f"
    by (auto simp: command_line_def res_bind_eq_Ok)
  have name: "Fl_Name flag \<in> set operator_names"
    using assms(3) operator_flags_names(1) by (metis image_eqI list.set_map)
  then have "Fl_Name flag \<notin> Fl_Name ` set (VisitAll zap)"
    "Fl_Name flag \<notin> Fl_Name ` set (List.map PFlagFromGoFlag (sort_key Go_Name gos))"
    using assms(2) by (auto simp: PFlagFromGoFlag_def)
  with steps(1,2) have h: "map_of (formal h) (Fl_Name flag) = None" "\<not> UnknownFlags h"
    using AddMissing_all [of "VisitAll zap" NewFlagSet g]
      AddMissing_all [of "List.map PFlagFromGoFlag (sort_key Go_Name gos)" g h]
    by (auto simp: AddFlagSet_def AddGoFlagSet_def NewFlagSet_def)
  have formal: "formal ops = List.map (\<lambda>flag. (Fl_Name flag, flag)) operator_flags"
    using steps(3) by (auto simp: operator_FlagSet_Ok)
  have all: "set (VisitAll ops) = set operator_flags"
    by (auto simp: VisitAll_def formal image_image)
  have "distinct (List.map fst (formal ops))"
    by (simp add: formal o_def operator_flags_names)
  then have "distinct (List.map fst (sort_key fst (formal ops)))"
    by (metis distinct_map distinct_sort set_sort)
  moreover have "List.map Fl_Name (VisitAll ops) = List.map fst (sort_key fst (formal ops))"
    by (auto simp: VisitAll_def formal intro!: map_cong)
  ultimately have "distinct (List.map Fl_Name (VisitAll ops))" by simp
  with AddMissing_added [of "VisitAll ops" h f flag] AddMissing_all [of "VisitAll ops" h f] h all assms(3) steps(4)
  show "map_of (formal f) (Fl_Name flag) = Some flag" "\<not> UnknownFlags f"
    by (simp_all add: AddFlagSet_def)
qed


lemma command_line_unknown:
  assumes "command_line zap gos = Ok f"
    and "n \<notin> set operator_names" and "n \<notin> Fl_Name ` set (VisitAll zap)" and "n \<notin> Go_Name ` set gos"
  shows "map_of (formal f) n = None" "\<not> UnknownFlags f"
proof -
  from assms(1) obtain g h where
    steps: "AddFlagSet NewFlagSet zap = Ok g" "AddGoFlagSet g gos = Ok h"
    "AddFlagSet h \<lparr>formal = List.map (\<lambda>flag. (Fl_Name flag, flag)) operator_flags, shorthands = [],
       interspersed = True, UnknownFlags = False\<rparr> = Ok f"
    by (auto simp: command_line_def res_bind_eq_Ok operator_FlagSet_Ok)
  from assms(3,4) steps(1,2) have h: "map_of (formal h) n = None" "\<not> UnknownFlags h"
    using AddMissing_all [of "VisitAll zap" NewFlagSet g]
      AddMissing_all [of "List.map PFlagFromGoFlag (sort_key Go_Name gos)" g h]
    by (auto simp: AddFlagSet_def AddGoFlagSet_def NewFlagSet_def PFlagFromGoFlag_def image_image)
  from assms(2) h steps(3) show "map_of (formal f) n = None" "\<not> UnknownFlags f"
    using AddMissing_all [OF steps(3) [unfolded AddFlagSet_def]]
    by (auto simp: VisitAll_def image_image operator_names_set)
qed

text \<open>The eight flags of the operator in the set \<open>main\<close> parses.\<close>

lemma command_line_lookup:
  assumes "command_line zap gos = Ok f"
    and "\<forall>n \<in> set operator_names. n \<notin> Fl_Name ` set (VisitAll zap) \<and> n \<notin> Go_Name ` set gos"
  shows "list_all (\<lambda>flag. map_of (formal f) (Fl_Name flag) = Some flag) operator_flags"
    and "\<not> UnknownFlags f"
  using command_line_flags(1) [OF assms] command_line_flags(2) [OF assms, of "hd operator_flags"]
  by (simp_all add: list_all_iff) (simp add: operator_flags_def)

lemmas assign_defs = assign_def set_flag_def on_vars_def go_catch_eq_cases go_bind_eq_cases go_modify_def
  go_fail_def go_return_def

definition add_name :: "string \<Rightarrow> string list \<Rightarrow> string list" where
  "add_name n ns = (if n \<in> set ns then ns else ns @ [n])"

text \<open>Assignments that are accepted: a flag, its text, and what its \<open>Set\<close> does with it.\<close>

definition accepted :: "'s FlagSet \<Rightarrow> 's Flag \<times> string \<times> ('s \<Rightarrow> 's) \<Rightarrow> bool" where
  "accepted f = (\<lambda>(flag, val, g). map_of (formal f) (Fl_Name flag) = Some flag \<and> Fl_Set flag val = go_modify g)"

lemma assign_accepted:
  "accepted f (flag, val, g) \<Longrightarrow> assign f (Fl_Name flag, val) s =
     (Ok (), s\<lparr>p_vars := g (p_vars s), p_actual := add_name (Fl_Name flag) (p_actual s)\<rparr>)"
  by (simp add: accepted_def assign_defs add_name_def)

lemma assign_all_accepted:
  "list_all (accepted f) xs \<Longrightarrow> go_foreach (assign f) (List.map (\<lambda>(flag, val, g). (Fl_Name flag, val)) xs) s =
     (Ok (), s\<lparr>p_vars := fold (\<lambda>(flag, val, g). g) xs (p_vars s),
       p_actual := fold (\<lambda>(flag, val, g). add_name (Fl_Name flag)) xs (p_actual s)\<rparr>)"
proof (induction xs arbitrary: s)
  case (Cons x xs)
  obtain flag val g where x: "x = (flag, val, g)" by (cases x)
  with Cons show ?case by (simp add: go_bind_eq_cases assign_accepted [of f flag val g])
qed (simp add: go_return_def)

section \<open>What a command line means\<close>

definition FormatBool :: "bool \<Rightarrow> string" where
  "FormatBool b = (if b then ''true'' else ''false'')"

text \<open>The options that ask for the flags \<open>F\<close>.\<close>

definition flag_options :: "flags \<Rightarrow> (string \<times> string) list" where
  "flag_options F = zip operator_names [PipelineSA F, IgnorePattern F, ResourceWatched F, TargetNamespace F,
     ResourceDir F, FormatBool (NoAutoInstall F), FormatBool (SkipNonRedHatResources F), FormatBool (Recursive F)]"

lemma ParseBool_FormatBool [simp]: "ParseBool (FormatBool b) = Inr b"
  by (simp add: ParseBool_def FormatBool_def)

text \<open>
  The operator runs with the flags it is given: whatever texts and truth values the eight flags are given
  on the command line as \<open>--name=value\<close>, the variables have them after parsing, the process goes on, and
  no other variable has changed.
\<close>

lemma flags_round_trip:
  fixes zap :: "'v variables FlagSet"
  assumes "command_line zap gos = Ok f"
    and "\<forall>n \<in> set operator_names. n \<notin> Fl_Name ` set (VisitAll zap) \<and> n \<notin> Go_Name ` set gos"
  shows "\<exists>p. Parse f (List.map option_arg (flag_options F)) (start_parsing v) = (Ok None, p) \<and>
     p_vars p = v\<lparr>v_flags := F\<lparr>TektonVersion := TektonVersion (v_flags v),
       OperatorUUID := OperatorUUID (v_flags v)\<rparr>\<rparr> \<and>
     p_args p = [] \<and> p_actual p = operator_names"
proof -
  have names: "list_all option_name (List.map fst (flag_options F))"
    by (simp add: flag_options_def operator_names_def option_name_def)
  note unknown = command_line_lookup(2) [OF assms]
  let ?stores = "[in_flags (\<lambda>G. G\<lparr>PipelineSA := PipelineSA F\<rparr>), in_flags (\<lambda>G. G\<lparr>IgnorePattern := IgnorePattern F\<rparr>),
    in_flags (\<lambda>G. G\<lparr>ResourceWatched := ResourceWatched F\<rparr>), in_flags (\<lambda>G. G\<lparr>TargetNamespace := TargetNamespace F\<rparr>),
    in_flags (\<lambda>G. G\<lparr>ResourceDir := ResourceDir F\<rparr>), in_flags (\<lambda>G. G\<lparr>NoAutoInstall := NoAutoInstall F\<rparr>),
    in_flags (\<lambda>G. G\<lparr>SkipNonRedHatResources := SkipNonRedHatResources F\<rparr>),
    in_flags (\<lambda>G. G\<lparr>Recursive := Recursive F\<rparr>)]"
  define xs :: "('v variables Flag \<times> string \<times> ('v variables \<Rightarrow> 'v variables)) list"
    where "xs = zip operator_flags (zip (List.map snd (flag_options F)) ?stores)"
  have "list_all (accepted f) xs"
    using command_line_lookup(1) [OF assms]
    by (simp add: xs_def operator_flags_def flag_options_def operator_names_def accepted_def StringVar_def BoolVar_def)
  moreover have "List.map (\<lambda>(flag, val, g). (Fl_Name flag, val)) xs = flag_options F"
    by (simp add: xs_def operator_flags_def flag_options_def operator_names_def StringVar_def BoolVar_def)
  ultimately have run: "go_foreach (assign f) (flag_options F) (start_parsing v) = (Ok (), (start_parsing v)
      \<lparr>p_vars := fold (\<lambda>(flag, val, g). g) xs v,
       p_actual := fold (\<lambda>(flag, val, g). add_name (Fl_Name flag)) xs []\<rparr>)"
    using assign_all_accepted [of f xs "start_parsing v"] by (simp add: start_parsing_def)
  have "fold (\<lambda>(flag, val, g). g) xs v = v\<lparr>v_flags := F\<lparr>TektonVersion := TektonVersion (v_flags v),
      OperatorUUID := OperatorUUID (v_flags v)\<rparr>\<rparr>"
    by (simp add: xs_def operator_flags_def flag_options_def operator_names_def)
  moreover have "fold (\<lambda>(flag, val, g). add_name (Fl_Name flag)) xs [] = operator_names"
    by (simp add: xs_def operator_flags_def flag_options_def operator_names_def StringVar_def BoolVar_def add_name_def)
  ultimately show ?thesis
    using run by (simp add: Parse_def go_bind_eq_cases go_catch_eq_cases go_modify_def go_return_def
        parse_options [OF names unknown])
qed

text \<open>
  A mistake on the command line is never passed over: after options that are accepted, an option with a
  name no flag has, or a flag with a truth value and a text that is none, ends the process with exit code 2,
  whatever arguments follow.
\<close>

lemma bad_option_exits:
  assumes "command_line zap gos = Ok f"
    and "\<forall>n \<in> set operator_names. n \<notin> Fl_Name ` set (VisitAll zap) \<and> n \<notin> Go_Name ` set gos"
    and "list_all option_name (List.map fst os)" and "go_foreach (assign f) os (start_parsing v) = (Ok (), t)"
    and "option_name n"
    and "n \<notin> set operator_names \<and> n \<notin> Fl_Name ` set (VisitAll zap) \<and> n \<notin> Go_Name ` set gos \<or>
      n \<in> {''no-auto-install'', ''skip-non-redhat'', ''recursive''} \<and> (\<exists>e. ParseBool val = Inl e)"
  shows "\<exists>p. Parse f (List.map option_arg os @ option_arg (n, val) # args) (start_parsing v) = (Ok (Some 2), p)"
proof -
  note unknown = command_line_lookup(2) [OF assms(1,2)]
  note flags = command_line_lookup(1) [OF assms(1,2), unfolded operator_flags_def StringVar_def BoolVar_def, simplified]
  have bad: "\<exists>e u. assign f (n, val) s = (Err e, u)" for s
  proof (cases "n \<in> set operator_names")
    case False
    with assms(6) have "map_of (formal f) n = None"
      by (intro command_line_unknown(1) [OF assms(1)]) (auto simp: operator_names_def)
    then show ?thesis by (simp add: assign_def go_fail_def)
  next
    case True
    with assms(6) show ?thesis by (auto simp: assign_defs flags)
  qed
  have run: "parseArgs f (List.map option_arg os @ args') s = go_bind (go_foreach (assign f) os) (\<lambda>u. parseArgs f args') s"
    if "list_all option_name (List.map fst os)" for os args' s
    using that
    by (induction os arbitrary: s) (simp_all add: parse_option unknown go_bind_eq_cases del: parseArgs.simps split: prod.split res.split)
  from assms(4) bad [of t] show ?thesis
    by (auto simp: Parse_def go_bind_eq_cases go_catch_eq_cases go_modify_def run [OF assms(3)] parse_option [OF _ unknown]
        assms(5) go_return_def simp del: parseArgs.simps)
qed


section \<open>A command line\<close>

text \<open>A flag of zap, the flags of client-go and klog, and the set \<open>main\<close> makes of them.\<close>

definition sample_zap :: "bool variables FlagSet" where
  "sample_zap = NewFlagSet\<lparr>formal := [(''zap-devel'', BoolVar (\<lambda>b s. s\<lparr>v_rest := b\<rparr>) ''zap-devel'')]\<rparr>"

definition sample_gos :: "bool variables GoFlag list" where
  "sample_gos = [\<lparr>Go_Name = ''v'', IsBoolFlag = False, Go_Set = (\<lambda>val. go_return ())\<rparr>,
     \<lparr>Go_Name = ''kubeconfig'', IsBoolFlag = False, Go_Set = (\<lambda>val. go_return ())\<rparr>]"

definition sample_line :: "bool variables FlagSet" where
  "sample_line = (case command_line sample_zap sample_gos of Ok f \<Rightarrow> f | _ \<Rightarrow> NewFlagSet)"

lemma sample_line: "command_line sample_zap sample_gos = Ok sample_line"
proof -
  have "is_ok (command_line sample_zap sample_gos)" by code_simp
  then show ?thesis by (auto simp: sample_line_def elim: is_okE)
qed

lemma sample_line_names:
  "\<forall>n \<in> set operator_names. n \<notin> Fl_Name ` set (VisitAll sample_zap) \<and> n \<notin> Go_Name ` set sample_gos"
  by (simp add: operator_names_def sample_zap_def sample_gos_def VisitAll_def BoolVar_def)

end
