(* ===== verification/Startup.thy ===== *)
theory Startup imports ConfigSetup Rbac CommandLine begin

text \<open>
  The start of the process: \<open>cmd/manager/main.go\<close>, the registration of the rbac controller
  (\<open>Add\<close>, \<open>newReconciler\<close> and \<open>add\<close> of \<open>rbac_controller.go\<close>) and the list \<open>AddToManagerFuncs\<close>.

  The libraries \<open>main\<close> calls (operator-sdk, client-go, the controller runtime) are the fields of the
  record \<open>startup\<close>.  \<open>start_process\<close> is \<open>main\<close> with the parsing of the command line, \<open>main\<close> what comes after
  it, with the flags of the hosts; the logger and the version it prints are left out.  Every call of
  \<open>main\<close> is recorded, with its error, in the ghost list \<open>steps\<close>.
\<close>

section \<open>The rbac controller\<close>

text \<open>\<open>compile_pattern\<close> is \<open>regexp.Compile\<close>, \<open>new_clientset\<close> is \<open>k8s.NewForConfig\<close>.\<close>

record ('w, 'k) rbac_host =
  R_flags :: flags
  compile_pattern :: "string \<Rightarrow> go_error option"
  new_clientset :: "'w \<Rightarrow> (go_error + 'k) \<times> 'w"
  new_rbac_controller :: "'w \<Rightarrow> (go_error + unit) \<times> 'w"
  watch_namespaces :: "'w \<Rightarrow> (go_error + unit) \<times> 'w"

text \<open>The struct \<open>ReconcileRBAC\<close>; a nil clientset is \<open>None\<close>.\<close>

record 'k ReconcileRBAC =
  kc :: "'k option"

text \<open>The error of \<open>NewForConfig\<close> is dropped.\<close>

definition newReconciler_rbac ::
  "('w, 'k) rbac_host \<Rightarrow> (('w, 'z) cluster_scheme, 'k ReconcileRBAC) go" where
  "newReconciler_rbac R =
     go_catch (outside (new_clientset R)) (\<lambda>err. go_return \<lparr>kc = None\<rparr>) (\<lambda>k. go_return \<lparr>kc = Some k\<rparr>)"

definition add_rbac :: "('w, 'k) rbac_host \<Rightarrow> (('w, 'z) cluster_scheme, unit) go" where
  "add_rbac R = (case compile_pattern R (IgnorePattern (R_flags R)) of
       Some err \<Rightarrow> go_fail err
     | None \<Rightarrow> go_bind (outside (new_rbac_controller R)) (\<lambda>u. outside (watch_namespaces R)))"

definition Add_rbac :: "('w, 'k) rbac_host \<Rightarrow> (('w, 'z) cluster_scheme, 'k ReconcileRBAC) go" where
  "Add_rbac R = go_bind (newReconciler_rbac R) (\<lambda>rec. go_bind (add_rbac R) (\<lambda>u. go_return rec))"

text \<open>
  The two \<open>init\<close> functions append in the order of their files, \<open>add_config.go\<close> before \<open>add_rbac.go\<close>.
  The managers keep the reconcilers; here their values are dropped.
\<close>

definition AddToManagerFuncs ::
  "('w, 'c) host \<Rightarrow> ('w, 'k) rbac_host \<Rightarrow> (('w, 'z) cluster_scheme, unit) go list" where
  "AddToManagerFuncs H R =
     [go_bind (Add H) (\<lambda>rec. go_return ()), go_bind (Add_rbac R) (\<lambda>rec. go_return ())]"

section \<open>The process\<close>

datatype startup_step =
    GetWatchNamespace "go_error option"
  | GetRESTConfig "go_error option"
  | BecomeLeader "go_error option"
  | NewManager "go_error option"
  | AddToScheme "go_error option"
  | AddControllers "go_error option"
  | ServeCRMetrics "go_error option"
  | CreateMetricsService "go_error option"
  | StartManager "go_error option"

record 'w process = "'w cluster" +
  steps :: "startup_step list"

text \<open>The fields of a \<open>v1.ServicePort\<close> that \<open>main\<close> sets.\<close>

record ServicePort =
  Port :: int
  PortName :: string
  Protocol :: string
  TargetPort :: int

record ('w, 'r) startup =
  watch_namespace :: "'w \<Rightarrow> (go_error + string) \<times> 'w"
  rest_config :: "'w \<Rightarrow> (go_error + 'r) \<times> 'w"
  become_leader :: "string \<Rightarrow> 'w \<Rightarrow> (go_error + unit) \<times> 'w"
  new_manager :: "'r \<Rightarrow> string \<Rightarrow> string \<Rightarrow> 'w \<Rightarrow> (go_error + scheme) \<times> 'w"
  operator_namespace :: "'w \<Rightarrow> (go_error + string) \<times> 'w"
  serve_metrics :: "'r \<Rightarrow> string list \<Rightarrow> gvk list \<Rightarrow> string \<Rightarrow> int \<Rightarrow> 'w \<Rightarrow> (go_error + unit) \<times> 'w"
  metrics_service :: "'r \<Rightarrow> ServicePort list \<Rightarrow> 'w \<Rightarrow> (go_error + unit) \<times> 'w"
  start_manager :: "'w \<Rightarrow> (go_error + unit) \<times> 'w"

definition metricsHost :: string where
  "metricsHost = ''0.0.0.0''"

definition metricsPort :: int where
  "metricsPort = 8383"

definition operatorMetricsPort :: int where
  "operatorMetricsPort = 8686"

text \<open>The verb \<open>%d\<close> on an \<open>int32\<close> that is not negative: at most ten digits.\<close>

definition decimal :: "int \<Rightarrow> string" where
  "decimal n =
     (case dropWhile (\<lambda>d. d = 0) (List.map (\<lambda>i. n div 10 ^ i mod 10) (rev [0 ..< 10])) of
        [] \<Rightarrow> ''0''
      | ds \<Rightarrow> List.map (\<lambda>d. char_of (48 + d)) ds)"

definition servicePorts :: "ServicePort list" where
  "servicePorts = [
     \<lparr>Port = metricsPort, PortName = ''http-metrics'', Protocol = ''TCP'', TargetPort = metricsPort\<rparr>,
     \<lparr>Port = operatorMetricsPort, PortName = ''cr-metrics'', Protocol = ''TCP'', TargetPort = operatorMetricsPort\<rparr>]"

definition serveCRMetrics :: "('w, 'r) startup \<Rightarrow> 'r \<Rightarrow> (('w, 'z) cluster_scheme, unit) go" where
  "serveCRMetrics S cfg =
     go_bind (go_lift (GetGVKsFromAddToScheme AddToScheme_apis)) (\<lambda>filteredGVK.
     go_bind (outside (operator_namespace S)) (\<lambda>operatorNs.
     outside (serve_metrics S cfg [operatorNs] filteredGVK metricsHost operatorMetricsPort)))"

text \<open>\<open>staged m ev\<close> runs \<open>m\<close> and records how it ended; \<open>or_exit\<close> is \<open>if err != nil { os.Exit(1) }\<close>.\<close>

definition staged :: "('w process, 'a) go \<Rightarrow> (go_error option \<Rightarrow> startup_step) \<Rightarrow> ('w process, 'a) go" where
  "staged m ev = (\<lambda>s. case m s of
       (Ok a, t) \<Rightarrow> (Ok a, t\<lparr>steps := steps t @ [ev None]\<rparr>)
     | (Err e, t) \<Rightarrow> (Err e, t\<lparr>steps := steps t @ [ev (Some e)]\<rparr>)
     | (Panic p, t) \<Rightarrow> (Panic p, t))"

definition or_exit :: "('w process, 'a) go \<Rightarrow> ('a \<Rightarrow> ('w process, nat) go) \<Rightarrow> ('w process, nat) go" where
  "or_exit m f = go_catch m (\<lambda>err. go_return 1) f"

text \<open>The value of \<open>main\<close> is the exit code of the process.\<close>

definition main ::
  "('w, 'r) startup \<Rightarrow> ('w, 'c) host \<Rightarrow> ('w, 'k) rbac_host \<Rightarrow> ('w process, nat) go" where
  "main S H R =
     or_exit (staged (outside (watch_namespace S)) GetWatchNamespace) (\<lambda>namespace.
     or_exit (staged (outside (rest_config S)) GetRESTConfig) (\<lambda>cfg.
     or_exit (staged (outside (become_leader S ''tektoncd-operator-lock'')) BecomeLeader) (\<lambda>u.
     or_exit (staged (outside (new_manager S cfg namespace (metricsHost @ '':'' @ decimal metricsPort)))
                NewManager) (\<lambda>sch.
     or_exit (staged (go_lift (AddToScheme_apis sch)) AddToScheme) (\<lambda>sch.
     or_exit (staged (AddToManager (AddToManagerFuncs (H\<lparr>H_scheme := sch\<rparr>) R)) AddControllers) (\<lambda>u.
     go_bind (go_ignore (staged (serveCRMetrics S cfg) ServeCRMetrics)) (\<lambda>u.
     go_bind (go_ignore (staged (outside (metrics_service S cfg servicePorts)) CreateMetricsService)) (\<lambda>u.
     or_exit (staged (outside (start_manager S)) StartManager) (\<lambda>u.
     go_return 0)))))))))"

text \<open>
  \<open>main\<close> from its first line: the flag sets, the parsing of the arguments, which may end the process, and
  the steps above with the flags it has set.  \<open>v\<close> are the variables after the \<open>init\<close> functions.
\<close>

definition start_process ::
  "'v variables FlagSet \<Rightarrow> 'v variables GoFlag list \<Rightarrow> string list \<Rightarrow> 'v variables
   \<Rightarrow> ('w, 'r) startup \<Rightarrow> ('w, 'c) host \<Rightarrow> ('w, 'k) rbac_host \<Rightarrow> ('w process, nat) go" where
  "start_process zap gos args v S H R =
     go_bind (go_lift (command_line zap gos)) (\<lambda>f. case Parse f args (start_parsing v) of
         (Ok (Some code), p) \<Rightarrow> go_return code
       | (Ok None, p) \<Rightarrow> main S (H\<lparr>H_flags := v_flags (p_vars p)\<rparr>) (R\<lparr>R_flags := v_flags (p_vars p)\<rparr>)
       | (Err err, p) \<Rightarrow> go_fail err
       | (Panic msg, p) \<Rightarrow> go_panic msg)"

section \<open>The order of the steps\<close>

primrec step_rank :: "startup_step \<Rightarrow> nat" where
  "step_rank (GetWatchNamespace e) = 0"
| "step_rank (GetRESTConfig e) = 1"
| "step_rank (BecomeLeader e) = 2"
| "step_rank (NewManager e) = 3"
| "step_rank (AddToScheme e) = 4"
| "step_rank (AddControllers e) = 5"
| "step_rank (ServeCRMetrics e) = 6"
| "step_rank (CreateMetricsService e) = 7"
| "step_rank (StartManager e) = 8"

primrec step_error :: "startup_step \<Rightarrow> go_error option" where
  "step_error (GetWatchNamespace e) = e"
| "step_error (GetRESTConfig e) = e"
| "step_error (BecomeLeader e) = e"
| "step_error (NewManager e) = e"
| "step_error (AddToScheme e) = e"
| "step_error (AddControllers e) = e"
| "step_error (ServeCRMetrics e) = e"
| "step_error (CreateMetricsService e) = e"
| "step_error (StartManager e) = e"

text \<open>The steps that only serve metrics.\<close>

definition optional_step :: "startup_step \<Rightarrow> bool" where
  "optional_step st \<longleftrightarrow> step_rank st \<in> {6, 7}"

text \<open>
  The steps \<open>ss\<close> of a run of \<open>main\<close> from its step number \<open>k\<close> on, with the exit code: the steps come in
  the order of the code, none is left out, and only the last one or a step for metrics fails.
\<close>

definition startup_run :: "nat \<Rightarrow> startup_step list \<Rightarrow> nat \<Rightarrow> bool" where
  "startup_run k ss code \<longleftrightarrow> ss \<noteq> [] \<and> List.map step_rank ss = [k ..< k + length ss] \<and>
     (\<forall>st \<in> set (butlast ss). step_error st = None \<or> optional_step st) \<and>
     code = (if last ss = StartManager None then 0 else 1)"

definition runs_from :: "nat \<Rightarrow> ('w process, nat) go \<Rightarrow> bool" where
  "runs_from k m \<longleftrightarrow> (\<forall>s code s'. m s = (Ok code, s') \<longrightarrow>
     (\<exists>ss. steps s' = steps s @ ss \<and> startup_run k ss code \<and>
        (trace s' \<noteq> trace s \<longrightarrow> 5 < k + length ss)))"

text \<open>What a step of \<open>main\<close> leaves alone: the list of the steps, and until the controllers the trace.\<close>

definition leaves_steps :: "nat \<Rightarrow> 'w process \<Rightarrow> 'w process \<Rightarrow> bool" where
  "leaves_steps k s t \<longleftrightarrow> steps t = steps s \<and> (k < 5 \<longrightarrow> trace t = trace s)"

interpretation sp: step_relation "leaves_steps k" for k
  by unfold_locales (simp_all add: leaves_steps_def)

lemma keeps_outside: "sp.keeps k (outside f)"
  by (rule sp.keepsI) (simp add: outside_def leaves_steps_def split: prod.split)

lemma keeps_outside_res: "sp.keeps k (outside_res f)"
  by (rule sp.keepsI) (simp add: outside_res_def leaves_steps_def split: prod.split)

lemma keeps_call: "\<not> k < 5 \<Longrightarrow> sp.keeps k (call f ev)"
  by (rule sp.keepsI) (simp add: call_def leaves_steps_def split: prod.split sum.split)

lemmas startup_intros = sp.keeps_intros keeps_outside keeps_outside_res

lemma keeps_serveCRMetrics: "sp.keeps k (serveCRMetrics S cfg)"
  unfolding serveCRMetrics_def by (intro startup_intros)

lemma keeps_Add: "\<not> k < 5 \<Longrightarrow> sp.keeps k (Add H)"
  unfolding Add_def newReconciler_def readAddons_def readOptional_def create_pipelines_def
    fetchCommuntiyResources_def ManifestFrom_def add_controller_def createCR_def Let_def
  by (intro startup_intros keeps_call)

lemma keeps_Add_rbac: "sp.keeps k (Add_rbac R)"
  unfolding Add_rbac_def newReconciler_rbac_def add_rbac_def
  by (cases "compile_pattern R (IgnorePattern (R_flags R))"; simp; intro startup_intros)

lemma keeps_AddToManager: "\<not> k < 5 \<Longrightarrow> sp.keeps k (AddToManager (AddToManagerFuncs H R))"
  unfolding AddToManager_def AddToManagerFuncs_def
  by (intro sp.keeps_foreach) (auto intro: startup_intros keeps_Add keeps_Add_rbac)

text \<open>One step, and what follows it.\<close>

lemma startup_run_Cons:
  assumes "startup_run (Suc k) ss code" and "step_rank st = k" and "step_error st = None \<or> optional_step st"
  shows "startup_run k (st # ss) code"
  using assms by (cases ss) (auto simp: startup_run_def upt_conv_Cons simp del: upt_Suc)

lemma startup_run_stop: "step_rank (ev (Some e)) = k \<Longrightarrow> step_error (ev (Some e)) = Some e \<Longrightarrow>
   startup_run k [ev (Some e)] (Suc 0)"
  by (cases "ev (Some e)") (auto simp: startup_run_def)

lemma runs_from_step:
  assumes "runs_from (Suc k) g" and "g (t\<lparr>steps := steps t @ [st]\<rparr>) = (Ok code, s')"
    and "leaves_steps k s t" and "step_rank st = k" and "step_error st = None \<or> optional_step st"
  shows "\<exists>ss. steps s' = steps s @ ss \<and> startup_run k ss code \<and> (trace s' \<noteq> trace s \<longrightarrow> 5 < k + length ss)"
proof -
  from assms(1,2) obtain ss where ss: "steps s' = steps t @ st # ss" "startup_run (Suc k) ss code"
      "trace s' \<noteq> trace t \<longrightarrow> 5 < Suc k + length ss"
    unfolding runs_from_def by force
  moreover have "ss \<noteq> []" using ss(2) by (simp add: startup_run_def)
  ultimately show ?thesis
    using assms(3-5)
    by (intro exI [of _ "st # ss"]) (cases "k < 5"; auto simp: leaves_steps_def intro: startup_run_Cons)
qed

lemma runs_from_or_exit:
  assumes "\<And>a. runs_from (Suc k) (f a)" and "sp.keeps k m"
    and "\<And>e. step_rank (ev e) = k \<and> step_error (ev e) = e"
  shows "runs_from k (or_exit (staged m ev) f)"
  unfolding runs_from_def
proof (intro allI impI)
  fix s code s'
  assume run: "or_exit (staged m ev) f s = (Ok code, s')"
  obtain r t where m: "m s = (r, t)" by (cases "m s")
  have t: "leaves_steps k s t" by (rule sp.keepsD [OF assms(2) m])
  show "\<exists>ss. steps s' = steps s @ ss \<and> startup_run k ss code \<and> (trace s' \<noteq> trace s \<longrightarrow> 5 < k + length ss)"
  proof (cases r)
    case (Ok a)
    with run m have "f a (t\<lparr>steps := steps t @ [ev None]\<rparr>) = (Ok code, s')"
      by (simp add: or_exit_def staged_def go_catch_eq_cases)
    from runs_from_step [OF assms(1) [of a] this t] assms(3) show ?thesis by simp
  next
    case (Err e)
    with run m have "s' = t\<lparr>steps := steps t @ [ev (Some e)]\<rparr>" "code = 1"
      by (simp_all add: or_exit_def staged_def go_catch_eq_cases go_return_def)
    with t assms(3) show ?thesis
      by (intro exI [of _ "[ev (Some e)]"])
        (cases "k < 5"; auto simp: leaves_steps_def intro: startup_run_stop)
  next
    case (Panic p)
    with run m show ?thesis by (simp add: or_exit_def staged_def go_catch_eq_cases)
  qed
qed

lemma runs_from_optional:
  assumes "\<And>a. runs_from (Suc k) (f a)" and "sp.keeps k m"
    and "\<And>e. step_rank (ev e) = k \<and> optional_step (ev e)"
  shows "runs_from k (go_bind (go_ignore (staged m ev)) f)"
  unfolding runs_from_def
proof (intro allI impI)
  fix s code s'
  assume run: "go_bind (go_ignore (staged m ev)) f s = (Ok code, s')"
  obtain r t where m: "m s = (r, t)" by (cases "m s")
  have t: "leaves_steps k s t" by (rule sp.keepsD [OF assms(2) m])
  from run m obtain e where "f () (t\<lparr>steps := steps t @ [ev e]\<rparr>) = (Ok code, s')"
    by (cases r) (auto simp: go_ignore_def staged_def go_catch_eq_cases go_bind_eq_cases go_return_def)
  from runs_from_step [OF assms(1) [of "()"] this t] assms(3)
  show "\<exists>ss. steps s' = steps s @ ss \<and> startup_run k ss code \<and> (trace s' \<noteq> trace s \<longrightarrow> 5 < k + length ss)"
    by simp
qed

lemma runs_from_last:
  assumes "sp.keeps k m" and "k = 8"
  shows "runs_from k (or_exit (staged m StartManager) (\<lambda>u. go_return 0))"
  unfolding runs_from_def
proof (intro allI impI)
  fix s code s'
  assume run: "or_exit (staged m StartManager) (\<lambda>u. go_return 0) s = (Ok code, s')"
  obtain r t where m: "m s = (r, t)" by (cases "m s")
  have t: "leaves_steps k s t" by (rule sp.keepsD [OF assms(1) m])
  from run m obtain e where "s' = t\<lparr>steps := steps t @ [StartManager e]\<rparr>" "code = (if e = None then 0 else 1)"
    by (cases r) (auto simp: or_exit_def staged_def go_catch_eq_cases go_return_def)
  with t show "\<exists>ss. steps s' = steps s @ ss \<and> startup_run k ss code \<and> (trace s' \<noteq> trace s \<longrightarrow> 5 < k + length ss)"
    using assms(2) by (intro exI [of _ "[StartManager e]"]) (auto simp: leaves_steps_def startup_run_def)
qed

lemma runs_from_main: "runs_from 0 (main S H R)"
  unfolding main_def
  by (intro runs_from_last runs_from_or_exit runs_from_optional keeps_outside sp.keeps_lift keeps_serveCRMetrics
      keeps_AddToManager) (simp_all add: optional_step_def)

text \<open>A run that gets past the controllers has passed the steps before them.\<close>

lemma startup_run_passed:
  assumes "startup_run 0 ss code" and "5 < length ss"
  shows "{BecomeLeader None, NewManager None, AddToScheme None} \<subseteq> set ss"
proof -
  have at: "\<exists>st \<in> set ss. step_rank st = i \<and> step_error st = None" if "i < 5" for i
  proof -
    have ranks: "List.map step_rank ss = [0 ..< length ss]" using assms(1) by (simp add: startup_run_def)
    from assms(2) that have i: "i < length ss" "i < length (butlast ss)" by simp_all
    with ranks have "step_rank (ss ! i) = i" by (metis add_0 nth_map nth_upt)
    moreover have "ss ! i \<in> set (butlast ss)" using i(2) by (metis nth_butlast nth_mem)
    ultimately have "step_rank (ss ! i) = i" "ss ! i \<in> set (butlast ss)" "ss ! i \<in> set ss" using i(1) by auto
    with assms(1) that show ?thesis by (fastforce simp: startup_run_def optional_step_def)
  qed
  have "x \<in> set ss" if "x \<in> {BecomeLeader None, NewManager None, AddToScheme None}" for x
  proof -
    from that obtain st where "st \<in> set ss" "step_rank st = step_rank x" "step_error st = None"
      using at [of "step_rank x"] by auto
    with that show ?thesis by (cases st) auto
  qed
  then show ?thesis by blast
qed

section \<open>Properties\<close>

text \<open>C38:
  The process starts in the order of \<open>main\<close>: watch namespace, REST config, leader election, manager,
  scheme, controllers, metrics, start.  No step is skipped or repeated, a step that fails is the last
  one unless it only serves metrics, and the exit code is 0 exactly when the manager was started and
  ended without an error, else 1.  Only the leader touches the cluster: when a call to the API server
  was made (the creation of the Config), the process had become the leader, its manager had been made
  and the types had been registered.
\<close>

theorem main_in_order:
  assumes "main S H R s = (Ok code, s')"
  shows "\<exists>ss. steps s' = steps s @ ss \<and> ss \<noteq> [] \<and> List.map step_rank ss = [0 ..< length ss] \<and>
     (\<forall>st \<in> set (butlast ss). step_error st = None \<or> optional_step st) \<and>
     code = (if last ss = StartManager None then 0 else 1) \<and>
     (trace s' \<noteq> trace s \<longrightarrow> {BecomeLeader None, NewManager None, AddToScheme None} \<subseteq> set ss)"
proof -
  from runs_from_main assms obtain ss where ss: "steps s' = steps s @ ss" "startup_run 0 ss code"
      "trace s' \<noteq> trace s \<longrightarrow> 5 < length ss"
    unfolding runs_from_def by fastforce
  with startup_run_passed [OF ss(2)] show ?thesis
    by (intro exI [of _ ss]) (auto simp: startup_run_def)
qed

text \<open>
  An ignore pattern that is not a regular expression stops the operator with the pattern's error (or
  with an earlier one of the config controller), after the config controller has been added: what that
  one did to the cluster stays, and nothing is done for the rbac controller.
\<close>

theorem AddToManager_bad_pattern:
  assumes "compile_pattern R (IgnorePattern (R_flags R)) = Some e"
    and "AddToManager (AddToManagerFuncs H R) s = (r, s')"
  shows "r = (case fst (Add H s) of Ok rec \<Rightarrow> Err e | Err x \<Rightarrow> Err x | Panic p \<Rightarrow> Panic p) \<and>
     trace s' = trace (snd (Add H s)) \<and>
     (world s' = world (snd (Add H s)) \<or> world s' = snd (new_clientset R (world (snd (Add H s)))))"
  using assms
  by (cases "Add H s"; cases "fst (Add H s)")
    (auto simp: AddToManager_def AddToManagerFuncs_def Add_rbac_def newReconciler_rbac_def add_rbac_def
      go_bind_eq_cases go_catch_eq_cases go_return_def go_fail_def outside_def split: prod.splits res.splits)

text \<open>C16:
  The operator runs with the flags it is given: whatever texts and truth values the eight flags are given
  on the command line as \<open>--name=value\<close>, every part of the operator runs with exactly these values and
  with the version and the UUID it was built with.
\<close>

theorem process_runs_with_flags:
  assumes "command_line zap gos = Ok f"
    and "\<forall>n \<in> set operator_names. n \<notin> Fl_Name ` set (VisitAll zap) \<and> n \<notin> Go_Name ` set gos"
    and "G = F\<lparr>TektonVersion := TektonVersion (v_flags v), OperatorUUID := OperatorUUID (v_flags v)\<rparr>"
  shows "start_process zap gos (List.map option_arg (flag_options F)) v S H R =
    main S (H\<lparr>H_flags := G\<rparr>) (R\<lparr>R_flags := G\<rparr>)"
proof -
  obtain p where "Parse f (List.map option_arg (flag_options F)) (start_parsing v) = (Ok None, p)"
    "v_flags (p_vars p) = G"
    using flags_round_trip [OF assms(1,2), of F v] assms(3) by auto
  then show ?thesis
    by (intro ext) (simp add: start_process_def assms(1) go_bind_eq_cases go_lift_def)
qed


text \<open>What the controller does before it needs the clientset.\<close>

fun before_clientset :: "event \<Rightarrow> bool" where
  "before_clientset (GetNS ns n e) = True"
| "before_clientset (GetSA ns n e) = True"
| "before_clientset (CreateSA sa e) = True"
| "before_clientset ev = False"

lemma emits_ensureSA: "emits before_clientset (ensureSA K F ns)"
  unfolding ensureSA_def Let_def by (intro emits_intros) simp_all

text \<open>
  A clientset that cannot be made is found out late: the rbac controller is registered all the same, and
  then no namespace is ever set up.  A reconciliation of a namespace that is not ignored and can be read
  returns an error of the service account or, once that is there, panics on the nil clientset; it makes
  no call about roles or bindings.
\<close>

theorem nil_clientset_panics:
  assumes "new_clientset R (world s) = (Inl e, w)" and "Add_rbac R s = (Ok rec, s')"
    and "has_clientset K \<longleftrightarrow> kc rec \<noteq> None" and "\<not> fst (MatchString K (IgnorePattern F) req)"
    and "getNS K req_ns req t = (Ok ns, u)" and "Reconcile_rbac K F req_ns req t = (r, t')"
  shows "(case fst (ensureSA K F ns u) of Ok sa \<Rightarrow> is_panic r | Err x \<Rightarrow> r = Ok (emptyResult, Some x)
       | Panic p \<Rightarrow> False) \<and>
     (\<exists>es. trace t' = trace t @ es \<and> list_all before_clientset es)"
proof -
  from assms(1,2) have "kc rec = None"
    by (auto simp: Add_rbac_def newReconciler_rbac_def outside_def go_catch_eq_cases go_bind_eq_cases
        go_return_def split: prod.splits res.splits)
  with assms(3) have nil: "ensureSCClusterRole K = go_panic ''invalid memory address or nil pointer dereference''"
    by (simp add: ensureSCClusterRole_def with_clientset_def)
  obtain q v where q: "ensureSA K F ns u = (q, v)" by (cases "ensureSA K F ns u")
  have sa: "\<not> is_panic q"
    using q by (auto simp: ensureSA_def go_catch_eq_cases go_bind_eq_cases go_return_def go_fail_def call_def Let_def
        split: prod.splits sum.splits if_splits)
  have run: "Reconcile_rbac K F req_ns req t =
      go_catch (ensureSA K F ns) (\<lambda>err. go_return (emptyResult, Some err))
        (\<lambda>sa. go_panic ''invalid memory address or nil pointer dereference'') u"
    using assms(4,5) by (simp add: Reconcile_rbac_def nil go_catch_eq_cases)
  have "emits before_clientset (getNS K req_ns req)"
    unfolding getNS_def by (intro emits_intros) simp
  from em.keepsD [OF this assms(5)] have "appends before_clientset t u" .
  moreover from em.keepsD [OF emits_ensureSA q] have "appends before_clientset u v" .
  ultimately have "appends before_clientset t v" by (rule em.trans)
  moreover have "t' = v" "case q of Ok sa \<Rightarrow> is_panic r | Err x \<Rightarrow> r = Ok (emptyResult, Some x) | Panic p \<Rightarrow> False"
    using run assms(6) q sa by (cases q; simp add: go_catch_eq_cases go_return_def go_panic_def; blast?)+
  ultimately show ?thesis using q by (simp add: appends_def)
qed

section \<open>Witnesses\<close>

definition sample_startup :: "(store, unit) startup" where
  "sample_startup = \<lparr>watch_namespace = (\<lambda>st. (Inr [], st)), rest_config = (\<lambda>st. (Inr (), st)),
     become_leader = (\<lambda>name st. (Inr (), st)), new_manager = (\<lambda>cfg ns addr st. (Inr NewScheme, st)),
     operator_namespace = (\<lambda>st. (Inl (PlainError ''not in a cluster''), st)),
     serve_metrics = (\<lambda>cfg ns gvks host port st. (Inr (), st)),
     metrics_service = (\<lambda>cfg ports st. (Inr (), st)), start_manager = (\<lambda>st. (Inr (), st))\<rparr>"

definition sample_rbac_host :: "(store, unit) rbac_host" where
  "sample_rbac_host = \<lparr>R_flags = flag_init (Inr []), compile_pattern = (\<lambda>p. None),
     new_clientset = (\<lambda>st. (Inr (), st)), new_rbac_controller = (\<lambda>st. (Inr (), st)),
     watch_namespaces = (\<lambda>st. (Inr (), st))\<rparr>"

definition sample_process :: "store process" where
  "sample_process = \<lparr>world = \<lparr>st_config = None, st_objects = []\<rparr>, trace = [], steps = []\<rparr>"

text \<open>The process before the controllers are added.\<close>

definition sample_ready :: "store process" where
  "sample_ready = sample_process\<lparr>steps := [GetWatchNamespace None, GetRESTConfig None, BecomeLeader None,
     NewManager None, AddToScheme None]\<rparr>"

lemma sample_controllers:
  "case AddToManager (AddToManagerFuncs sample_host sample_rbac_host) sample_ready of
     (r, t) \<Rightarrow> is_ok r \<and> trace t \<noteq> []"
  by code_simp

lemma sample_scheme_kind:
  "parseOwnerTypeGroupKind (with_api NewScheme) (v1alpha1_type ''Config'') =
   parseOwnerTypeGroupKind (H_scheme sample_host) (v1alpha1_type ''Config'')"
proof -
  have "parseOwnerTypeGroupKind (with_api NewScheme) (v1alpha1_type ''Config'') =
      parseOwnerTypeGroupKind sample_types (v1alpha1_type ''Config'')"
    by code_simp
  then show ?thesis by (simp add: sample_host_def)
qed

lemma sample_scheme:
  "AddToManagerFuncs (sample_host\<lparr>H_scheme := with_api NewScheme\<rparr>) R = AddToManagerFuncs sample_host R"
  by (simp add: AddToManagerFuncs_def Add_scheme [OF sample_scheme_kind])

lemma sample_main:
  obtains s' where "main sample_startup sample_host sample_rbac_host sample_process = (Ok 0, s')"
    and "trace s' \<noteq> []"
proof -
  obtain u t where "AddToManager (AddToManagerFuncs sample_host sample_rbac_host) sample_ready = (Ok u, t)"
      "trace t \<noteq> []"
    using sample_controllers by (auto elim!: is_okE split: prod.splits)
  then have "\<exists>s'. main sample_startup sample_host sample_rbac_host sample_process = (Ok 0, s') \<and> trace s' \<noteq> []"
    by (simp add: main_def or_exit_def staged_def go_catch_eq_cases go_bind_eq_cases go_ignore_def
        go_return_def go_lift_def outside_def sample_startup_def serveCRMetrics_def sample_process_def
        sample_ready_def AddToScheme_free [OF api_free_new] operator_gvks sample_scheme)
  then show ?thesis using that by blast
qed

theorem main_in_order_witness:
  "\<exists>ss. steps (snd (main sample_startup sample_host sample_rbac_host sample_process)) = ss \<and>
     List.map step_rank ss = [0 ..< length ss] \<and> last ss = StartManager None \<and> BecomeLeader None \<in> set ss"
proof -
  obtain s' where run: "main sample_startup sample_host sample_rbac_host sample_process = (Ok 0, s')"
      "trace s' \<noteq> []"
    by (rule sample_main)
  from main_in_order [OF run(1)] run show ?thesis
    by (auto simp: sample_process_def split: if_splits)
qed

definition broken_rbac_host :: "(accounts, unit) rbac_host" where
  "broken_rbac_host = \<lparr>R_flags = sample_flags, compile_pattern = (\<lambda>p. None),
     new_clientset = (\<lambda>w. (Inl (PlainError ''no configuration''), w)), new_rbac_controller = (\<lambda>w. (Inr (), w)),
     watch_namespaces = (\<lambda>w. (Inr (), w))\<rparr>"

theorem nil_clientset_panics_witness:
  "is_panic (fst (Reconcile_rbac (sample_rbac\<lparr>has_clientset := False\<rparr>) sample_flags [] ''dev'' sample_setup))"
proof -
  let ?K = "sample_rbac\<lparr>has_clientset := False\<rparr>"
  have added: "Add_rbac broken_rbac_host sample_setup = (Ok \<lparr>kc = None\<rparr>, sample_setup)"
    by (simp add: Add_rbac_def newReconciler_rbac_def add_rbac_def broken_rbac_host_def outside_def
        go_catch_eq_cases go_bind_eq_cases go_return_def)
  have read: "getNS ?K [] ''dev'' sample_setup =
      (Ok ''dev'', sample_setup\<lparr>trace := trace sample_setup @ [GetNS [] ''dev'' None]\<rparr>)"
    by (simp add: getNS_def call_def sample_rbac_def)
  have "is_ok (fst (ensureSA ?K sample_flags ''dev'' (sample_setup\<lparr>trace := trace sample_setup @ [GetNS [] ''dev'' None]\<rparr>)))"
    by code_simp
  then obtain sa where sa: "fst (ensureSA ?K sample_flags ''dev''
      (sample_setup\<lparr>trace := trace sample_setup @ [GetNS [] ''dev'' None]\<rparr>)) = Ok sa"
    by (rule is_okE)
  have "\<not> fst (MatchString ?K (IgnorePattern sample_flags) ''dev'')" using sample_not_ignored by simp
  from nil_clientset_panics [OF _ added _ this read prod.collapse [symmetric], of "PlainError ''no configuration''" "world sample_setup"] sa
  show ?thesis by (simp add: broken_rbac_host_def)
qed


theorem process_runs_with_flags_witness:
  "start_process sample_zap sample_gos
     (List.map option_arg (flag_options ((flag_init (Inr []))\<lparr>TargetNamespace := ''a=b'', Recursive := False\<rparr>)))
     \<lparr>v_flags = flag_init (Inr ''u1''), v_rest = False\<rparr> sample_startup sample_host sample_rbac_host =
   main sample_startup (sample_host\<lparr>H_flags := (flag_init (Inr ''u1''))\<lparr>TargetNamespace := ''a=b'', Recursive := False\<rparr>\<rparr>)
     (sample_rbac_host\<lparr>R_flags := (flag_init (Inr ''u1''))\<lparr>TargetNamespace := ''a=b'', Recursive := False\<rparr>\<rparr>)"
  by (rule process_runs_with_flags [OF sample_line sample_line_names]) (simp add: flag_init_def)


end
