(* ===== verification/ConfigJson.thy ===== *)
theory ConfigJson imports ConfigTypes begin

text \<open>
  The \<open>Config\<close> on the wire: the JSON that the tags of the types in
  \<open>pkg/apis/operator/v1alpha1/config_types.go\<close> give it, and the OpenAPI schema of
  \<open>zz_generated.openapi.go\<close>.

  \<open>encode_\<dots>\<close> and \<open>decode_\<dots>\<close> follow \<open>encoding/json\<close>: fields in the order of the struct, \<open>omitempty\<close> leaves
  out the empty string and the empty slice but never a struct; decoding starts from the zero
  value, takes an absent field or null for it, ignores unknown fields and fails on another type.  Of the
  metadata the model has the four fields of \<open>Config\<close>; the creation time, a struct, is null while it is
  not set.
\<close>

section \<open>Encoding\<close>

definition omitempty :: "string \<Rightarrow> string \<Rightarrow> obj" where
  "omitempty key s = (if s = [] then [] else [(key, JStr s)])"

definition encode_condition :: "ConfigCondition \<Rightarrow> json" where
  "encode_condition c = JObj (
     [(''code'', JStr (status_string (Code c)))] @ omitempty ''details'' (Details c) @
     [(''version'', JStr (CVersion c))] @ omitempty ''pipelineVersion'' (PipelineVersion c) @
     omitempty ''triggersVersion'' (TriggersVersion c))"

definition encode_status :: "ConfigStatus \<Rightarrow> json" where
  "encode_status st = JObj (
     omitempty ''operatorUUID'' (StatusOperatorUUID st) @
     (if Conditions st = [] then [] else [(''conditions'', JList (List.map encode_condition (Conditions st)))]))"

text \<open>The only field of \<open>ConfigSpec\<close> is the target namespace.\<close>

definition encode_spec :: "string \<Rightarrow> json" where
  "encode_spec targetNamespace = JObj [(''targetNamespace'', JStr targetNamespace)]"

definition encode_meta :: "Config \<Rightarrow> json" where
  "encode_meta cfg = JObj (
     omitempty ''name'' (Cfg_name cfg) @ omitempty ''namespace'' (Cfg_namespace cfg) @
     omitempty ''uid'' (owner_uid (Cfg_owner cfg)) @
     omitempty ''resourceVersion'' (Cfg_resourceVersion cfg) @ [(''creationTimestamp'', JNull)])"

definition encode_config :: "Config \<Rightarrow> json" where
  "encode_config cfg = JObj (
     omitempty ''kind'' (owner_kind (Cfg_owner cfg)) @ omitempty ''apiVersion'' (owner_apiVersion (Cfg_owner cfg)) @
     [(''metadata'', encode_meta cfg), (''spec'', encode_spec (Cfg_TargetNamespace cfg)),
      (''status'', encode_status (Status cfg))])"

section \<open>Decoding\<close>

definition unmarshal_error :: "string \<Rightarrow> go_error" where
  "unmarshal_error what = PlainError (''json: cannot unmarshal into '' @ what)"

text \<open>A field of type string, a field that is a struct, and a slice of structs.\<close>

definition string_field :: "obj \<Rightarrow> string \<Rightarrow> string res" where
  "string_field m key = (case map_of m key of
     None \<Rightarrow> Ok [] | Some JNull \<Rightarrow> Ok [] | Some (JStr s) \<Rightarrow> Ok s | Some v \<Rightarrow> Err (unmarshal_error key))"

definition struct_field :: "obj \<Rightarrow> string \<Rightarrow> obj res" where
  "struct_field m key = (case map_of m key of
     None \<Rightarrow> Ok [] | Some JNull \<Rightarrow> Ok [] | Some (JObj x) \<Rightarrow> Ok x | Some v \<Rightarrow> Err (unmarshal_error key))"

definition slice_field :: "obj \<Rightarrow> string \<Rightarrow> json list res" where
  "slice_field m key = (case map_of m key of
     None \<Rightarrow> Ok [] | Some JNull \<Rightarrow> Ok [] | Some (JList xs) \<Rightarrow> Ok xs | Some v \<Rightarrow> Err (unmarshal_error key))"

fun struct_value :: "json \<Rightarrow> obj res" where
  "struct_value JNull = Ok []"
| "struct_value (JObj m) = Ok m"
| "struct_value v = Err (unmarshal_error ''struct'')"

definition decode_condition :: "json \<Rightarrow> ConfigCondition res" where
  "decode_condition v =
     res_bind (struct_value v) (\<lambda>m.
     res_bind (string_field m ''code'') (\<lambda>code.
     res_bind (string_field m ''details'') (\<lambda>details.
     res_bind (string_field m ''version'') (\<lambda>version.
     res_bind (string_field m ''pipelineVersion'') (\<lambda>pv.
     res_bind (string_field m ''triggersVersion'') (\<lambda>tv.
     Ok \<lparr>Code = parse_status code, Details = details, CVersion = version,
         PipelineVersion = pv, TriggersVersion = tv\<rparr>))))))"

definition decode_status :: "obj \<Rightarrow> ConfigStatus res" where
  "decode_status m =
     res_bind (string_field m ''operatorUUID'') (\<lambda>uuid.
     res_bind (slice_field m ''conditions'') (\<lambda>xs.
     res_bind (res_mapM decode_condition xs) (\<lambda>cs.
     Ok \<lparr>StatusOperatorUUID = uuid, Conditions = cs\<rparr>)))"

definition decode_config :: "json \<Rightarrow> Config res" where
  "decode_config v =
     res_bind (struct_value v) (\<lambda>m.
     res_bind (string_field m ''kind'') (\<lambda>kind.
     res_bind (string_field m ''apiVersion'') (\<lambda>apiVersion.
     res_bind (struct_field m ''metadata'') (\<lambda>meta.
     res_bind (string_field meta ''name'') (\<lambda>name.
     res_bind (string_field meta ''namespace'') (\<lambda>namespace.
     res_bind (string_field meta ''uid'') (\<lambda>uid.
     res_bind (string_field meta ''resourceVersion'') (\<lambda>rv.
     res_bind (struct_field m ''spec'') (\<lambda>spec.
     res_bind (string_field spec ''targetNamespace'') (\<lambda>ns.
     res_bind (struct_field m ''status'') (\<lambda>status.
     res_bind (decode_status status) (\<lambda>st.
     Ok \<lparr>Cfg_owner = \<lparr>owner_apiVersion = apiVersion, owner_kind = kind, owner_name = name, owner_uid = uid\<rparr>,
         Cfg_resourceVersion = rv, Cfg_namespace = namespace, Cfg_TargetNamespace = ns, Status = st\<rparr>))))))))))))"

section \<open>Round trip\<close>

text \<open>A code that is written as the string of a constant is that constant.\<close>

definition canonical :: "InstallStatus \<Rightarrow> bool" where
  "canonical c \<longleftrightarrow> parse_status (status_string c) = c"

lemma canonical_named: "c \<in> set named_statuses \<Longrightarrow> canonical c"
  by (simp add: canonical_def parse_status_string)

lemma canonical_parsed: "canonical (parse_status s)"
  by (simp add: canonical_def status_string_parse)

lemma map_of_omitempty [simp]:
  "map_of (omitempty key s) k = (if k = key \<and> s \<noteq> [] then Some (JStr s) else None)"
  by (simp add: omitempty_def)

lemmas encoded = string_field_def struct_field_def slice_field_def map_add_def

lemma decode_encode_condition:
  "canonical (Code c) \<Longrightarrow> decode_condition (encode_condition c) = Ok c"
  by (simp add: decode_condition_def encode_condition_def encoded canonical_def)

lemma decode_encode_conditions:
  "list_all (\<lambda>c. canonical (Code c)) cs \<Longrightarrow> res_mapM decode_condition (List.map encode_condition cs) = Ok cs"
  by (induction cs) (simp_all add: decode_encode_condition)

definition status_fields :: "ConfigStatus \<Rightarrow> obj" where
  "status_fields st = (case encode_status st of JObj m \<Rightarrow> m | _ \<Rightarrow> [])"

lemma encode_status_fields: "encode_status st = JObj (status_fields st)"
  by (simp add: status_fields_def encode_status_def)

lemma decode_encode_status:
  assumes "list_all (\<lambda>c. canonical (Code c)) (Conditions st)"
  shows "decode_status (status_fields st) = Ok st"
  using decode_encode_conditions [OF assms]
  by (cases st) (auto simp: decode_status_def status_fields_def encode_status_def encoded)

lemma decode_encode_config:
  assumes "list_all (\<lambda>c. canonical (Code c)) (Conditions (Status cfg))"
  shows "decode_config (encode_config cfg) = Ok cfg"
proof -
  show ?thesis
    using decode_encode_status [OF assms]
    by (simp add: decode_config_def encode_config_def encode_meta_def encode_spec_def encode_status_fields
        encoded)
qed

section \<open>The schema\<close>

text \<open>
  What \<open>spec.Schema\<close> holds here: a reference, or a type with properties, required properties and the schema
  of the items.  Descriptions are left out; a format is always empty.
\<close>

datatype schema =
    Ref string
  | Schema string "(string \<times> schema) list" "string list" "schema option"

definition string_schema :: schema where
  "string_schema = Schema ''string'' [] [] None"

definition api_package :: "string \<Rightarrow> string" where
  "api_package name = ''github.com/openshift/openshift-pipelines-operator/pkg/apis/operator/v1alpha1.'' @ name"

definition ObjectMeta_name :: string where
  "ObjectMeta_name = ''k8s.io/apimachinery/pkg/apis/meta/v1.ObjectMeta''"

definition schema_Config :: schema where
  "schema_Config = Schema ''object''
     [(''kind'', string_schema), (''apiVersion'', string_schema), (''metadata'', Ref ObjectMeta_name),
      (''spec'', Ref (api_package ''ConfigSpec'')), (''status'', Ref (api_package ''ConfigStatus''))] [] None"

definition schema_ConfigCondition :: schema where
  "schema_ConfigCondition = Schema ''object''
     [(''code'', string_schema), (''details'', string_schema), (''version'', string_schema),
      (''pipelineVersion'', string_schema), (''triggersVersion'', string_schema)]
     [''code'', ''version''] None"

definition schema_ConfigSpec :: schema where
  "schema_ConfigSpec = Schema ''object'' [(''targetNamespace'', string_schema)] [''targetNamespace''] None"

definition schema_ConfigStatus :: schema where
  "schema_ConfigStatus = Schema ''object''
     [(''operatorUUID'', string_schema),
      (''conditions'', Schema ''array'' [] [] (Some (Ref (api_package ''ConfigCondition''))))] [] None"

text \<open>Each definition with its dependencies.\<close>

definition GetOpenAPIDefinitions :: "(string \<times> schema \<times> string list) list" where
  "GetOpenAPIDefinitions = [
     (api_package ''Config'', schema_Config,
        [api_package ''ConfigSpec'', api_package ''ConfigStatus'', ObjectMeta_name]),
     (api_package ''ConfigCondition'', schema_ConfigCondition, []),
     (api_package ''ConfigSpec'', schema_ConfigSpec, []),
     (api_package ''ConfigStatus'', schema_ConfigStatus, [api_package ''ConfigCondition''])]"

text \<open>
  When a value has a schema: the type, the required properties, and every property that the schema
  names.  References are looked up among the definitions; for a name that is not one of them
  (\<open>ObjectMeta\<close>) \<open>ext\<close> decides.
\<close>

fun resolve :: "schema \<Rightarrow> schema" where
  "resolve (Ref name) = (case map_of GetOpenAPIDefinitions name of Some (sch, deps) \<Rightarrow> sch | None \<Rightarrow> Ref name)"
| "resolve sch = sch"

fun conforms :: "(string \<Rightarrow> json \<Rightarrow> bool) \<Rightarrow> schema \<Rightarrow> json \<Rightarrow> bool" where
  "conforms ext sch v = (case resolve sch of
       Ref name \<Rightarrow> ext name v
     | Schema ty props req items \<Rightarrow> (case v of
         JNull \<Rightarrow> False
       | JBool b \<Rightarrow> ty = ''boolean''
       | JInt n \<Rightarrow> ty = ''integer'' \<or> ty = ''number''
       | JFloat x \<Rightarrow> ty = ''number''
       | JStr x \<Rightarrow> ty = ''string''
       | JList xs \<Rightarrow> ty = ''array'' \<and>
           list_all (\<lambda>x. case items of None \<Rightarrow> True | Some s \<Rightarrow> conforms ext s x) xs
       | JObj m \<Rightarrow> ty = ''object'' \<and> list_all (\<lambda>k. map_of m k \<noteq> None) req \<and>
           list_all (\<lambda>p. case map_of props (fst p) of None \<Rightarrow> True | Some s \<Rightarrow> conforms ext s (snd p)) m))"

declare conforms.simps [simp del]

section \<open>What the schema admits\<close>

lemma conforms_string: "conforms ext string_schema v \<longleftrightarrow> (\<exists>x. v = JStr x)"
  by (cases v) (simp_all add: conforms.simps string_schema_def)

lemma resolve_defined [simp]:
  "resolve (Ref (api_package ''ConfigCondition'')) = schema_ConfigCondition"
  "resolve (Ref (api_package ''ConfigSpec'')) = schema_ConfigSpec"
  "resolve (Ref (api_package ''ConfigStatus'')) = schema_ConfigStatus"
  "resolve (Ref ObjectMeta_name) = Ref ObjectMeta_name"
  by (simp_all add: GetOpenAPIDefinitions_def api_package_def ObjectMeta_name_def)

lemma conforms_Ref: "conforms ext (Ref name) v = conforms ext (resolve (Ref name)) v"
  by (subst (1 2) conforms.simps) (auto simp: GetOpenAPIDefinitions_def schema_Config_def schema_ConfigCondition_def
      schema_ConfigSpec_def schema_ConfigStatus_def)

lemma conforms_defined:
  "conforms ext (Ref (api_package ''ConfigCondition'')) v = conforms ext schema_ConfigCondition v"
  "conforms ext (Ref (api_package ''ConfigSpec'')) v = conforms ext schema_ConfigSpec v"
  "conforms ext (Ref (api_package ''ConfigStatus'')) v = conforms ext schema_ConfigStatus v"
  by (subst conforms_Ref, simp del: resolve.simps)+

lemma conforms_meta: "conforms ext (Ref ObjectMeta_name) v = ext ObjectMeta_name v"
  by (simp add: conforms.simps del: resolve.simps)

lemma list_all_omitempty: "list_all P (omitempty key x) \<longleftrightarrow> (x \<noteq> [] \<longrightarrow> P (key, JStr x))"
  by (simp add: omitempty_def)

lemmas conforming = conforms.simps conforms_string list_all_omitempty

lemma encode_condition_conforms: "conforms ext schema_ConfigCondition (encode_condition c)"
  unfolding schema_ConfigCondition_def encode_condition_def
  by (subst conforms.simps) (auto simp: conforms_string list_all_omitempty map_add_def)

lemma encode_spec_conforms: "conforms ext schema_ConfigSpec (encode_spec ns)"
  unfolding schema_ConfigSpec_def encode_spec_def
  by (subst conforms.simps) (simp add: conforms_string)

lemma encode_status_conforms: "conforms ext schema_ConfigStatus (encode_status st)"
proof -
  have "conforms ext (Schema ''array'' [] [] (Some (Ref (api_package ''ConfigCondition''))))
      (JList (List.map encode_condition cs))" for cs
    by (subst conforms.simps)
      (simp add: list_all_iff conforms_defined encode_condition_conforms)
  then show ?thesis
    unfolding schema_ConfigStatus_def encode_status_def
    by (subst conforms.simps) (auto simp: conforms_string list_all_omitempty)
qed

text \<open>A value of a conforming object under a key is what its schema says.\<close>

definition properties_ok :: "(string \<Rightarrow> json \<Rightarrow> bool) \<Rightarrow> (string \<times> schema) list \<Rightarrow> obj \<Rightarrow> bool" where
  "properties_ok ext props m \<longleftrightarrow>
     (\<forall>k x sch. map_of m k = Some x \<and> map_of props k = Some sch \<longrightarrow> conforms ext sch x)"

lemma conforms_object:
  assumes "conforms ext (Schema ''object'' props req items) v"
  shows "\<exists>m. v = JObj m \<and> properties_ok ext props m"
proof -
  from assms obtain m where m: "v = JObj m"
      "list_all (\<lambda>p. case map_of props (fst p) of None \<Rightarrow> True | Some s \<Rightarrow> conforms ext s (snd p)) m"
    by (cases v) (simp_all add: conforms.simps)
  have "conforms ext sch x" if x: "map_of m k = Some x" and sch: "map_of props k = Some sch" for k x sch
  proof -
    from x have "(k, x) \<in> set m" by (rule map_of_SomeD)
    with m(2) sch show ?thesis by (auto simp: list_all_iff)
  qed
  with m(1) show ?thesis by (auto simp: properties_ok_def)
qed

lemma properties_okD:
  "properties_ok ext props m \<Longrightarrow> map_of m k = Some x \<Longrightarrow> map_of props k = Some sch \<Longrightarrow> conforms ext sch x"
  by (auto simp: properties_ok_def)

lemma string_property:
  assumes "properties_ok ext props m" and "map_of props k = Some string_schema"
  shows "\<exists>x. string_field m k = Ok x"
  using properties_okD [OF assms(1) _ assms(2)]
  by (cases "map_of m k") (auto simp: string_field_def conforms_string)

lemma struct_property:
  assumes "properties_ok ext props m" and "map_of props k = Some sch"
    and "\<And>v. conforms ext sch v \<Longrightarrow> \<exists>x. v = JObj x \<and> P x" and "P []"
  shows "\<exists>x. struct_field m k = Ok x \<and> P x"
  using properties_okD [OF assms(1) _ assms(2)] assms(3,4)
  by (cases "map_of m k") (fastforce simp: struct_field_def)+

lemma decode_condition_conforms:
  assumes "conforms ext schema_ConfigCondition v"
  shows "\<exists>c. decode_condition v = Ok c \<and> canonical (Code c)"
proof -
  from conforms_object [OF assms [unfolded schema_ConfigCondition_def]] obtain m where m: "v = JObj m"
    and props: "properties_ok ext [(''code'', string_schema), (''details'', string_schema),
        (''version'', string_schema), (''pipelineVersion'', string_schema), (''triggersVersion'', string_schema)] m"
    by blast
  from string_property [OF props, of "''code''"] string_property [OF props, of "''details''"]
    string_property [OF props, of "''version''"] string_property [OF props, of "''pipelineVersion''"]
    string_property [OF props, of "''triggersVersion''"]
  show ?thesis by (auto simp: m decode_condition_def canonical_parsed)
qed

definition readable :: "ConfigStatus res \<Rightarrow> bool" where
  "readable r \<longleftrightarrow> (\<exists>st. r = Ok st \<and> list_all (\<lambda>c. canonical (Code c)) (Conditions st))"

lemma decode_conditions_conform:
  "list_all (conforms ext schema_ConfigCondition) xs \<Longrightarrow>
   \<exists>cs. res_mapM decode_condition xs = Ok cs \<and> list_all (\<lambda>c. canonical (Code c)) cs"
proof (induction xs)
  case (Cons x xs)
  then show ?case using decode_condition_conforms [of ext x] by auto
qed simp

lemma decode_status_conforms:
  assumes "conforms ext schema_ConfigStatus v"
  shows "\<exists>m. v = JObj m \<and> readable (decode_status m)"
proof -
  let ?items = "Schema ''array'' [] [] (Some (Ref (api_package ''ConfigCondition'')))"
  from conforms_object [OF assms [unfolded schema_ConfigStatus_def]] obtain m where m: "v = JObj m"
    and props: "properties_ok ext [(''operatorUUID'', string_schema), (''conditions'', ?items)] m"
    by blast
  from string_property [OF props, of "''operatorUUID''"] obtain uuid where
    "string_field m ''operatorUUID'' = Ok uuid" by auto
  moreover have "\<exists>xs. slice_field m ''conditions'' = Ok xs \<and> list_all (conforms ext schema_ConfigCondition) xs"
  proof (cases "map_of m ''conditions''")
    case None
    then show ?thesis by (simp add: slice_field_def)
  next
    case (Some x)
    with properties_okD [OF props, of "''conditions''" x ?items] have x: "conforms ext ?items x" by simp
    then obtain xs where "x = JList xs" by (cases x) (simp_all add: conforms.simps)
    moreover from this x have "list_all (conforms ext schema_ConfigCondition) xs"
      by (simp add: conforms.simps [of ext ?items] conforms_defined)
    ultimately show ?thesis using Some by (simp add: slice_field_def)
  qed
  ultimately show ?thesis
    using decode_conditions_conform by (fastforce simp: m readable_def decode_status_def)
qed

lemma encode_config_conforms:
  assumes "ext ObjectMeta_name (encode_meta cfg)"
  shows "conforms ext schema_Config (encode_config cfg)"
  unfolding schema_Config_def encode_config_def
  by (subst conforms.simps)
    (use assms in \<open>simp add: conforms_string list_all_omitempty conforms_defined conforms_meta
       encode_spec_conforms encode_status_conforms\<close>)

text \<open>What the decoder needs of the metadata.\<close>

definition meta_readable :: "json \<Rightarrow> bool" where
  "meta_readable v \<longleftrightarrow> (\<exists>m. v = JObj m \<and>
     list_all (\<lambda>k. \<exists>x. string_field m k = Ok x) [''name'', ''namespace'', ''uid'', ''resourceVersion''])"

lemma decode_config_conforms:
  assumes "conforms ext schema_Config v" and "\<And>x. ext ObjectMeta_name x \<Longrightarrow> meta_readable x"
  shows "\<exists>cfg. decode_config v = Ok cfg \<and> list_all (\<lambda>c. canonical (Code c)) (Conditions (Status cfg))"
proof -
  from conforms_object [OF assms(1) [unfolded schema_Config_def]] obtain m where m: "v = JObj m"
    and props: "properties_ok ext [(''kind'', string_schema), (''apiVersion'', string_schema),
        (''metadata'', Ref ObjectMeta_name), (''spec'', Ref (api_package ''ConfigSpec'')),
        (''status'', Ref (api_package ''ConfigStatus''))] m"
    by blast
  have empty: "string_field [] k = Ok []" "slice_field [] k = Ok []" for k
    by (simp_all add: string_field_def slice_field_def)
  from string_property [OF props, of "''kind''"] string_property [OF props, of "''apiVersion''"]
  obtain kind api where "string_field m ''kind'' = Ok kind" "string_field m ''apiVersion'' = Ok api" by auto
  moreover have "\<exists>x. struct_field m ''metadata'' = Ok x \<and> meta_readable (JObj x)"
    by (rule struct_property [OF props])
      (use assms(2) in \<open>auto simp: conforms_meta meta_readable_def empty\<close>)
  then obtain meta nm ns uid rv where "struct_field m ''metadata'' = Ok meta" "string_field meta ''name'' = Ok nm"
      "string_field meta ''namespace'' = Ok ns" "string_field meta ''uid'' = Ok uid"
      "string_field meta ''resourceVersion'' = Ok rv"
    by (auto simp: meta_readable_def)
  moreover have "\<exists>x. struct_field m ''spec'' = Ok x \<and> (\<exists>ns. string_field x ''targetNamespace'' = Ok ns)"
    by (rule struct_property [OF props])
      (use string_property [of ext "[(''targetNamespace'', string_schema)]" _ "''targetNamespace''"] in
         \<open>auto simp: conforms_defined schema_ConfigSpec_def empty dest!: conforms_object\<close>)
  then obtain spec tns where "struct_field m ''spec'' = Ok spec" "string_field spec ''targetNamespace'' = Ok tns"
    by blast
  moreover have "\<exists>x. struct_field m ''status'' = Ok x \<and> readable (decode_status x)"
    by (rule struct_property [OF props])
      (auto simp: conforms_defined dest!: decode_status_conforms, simp add: decode_status_def empty readable_def)
  then obtain status st where "struct_field m ''status'' = Ok status" "decode_status status = Ok st"
      "list_all (\<lambda>c. canonical (Code c)) (Conditions st)"
    by (auto simp: readable_def)
  ultimately show ?thesis by (simp add: m decode_config_def)
qed

section \<open>Properties\<close>

text \<open>C21:
  The status survives the wire: a Config that was read, with a condition of the operator put in front, is
  read back as it was written, the unknown codes of other versions included.
\<close>

theorem status_round_trip:
  assumes "decode_config v = Ok cfg" and "Code c \<in> set named_statuses"
  shows "decode_config (encode_config (with_condition uuid c cfg)) = Ok (with_condition uuid c cfg)"
proof -
  have conditions: "list_all (\<lambda>c. canonical (Code c)) cs" if "res_mapM decode_condition xs = Ok cs" for xs cs
    using that
    by (induction xs arbitrary: cs) (auto simp: res_bind_eq_Ok decode_condition_def canonical_parsed)
  from assms(1) obtain m where "decode_status m = Ok (Status cfg)"
    by (auto simp: decode_config_def res_bind_eq_Ok)
  then obtain xs where "res_mapM decode_condition xs = Ok (Conditions (Status cfg))"
    by (cases "Status cfg") (auto simp: decode_status_def res_bind_eq_Ok)
  then have "list_all (\<lambda>c. canonical (Code c)) (Conditions (Status cfg))" by (rule conditions)
  with canonical_named [OF assms(2)] show ?thesis by (intro decode_encode_config) simp
qed


section \<open>Witnesses\<close>

definition written_config :: json where
  "written_config = JObj [(''kind'', JStr ''Config''), (''metadata'', JObj [(''name'', JStr ''cluster'')]),
     (''spec'', JObj [(''targetNamespace'', JStr ''ns'')]),
     (''status'', JObj [(''conditions'', JList [JObj [(''code'', JStr ''installing''), (''version'', JStr ''v0'')]])])]"

theorem status_round_trip_witness:
  "\<exists>cfg. decode_config written_config = Ok cfg \<and>
     decode_config (encode_config (with_condition ''id'' (condition AppliedPipeline ''v1'') cfg)) =
       Ok (with_condition ''id'' (condition AppliedPipeline ''v1'') cfg)"
proof -
  have "is_ok (decode_config written_config)" by code_simp
  then obtain cfg where cfg: "decode_config written_config = Ok cfg" by (rule is_okE)
  have "Code (condition AppliedPipeline ''v1'') \<in> set named_statuses"
    by (simp add: condition_def named_statuses_def)
  from status_round_trip [OF cfg this] cfg show ?thesis by blast
qed


end
