(* ===== verification/DeepCopy.thy ===== *)
theory DeepCopy imports ConfigTypes begin

text \<open>
  The copies of \<open>zz_generated.deepcopy.go\<close>, with the arrays that Go's slices share.

  Elsewhere a \<open>Config\<close> is a value.  In the program its conditions are a slice, and an assignment of
  the struct (\<open>*out = *in\<close>) copies the slice, not the array behind it.  Here a slice is an address and a
  length, \<open>memory\<close> holds the arrays, and \<open>DeepCopyInto\<close> allocates; \<open>abs_config\<close> reads the value back.
  Capacities play no role: the only \<open>append\<close> is to a literal of one element, which always ends in an
  array of its own.  The metadata is opaque, \<open>copy_meta\<close> is \<open>ObjectMeta.DeepCopyInto\<close>.
\<close>

section \<open>Memory\<close>

datatype slice = NilSlice | Slice nat nat

record ConfigStatus_struct =
  c_OperatorUUID :: string
  c_Conditions :: slice

text \<open>\<open>c_TypeMeta\<close> is the kind and the API version, \<open>c_Spec\<close> the target namespace.\<close>

record 'm Config_struct =
  c_TypeMeta :: "string \<times> string"
  c_ObjectMeta :: 'm
  c_Spec :: string
  c_Status :: ConfigStatus_struct

record ('m, 'l) ConfigList_struct =
  l_TypeMeta :: "string \<times> string"
  l_ListMeta :: 'l
  l_Items :: slice

record 'm memory =
  conds :: "ConfigCondition list list"
  configs :: "'m Config_struct list list"

definition zeroCondition :: ConfigCondition where
  "zeroCondition = \<lparr>Code = OtherStatus [], Details = [], CVersion = [], PipelineVersion = [], TriggersVersion = []\<rparr>"

text \<open>\<open>make([]ConfigCondition, n)\<close>, \<open>copy(dst, src)\<close> and the elements of a slice.\<close>

definition make_conds :: "nat \<Rightarrow> 'm memory \<Rightarrow> slice \<times> 'm memory" where
  "make_conds n mem = (Slice (length (conds mem)) n, mem\<lparr>conds := conds mem @ [replicate n zeroCondition]\<rparr>)"

fun slice_conds :: "'m memory \<Rightarrow> slice \<Rightarrow> ConfigCondition list" where
  "slice_conds mem NilSlice = []"
| "slice_conds mem (Slice a n) = take n (conds mem ! a)"

fun write_conds :: "slice \<Rightarrow> ConfigCondition list \<Rightarrow> 'm memory \<Rightarrow> 'm memory" where
  "write_conds NilSlice xs mem = mem"
| "write_conds (Slice a n) xs mem =
     mem\<lparr>conds := (conds mem)[a := take n xs @ drop (min n (length xs)) (conds mem ! a)]\<rparr>"

definition copy_conds :: "slice \<Rightarrow> slice \<Rightarrow> 'm memory \<Rightarrow> 'm memory" where
  "copy_conds dst src mem = write_conds dst (slice_conds mem src) mem"

section \<open>The generated functions\<close>

text \<open>The value is \<open>*out\<close> after the call.\<close>

definition DeepCopyInto_ConfigCondition :: "ConfigCondition \<Rightarrow> ConfigCondition" where
  "DeepCopyInto_ConfigCondition c = c"

definition DeepCopyInto_ConfigSpec :: "string \<Rightarrow> string" where
  "DeepCopyInto_ConfigSpec spec = spec"

definition DeepCopyInto_ConfigStatus ::
  "ConfigStatus_struct \<Rightarrow> 'm memory \<Rightarrow> ConfigStatus_struct \<times> 'm memory" where
  "DeepCopyInto_ConfigStatus st mem = (case c_Conditions st of
       NilSlice \<Rightarrow> (st, mem)
     | Slice a n \<Rightarrow> (case make_conds n mem of
         (dst, mem) \<Rightarrow> (st\<lparr>c_Conditions := dst\<rparr>, copy_conds dst (Slice a n) mem)))"

definition DeepCopyInto_Config ::
  "('m \<Rightarrow> 'm) \<Rightarrow> 'm Config_struct \<Rightarrow> 'm memory \<Rightarrow> 'm Config_struct \<times> 'm memory" where
  "DeepCopyInto_Config copy_meta cfg mem = (case DeepCopyInto_ConfigStatus (c_Status cfg) mem of
       (st, mem) \<Rightarrow> (cfg\<lparr>c_ObjectMeta := copy_meta (c_ObjectMeta cfg), c_Status := st\<rparr>, mem))"

text \<open>The loop over the items: element \<open>i\<close> of the array \<open>a\<close> is copied into element \<open>i\<close> of \<open>b\<close>.\<close>

fun copy_items :: "('m \<Rightarrow> 'm) \<Rightarrow> nat \<Rightarrow> nat \<Rightarrow> nat list \<Rightarrow> 'm memory \<Rightarrow> 'm memory" where
  "copy_items copy_meta a b [] mem = mem"
| "copy_items copy_meta a b (i # is) mem =
     (case DeepCopyInto_Config copy_meta (configs mem ! a ! i) mem of
        (out, mem) \<Rightarrow> copy_items copy_meta a b is
          (mem\<lparr>configs := (configs mem)[b := (configs mem ! b)[i := out]]\<rparr>))"

text \<open>\<open>zero\<close> is the zero value of a Config, which \<open>make([]Config, n)\<close> fills the array with.\<close>

definition DeepCopyInto_ConfigList ::
  "('m \<Rightarrow> 'm) \<Rightarrow> ('l \<Rightarrow> 'l) \<Rightarrow> 'm Config_struct \<Rightarrow> ('m, 'l) ConfigList_struct \<Rightarrow> 'm memory
   \<Rightarrow> ('m, 'l) ConfigList_struct \<times> 'm memory" where
  "DeepCopyInto_ConfigList copy_meta copy_list zero l mem =
     (let l = l\<lparr>l_ListMeta := copy_list (l_ListMeta l)\<rparr>
      in case l_Items l of
        NilSlice \<Rightarrow> (l, mem)
      | Slice a n \<Rightarrow>
          (let b = length (configs mem); mem = mem\<lparr>configs := configs mem @ [replicate n zero]\<rparr>
           in (l\<lparr>l_Items := Slice b n\<rparr>, copy_items copy_meta a b [0 ..< n] mem)))"

text \<open>
  \<open>DeepCopy\<close>: a new object for a pointer that is not nil.  \<open>DeepCopyObject\<close> gives the same as an interface,
  and its test for nil keeps a nil pointer from becoming an interface that is not nil.
\<close>

definition new_copy :: "('a \<Rightarrow> 's \<Rightarrow> 'a \<times> 's) \<Rightarrow> 'a option \<Rightarrow> 's \<Rightarrow> 'a option \<times> 's" where
  "new_copy into p mem = (case p of None \<Rightarrow> (None, mem) | Some x \<Rightarrow> map_prod Some id (into x mem))"

definition DeepCopy_Config ::
  "('m \<Rightarrow> 'm) \<Rightarrow> 'm Config_struct option \<Rightarrow> 'm memory \<Rightarrow> 'm Config_struct option \<times> 'm memory" where
  "DeepCopy_Config copy_meta = new_copy (DeepCopyInto_Config copy_meta)"

definition DeepCopyObject_Config ::
  "('m \<Rightarrow> 'm) \<Rightarrow> 'm Config_struct option \<Rightarrow> 'm memory \<Rightarrow> 'm Config_struct option \<times> 'm memory" where
  "DeepCopyObject_Config copy_meta p mem = (case DeepCopy_Config copy_meta p mem of
     (Some c, mem) \<Rightarrow> (Some c, mem) | (None, mem) \<Rightarrow> (None, mem))"

definition DeepCopy_ConfigList ::
  "('m \<Rightarrow> 'm) \<Rightarrow> ('l \<Rightarrow> 'l) \<Rightarrow> 'm Config_struct \<Rightarrow> ('m, 'l) ConfigList_struct option \<Rightarrow> 'm memory
   \<Rightarrow> ('m, 'l) ConfigList_struct option \<times> 'm memory" where
  "DeepCopy_ConfigList copy_meta copy_list zero = new_copy (DeepCopyInto_ConfigList copy_meta copy_list zero)"

definition DeepCopyObject_ConfigList ::
  "('m \<Rightarrow> 'm) \<Rightarrow> ('l \<Rightarrow> 'l) \<Rightarrow> 'm Config_struct \<Rightarrow> ('m, 'l) ConfigList_struct option \<Rightarrow> 'm memory
   \<Rightarrow> ('m, 'l) ConfigList_struct option \<times> 'm memory" where
  "DeepCopyObject_ConfigList copy_meta copy_list zero p mem =
     (case DeepCopy_ConfigList copy_meta copy_list zero p mem of
        (Some c, mem) \<Rightarrow> (Some c, mem) | (None, mem) \<Rightarrow> (None, mem))"

definition DeepCopy_ConfigStatus ::
  "ConfigStatus_struct option \<Rightarrow> 'm memory \<Rightarrow> ConfigStatus_struct option \<times> 'm memory" where
  "DeepCopy_ConfigStatus = new_copy DeepCopyInto_ConfigStatus"

definition DeepCopy_ConfigCondition :: "ConfigCondition option \<Rightarrow> ConfigCondition option" where
  "DeepCopy_ConfigCondition = map_option DeepCopyInto_ConfigCondition"

definition DeepCopy_ConfigSpec :: "string option \<Rightarrow> string option" where
  "DeepCopy_ConfigSpec = map_option DeepCopyInto_ConfigSpec"

section \<open>The status that is sent\<close>

text \<open>\<open>append([]ConfigCondition{c}, xs...)\<close>\<close>

definition prepend :: "ConfigCondition \<Rightarrow> slice \<Rightarrow> 'm memory \<Rightarrow> slice \<times> 'm memory" where
  "prepend c xs mem =
     (Slice (length (conds mem)) (Suc (length (slice_conds mem xs))),
      mem\<lparr>conds := conds mem @ [c # slice_conds mem xs]\<rparr>)"

text \<open>
  The three lines of \<open>updateStatus\<close> that make \<open>tmp\<close>; \<open>cfg\<close> is not nil, and \<open>cfg.DeepCopy()\<close> is what
  \<open>DeepCopyInto\<close> writes.
\<close>

definition status_copy ::
  "('m \<Rightarrow> 'm) \<Rightarrow> string \<Rightarrow> ConfigCondition \<Rightarrow> 'm Config_struct \<Rightarrow> 'm memory \<Rightarrow> 'm Config_struct \<times> 'm memory" where
  "status_copy copy_meta uuid c cfg mem = (case DeepCopyInto_Config copy_meta cfg mem of
     (tmp, mem) \<Rightarrow> (case prepend c (c_Conditions (c_Status tmp)) mem of
       (cs, mem) \<Rightarrow> (tmp\<lparr>c_Status := \<lparr>c_OperatorUUID = uuid, c_Conditions = cs\<rparr>\<rparr>, mem)))"

section \<open>Values\<close>

text \<open>\<open>meta_of\<close>: name, UID, namespace and resource version.\<close>

definition abs_config ::
  "('m \<Rightarrow> string \<times> string \<times> string \<times> string) \<Rightarrow> 'm memory \<Rightarrow> 'm Config_struct \<Rightarrow> Config" where
  "abs_config meta_of mem cfg = (case meta_of (c_ObjectMeta cfg) of (name, uid, ns, rv) \<Rightarrow>
     \<lparr>Cfg_owner = \<lparr>owner_apiVersion = snd (c_TypeMeta cfg), owner_kind = fst (c_TypeMeta cfg),
        owner_name = name, owner_uid = uid\<rparr>,
      Cfg_resourceVersion = rv, Cfg_namespace = ns, Cfg_TargetNamespace = c_Spec cfg,
      Status = \<lparr>StatusOperatorUUID = c_OperatorUUID (c_Status cfg),
                Conditions = slice_conds mem (c_Conditions (c_Status cfg))\<rparr>\<rparr>)"

fun slice_ok :: "'a list list \<Rightarrow> slice \<Rightarrow> bool" where
  "slice_ok arrays NilSlice = True"
| "slice_ok arrays (Slice a n) = (a < length arrays \<and> n \<le> length (arrays ! a))"

definition config_ok :: "'m memory \<Rightarrow> 'm Config_struct \<Rightarrow> bool" where
  "config_ok mem cfg \<longleftrightarrow> slice_ok (conds mem) (c_Conditions (c_Status cfg))"

text \<open>\<open>fresh mem s\<close>: the slice has its own array, which is not in \<open>mem\<close>.  \<open>grows mem mem'\<close>: no array of \<open>mem\<close> has changed.\<close>

fun fresh :: "'m memory \<Rightarrow> slice \<Rightarrow> bool" where
  "fresh mem NilSlice = True"
| "fresh mem (Slice a n) = (length (conds mem) \<le> a)"

definition grows :: "'m memory \<Rightarrow> 'm memory \<Rightarrow> bool" where
  "grows mem mem' \<longleftrightarrow> (\<exists>xs. conds mem' = conds mem @ xs)"

lemma grows_refl [simp]: "grows mem mem"
  and grows_trans: "grows mem mem' \<Longrightarrow> grows mem' mem'' \<Longrightarrow> grows mem mem''"
  by (auto simp: grows_def)

lemma fresh_grows: "grows mem mem' \<Longrightarrow> fresh mem' s \<Longrightarrow> fresh mem s"
  by (cases s) (auto simp: grows_def)

lemma grows_slice:
  "grows mem mem' \<Longrightarrow> slice_ok (conds mem) s \<Longrightarrow> slice_conds mem' s = slice_conds mem s \<and> slice_ok (conds mem') s"
  by (cases s) (auto simp: grows_def nth_append)

lemma write_fresh:
  "fresh mem s \<Longrightarrow> slice_ok (conds mem) x \<Longrightarrow> grows mem mem' \<Longrightarrow>
   slice_conds (write_conds s ys mem') x = slice_conds mem x"
  by (cases s; cases x) (auto simp: grows_def nth_append nth_list_update)

lemma grows_config:
  "grows mem mem' \<Longrightarrow> config_ok mem cfg \<Longrightarrow> abs_config meta_of mem' cfg = abs_config meta_of mem cfg \<and> config_ok mem' cfg"
  using grows_slice by (fastforce simp: config_ok_def abs_config_def split: prod.split)

section \<open>What a copy is\<close>

text \<open>The contract of a copy of a status: the same contents in an array of its own, nothing else changed.\<close>

definition copied_slice :: "'m memory \<Rightarrow> slice \<Rightarrow> 'm memory \<Rightarrow> slice \<Rightarrow> bool" where
  "copied_slice mem s mem' s' \<longleftrightarrow> grows mem mem' \<and> fresh mem s' \<and> slice_ok (conds mem') s' \<and>
     slice_conds mem' s' = slice_conds mem s"

lemma DeepCopyInto_ConfigStatus_run:
  assumes "slice_ok (conds mem) (c_Conditions st)" and "DeepCopyInto_ConfigStatus st mem = (out, mem')"
  shows "c_OperatorUUID out = c_OperatorUUID st \<and> configs mem' = configs mem \<and>
     copied_slice mem (c_Conditions st) mem' (c_Conditions out)"
  using assms
  by (cases "c_Conditions st")
    (auto simp: DeepCopyInto_ConfigStatus_def make_conds_def copy_conds_def copied_slice_def grows_def nth_append
      list_update_append)

lemma DeepCopyInto_Config_run:
  assumes "config_ok mem cfg" and "DeepCopyInto_Config copy_meta cfg mem = (out, mem')"
  shows "copied_slice mem (c_Conditions (c_Status cfg)) mem' (c_Conditions (c_Status out))"
    and "configs mem' = configs mem" and "config_ok mem' out"
    and "c_ObjectMeta out = copy_meta (c_ObjectMeta cfg)"
    and "c_TypeMeta out = c_TypeMeta cfg" "c_Spec out = c_Spec cfg"
    and "c_OperatorUUID (c_Status out) = c_OperatorUUID (c_Status cfg)"
proof -
  obtain st m where st: "DeepCopyInto_ConfigStatus (c_Status cfg) mem = (st, m)"
    by (cases "DeepCopyInto_ConfigStatus (c_Status cfg) mem")
  with assms DeepCopyInto_ConfigStatus_run [OF _ st]
  show "copied_slice mem (c_Conditions (c_Status cfg)) mem' (c_Conditions (c_Status out))"
    "configs mem' = configs mem" "config_ok mem' out"
    "c_ObjectMeta out = copy_meta (c_ObjectMeta cfg)" "c_TypeMeta out = c_TypeMeta cfg" "c_Spec out = c_Spec cfg"
    "c_OperatorUUID (c_Status out) = c_OperatorUUID (c_Status cfg)"
    by (auto simp: DeepCopyInto_Config_def config_ok_def copied_slice_def)
qed

lemma abs_config_copy:
  assumes "config_ok mem cfg" and "DeepCopyInto_Config copy_meta cfg mem = (out, mem')"
    and "meta_of (copy_meta (c_ObjectMeta cfg)) = meta_of (c_ObjectMeta cfg)"
  shows "abs_config meta_of mem' out = abs_config meta_of mem cfg"
  using DeepCopyInto_Config_run [OF assms(1,2)] assms(3)
  by (simp add: abs_config_def copied_slice_def)

lemma status_copy_run:
  assumes "config_ok mem cfg" and "status_copy copy_meta uuid c cfg mem = (tmp, mem')"
    and "meta_of (copy_meta (c_ObjectMeta cfg)) = meta_of (c_ObjectMeta cfg)"
  shows "abs_config meta_of mem' tmp = with_condition uuid c (abs_config meta_of mem cfg) \<and>
     grows mem mem' \<and> fresh mem (c_Conditions (c_Status tmp))"
proof -
  obtain out m where out: "DeepCopyInto_Config copy_meta cfg mem = (out, m)"
    by (cases "DeepCopyInto_Config copy_meta cfg mem")
  note run = DeepCopyInto_Config_run [OF assms(1) out]
  from run(1) have "grows mem m"
    and same: "slice_conds m (c_Conditions (c_Status out)) = slice_conds mem (c_Conditions (c_Status cfg))"
    by (simp_all add: copied_slice_def)
  with assms(2) out have "grows mem mem' \<and> fresh mem (c_Conditions (c_Status tmp))"
    by (auto simp: status_copy_def prepend_def grows_def)
  moreover have "abs_config meta_of mem' tmp = with_condition uuid c (abs_config meta_of mem cfg)"
    using assms(2,3) out run same
    by (auto simp: status_copy_def prepend_def abs_config_def with_condition_def nth_append split: prod.splits)
  ultimately show ?thesis by simp
qed

lemma write_fresh_config:
  assumes "grows mem mem'" and "fresh mem s" and "config_ok mem x"
  shows "abs_config meta_of (write_conds s ys mem') x = abs_config meta_of mem x"
  using write_fresh [OF assms(2) _ assms(1), of "c_Conditions (c_Status x)"] assms(3)
  by (simp add: abs_config_def config_ok_def split: prod.split)

text \<open>C20:
  Working on a copy is what the model says it is.  A copy of a Config has its value, and what is
  written into its conditions changes neither the Config it was made of nor any other.  The memory
  that \<open>updateStatus\<close> prepares for the API server holds the Config that was read with the new condition in
  front, and what the client writes into it (it decodes the server's answer there) changes no other
  Config either.
\<close>

theorem status_copy_refines:
  assumes "config_ok mem cfg" and "meta_of (copy_meta (c_ObjectMeta cfg)) = meta_of (c_ObjectMeta cfg)"
    and "DeepCopyInto_Config copy_meta cfg mem = (out, mem1)"
    and "status_copy copy_meta uuid c cfg mem = (tmp, mem2)"
  shows "abs_config meta_of mem1 out = abs_config meta_of mem cfg \<and>
     abs_config meta_of mem2 tmp = with_condition uuid c (abs_config meta_of mem cfg) \<and>
     (\<forall>x. config_ok mem x \<longrightarrow>
        abs_config meta_of (write_conds (c_Conditions (c_Status out)) ys mem1) x = abs_config meta_of mem x \<and>
        abs_config meta_of (write_conds (c_Conditions (c_Status tmp)) ys mem2) x = abs_config meta_of mem x)"
  using abs_config_copy [of mem cfg copy_meta out mem1 meta_of, OF assms(1,3,2)]
    status_copy_run [of mem cfg copy_meta uuid c tmp mem2 meta_of, OF assms(1,4,2)]
    DeepCopyInto_Config_run(1) [OF assms(1,3)] write_fresh_config
  unfolding copied_slice_def by metis

section \<open>Lists\<close>

text \<open>\<open>y\<close> in \<open>mem'\<close> is a copy of \<open>x\<close> in \<open>mem\<close>.\<close>

definition item_copied :: "('m \<Rightarrow> 'm) \<Rightarrow> 'm memory \<Rightarrow> 'm Config_struct \<Rightarrow> 'm memory \<Rightarrow> 'm Config_struct \<Rightarrow> bool" where
  "item_copied copy_meta mem x mem' y \<longleftrightarrow>
     c_ObjectMeta y = copy_meta (c_ObjectMeta x) \<and> c_TypeMeta y = c_TypeMeta x \<and> c_Spec y = c_Spec x \<and>
     c_OperatorUUID (c_Status y) = c_OperatorUUID (c_Status x) \<and>
     copied_slice mem (c_Conditions (c_Status x)) mem' (c_Conditions (c_Status y))"

fun apart :: "slice \<Rightarrow> slice \<Rightarrow> bool" where
  "apart (Slice a n) (Slice b m) = (a \<noteq> b)"
| "apart s t = True"

lemma item_copied_later:
  assumes "item_copied copy_meta mem x m1 y" and "grows m1 m2"
  shows "item_copied copy_meta mem x m2 y"
  using assms grows_slice [OF assms(2), of "c_Conditions (c_Status y)"] grows_trans
  by (auto simp: item_copied_def copied_slice_def)

lemma item_copied_earlier:
  assumes "item_copied copy_meta m1 x m2 y" and "grows mem m1" and "config_ok mem x"
  shows "item_copied copy_meta mem x m2 y"
  using assms grows_slice [OF assms(2), of "c_Conditions (c_Status x)"] fresh_grows grows_trans
  by (auto simp: item_copied_def copied_slice_def config_ok_def)

lemma apart_fresh: "slice_ok (conds mem) s \<Longrightarrow> fresh mem t \<Longrightarrow> apart s t \<and> apart t s"
  by (cases s; cases t) auto

lemma copy_items_run:
  assumes "a \<noteq> b" and "b < length (configs mem)" and "distinct is"
    and "\<forall>i \<in> set is. i < length (configs mem ! b)" and "\<forall>i \<in> set is. config_ok mem (configs mem ! a ! i)"
    and "mem' = copy_items copy_meta a b is mem"
  shows "grows mem mem' \<and> length (configs mem') = length (configs mem) \<and>
    (\<forall>k. k \<noteq> b \<longrightarrow> configs mem' ! k = configs mem ! k) \<and>
    length (configs mem' ! b) = length (configs mem ! b) \<and>
    (\<forall>i. i \<notin> set is \<longrightarrow> configs mem' ! b ! i = configs mem ! b ! i) \<and>
    (\<forall>i \<in> set is. item_copied copy_meta mem (configs mem ! a ! i) mem' (configs mem' ! b ! i)) \<and>
    (\<forall>i \<in> set is. \<forall>j \<in> set is. i \<noteq> j \<longrightarrow>
       apart (c_Conditions (c_Status (configs mem' ! b ! i))) (c_Conditions (c_Status (configs mem' ! b ! j))))"
  using assms(2-)
proof (induction "is" arbitrary: mem)
  case Nil
  then show ?case by simp
next
  case (Cons k ks)
  obtain out m where out: "DeepCopyInto_Config copy_meta (configs mem ! a ! k) mem = (out, m)"
    by (cases "DeepCopyInto_Config copy_meta (configs mem ! a ! k) mem")
  from Cons.prems have ok: "config_ok mem (configs mem ! a ! k)" by simp
  note run = DeepCopyInto_Config_run [OF ok out]
  let ?m = "m\<lparr>configs := (configs m)[b := (configs m ! b)[k := out]]\<rparr>"
  have m: "grows mem ?m" "configs m = configs mem" using run(1,2) by (simp_all add: copied_slice_def grows_def)
  have copied: "item_copied copy_meta mem (configs mem ! a ! k) ?m out"
    using run by (simp add: item_copied_def copied_slice_def grows_def) (cases "c_Conditions (c_Status out)"; simp)
  have rest: "mem' = copy_items copy_meta a b ks ?m" using Cons.prems(5) out by simp
  have oks: "\<forall>i \<in> set ks. config_ok ?m (configs ?m ! a ! i)"
    using Cons.prems(4) grows_config [OF m(1)] assms(1) m(2) by (simp add: nth_list_update)
  have IH: "grows ?m mem' \<and> length (configs mem') = length (configs ?m) \<and>
    (\<forall>k. k \<noteq> b \<longrightarrow> configs mem' ! k = configs ?m ! k) \<and>
    length (configs mem' ! b) = length (configs ?m ! b) \<and>
    (\<forall>i. i \<notin> set ks \<longrightarrow> configs mem' ! b ! i = configs ?m ! b ! i) \<and>
    (\<forall>i \<in> set ks. item_copied copy_meta ?m (configs ?m ! a ! i) mem' (configs mem' ! b ! i)) \<and>
    (\<forall>i \<in> set ks. \<forall>j \<in> set ks. i \<noteq> j \<longrightarrow>
       apart (c_Conditions (c_Status (configs mem' ! b ! i))) (c_Conditions (c_Status (configs mem' ! b ! j))))"
    using Cons.prems m(2) by (intro Cons.IH oks rest) auto
  have k: "configs mem' ! b ! k = out"
    using IH Cons.prems(1-3) m(2) by simp
  have others: "item_copied copy_meta ?m (configs mem ! a ! i) mem' (configs mem' ! b ! i)" if "i \<in> set ks" for i
    using IH that assms(1) m(2) by simp
  have items: "item_copied copy_meta mem (configs mem ! a ! i) mem' (configs mem' ! b ! i)" if "i \<in> set (k # ks)" for i
    using that k item_copied_later [OF copied, of mem'] IH others item_copied_earlier [OF _ m(1)] Cons.prems(4)
    by auto
  have "slice_ok (conds ?m) (c_Conditions (c_Status out))"
    using copied by (simp add: item_copied_def copied_slice_def)
  then have "apart (c_Conditions (c_Status out)) (c_Conditions (c_Status (configs mem' ! b ! i))) \<and>
      apart (c_Conditions (c_Status (configs mem' ! b ! i))) (c_Conditions (c_Status out))" if "i \<in> set ks" for i
    using others [OF that]
    by (intro apart_fresh [of ?m]) (simp_all add: item_copied_def copied_slice_def)
  then have pairs: "\<forall>i \<in> set (k # ks). \<forall>j \<in> set (k # ks). i \<noteq> j \<longrightarrow>
       apart (c_Conditions (c_Status (configs mem' ! b ! i))) (c_Conditions (c_Status (configs mem' ! b ! j)))"
    using IH k by auto
  have "grows mem mem'" using grows_trans [OF m(1)] IH by blast
  with IH items pairs m(2) Cons.prems(1) show ?case by (auto simp: nth_list_update)
qed

definition list_ok :: "'m memory \<Rightarrow> ('m, 'l) ConfigList_struct \<Rightarrow> bool" where
  "list_ok mem l \<longleftrightarrow> slice_ok (configs mem) (l_Items l) \<and>
     (case l_Items l of NilSlice \<Rightarrow> True
      | Slice a n \<Rightarrow> (\<forall>i < n. config_ok mem (configs mem ! a ! i)))"

fun slice_items :: "'m memory \<Rightarrow> slice \<Rightarrow> 'm Config_struct list" where
  "slice_items mem NilSlice = []"
| "slice_items mem (Slice a n) = take n (configs mem ! a)"

text \<open>
  The copy of a list: every item is a copy with an array of its own, no two items share one, and the
  arrays that were there are as they were.
\<close>

theorem DeepCopyInto_ConfigList_copies:
  assumes "list_ok mem l" and "DeepCopyInto_ConfigList copy_meta copy_list zero l mem = (out, mem')"
  shows "list_all2 (\<lambda>x y. item_copied copy_meta mem x mem' y) (slice_items mem (l_Items l)) (slice_items mem' (l_Items out)) \<and>
     (\<forall>i < length (slice_items mem' (l_Items out)). \<forall>j < length (slice_items mem' (l_Items out)). i \<noteq> j \<longrightarrow>
        apart (c_Conditions (c_Status (slice_items mem' (l_Items out) ! i)))
              (c_Conditions (c_Status (slice_items mem' (l_Items out) ! j)))) \<and>
     grows mem mem' \<and> (\<forall>k < length (configs mem). configs mem' ! k = configs mem ! k)"
proof (cases "l_Items l")
  case NilSlice
  with assms(2) show ?thesis by (auto simp: DeepCopyInto_ConfigList_def Let_def)
next
  case (Slice a n)
  let ?b = "length (configs mem)"
  let ?m = "mem\<lparr>configs := configs mem @ [replicate n zero]\<rparr>"
  from assms(1) Slice have a: "a < ?b" "n \<le> length (configs mem ! a)"
      "\<forall>i \<in> set [0 ..< n]. config_ok ?m (configs ?m ! a ! i)"
    by (auto simp: list_ok_def nth_append config_ok_def)
  from assms(2) Slice have out: "l_Items out = Slice ?b n" and mem': "mem' = copy_items copy_meta a ?b [0 ..< n] ?m"
    by (auto simp: DeepCopyInto_ConfigList_def Let_def)
  from a have ab: "a \<noteq> ?b" "?b < length (configs ?m)" "\<forall>i \<in> set [0 ..< n]. i < length (configs ?m ! ?b)"
    by (auto simp: nth_append)
  note run = copy_items_run [OF ab(1,2) distinct_upt ab(3) a(3) mem']
  have copied: "item_copied copy_meta mem (configs mem ! a ! i) mem' (configs mem' ! ?b ! i)" if "i < n" for i
  proof -
    from run that have "item_copied copy_meta ?m (configs ?m ! a ! i) mem' (configs mem' ! ?b ! i)" by simp
    moreover from assms(1) Slice that have "config_ok mem (configs mem ! a ! i)" by (simp add: list_ok_def)
    ultimately show ?thesis
      using a(1) item_copied_earlier [of copy_meta ?m _ mem' _ mem] by (simp add: nth_append grows_def)
  qed
  have len: "length (configs mem' ! ?b) = n" using run by (simp add: nth_append)
  have "grows ?m mem'" using run by blast
  then have "grows mem mem'" by (simp add: grows_def)
  moreover have "configs mem' ! k = configs mem ! k" if "k < ?b" for k
    using run that by (simp add: nth_append)
  moreover have "list_all2 (\<lambda>x y. item_copied copy_meta mem x mem' y) (take n (configs mem ! a)) (configs mem' ! ?b)"
    using a(2) len copied by (auto simp: list_all2_conv_all_nth)
  ultimately show ?thesis using run Slice out len by simp
qed

section \<open>Witnesses\<close>

type_synonym sample_meta = "string \<times> string \<times> string \<times> string"

definition sample_memory :: "sample_meta memory" where
  "sample_memory = \<lparr>conds = [[condition AppliedPipeline ''v1'']], configs = []\<rparr>"

definition sample_struct :: "sample_meta Config_struct" where
  "sample_struct = \<lparr>c_TypeMeta = (''Config'', ''operator.tekton.dev/v1alpha1''),
     c_ObjectMeta = (''cluster'', ''uid'', [], ''7''), c_Spec = ''ns'',
     c_Status = \<lparr>c_OperatorUUID = [], c_Conditions = Slice 0 1\<rparr>\<rparr>"

theorem status_copy_refines_witness:
  "case status_copy id ''id'' (condition ValidatedPipeline ''v1'') sample_struct sample_memory of (tmp, mem') \<Rightarrow>
     List.map Code (Conditions (Status (abs_config id mem' tmp))) = [ValidatedPipeline, AppliedPipeline] \<and>
     Conditions (Status (abs_config id (write_conds (c_Conditions (c_Status tmp)) [] mem') sample_struct)) =
       [condition AppliedPipeline ''v1'']"
proof -
  obtain tmp mem' where tmp: "status_copy id ''id'' (condition ValidatedPipeline ''v1'') sample_struct sample_memory = (tmp, mem')"
    by (cases "status_copy id ''id'' (condition ValidatedPipeline ''v1'') sample_struct sample_memory")
  have ok: "config_ok sample_memory sample_struct"
    by (simp add: config_ok_def sample_memory_def sample_struct_def)
  have "Conditions (Status (abs_config id sample_memory sample_struct)) = [condition AppliedPipeline ''v1'']"
    by (simp add: abs_config_def sample_memory_def sample_struct_def)
  with status_copy_refines [OF ok _ prod.collapse [symmetric] tmp, of id "[]"] ok show ?thesis
    unfolding tmp by (simp add: condition_def)
qed

theorem DeepCopyInto_ConfigList_copies_witness:
  "case DeepCopyInto_ConfigList id id sample_struct
      \<lparr>l_TypeMeta = ([], []), l_ListMeta = (), l_Items = Slice 0 2\<rparr>
      (sample_memory\<lparr>configs := [[sample_struct, sample_struct]]\<rparr>) of
     (out, mem') \<Rightarrow> apart (c_Conditions (c_Status (slice_items mem' (l_Items out) ! 0)))
                          (c_Conditions (c_Status (slice_items mem' (l_Items out) ! 1)))"
proof -
  let ?l = "\<lparr>l_TypeMeta = ([], []), l_ListMeta = (), l_Items = Slice 0 2\<rparr>"
  let ?mem = "sample_memory\<lparr>configs := [[sample_struct, sample_struct]]\<rparr>"
  obtain out mem' where out: "DeepCopyInto_ConfigList id id sample_struct ?l ?mem = (out, mem')"
    by (cases "DeepCopyInto_ConfigList id id sample_struct ?l ?mem")
  have "list_ok ?mem ?l"
    by (auto simp: list_ok_def config_ok_def sample_memory_def sample_struct_def less_2_cases_iff)
  note copies = DeepCopyInto_ConfigList_copies [OF this out]
  from copies have "length (slice_items mem' (l_Items out)) = 2"
    by (auto dest: list_all2_lengthD)
  with copies show ?thesis by (simp add: out)
qed

end
