(* ===== verification/Spec2Isabelle.thy ===== *)
theory Spec2Isabelle
  imports Completion RbacCompletion ApplyFacts WatchFacts ImageFacts DataFacts Startup ConfigJson DeepCopy
begin

text \<open>
  The Tekton pipelines operator for OpenShift: a model of its Go code and its correctness.

  \<^bold>\<open>The program.\<close>  The operator is one process with two controllers.  The config controller
  (\<open>pkg/controller/config\<close>) watches the cluster-wide resource \<open>Config\<close> and installs Tekton from manifests:
  it applies the pipeline, waits until its deployments are rolled out, then the triggers, the addons and
  the community resources.  One call of \<open>Reconcile\<close> does one stage, chosen by the newest condition in the
  status of the Config, and writes the next condition.  Before a manifest is applied it is transformed
  (\<open>pkg/utils/transform\<close>: owner, namespaces, labels, images from the environment); some of the addons are
  pipelines generated from templates (\<open>pkg/utils/addons\<close>).  The rbac controller (\<open>pkg/controller/rbac\<close>)
  gives every namespace a service account with two role bindings.  \<open>cmd/manager/main.go\<close> parses the command
  line and starts both.  What makes a controller reconcile is the controller runtime: informers report events,
  the watches turn them into requests, a queue keeps each request until a worker has reconciled it.

  \<^bold>\<open>How the code is modelled.\<close>
  A function that returns \<open>(T, error)\<close> is a value of \<open>'a res\<close> (\<open>Ok\<close>, \<open>Err\<close>, or \<open>Panic\<close> for a run-time panic);
  one with effects is a state transformer \<open>('s, 'a) go\<close> (theory \<open>Prelude\<close>).  The state of a controller is a
  record: the world \<open>'w\<close>, the trace of the calls to the API server (a ghost component), and the fields of the
  receiver with the package variables (\<open>sys\<close> for \<open>ReconcileConfig\<close>).  The API server, the clients and the
  libraries that are not in the repository are fields of records of functions on the world (\<open>client\<close>,
  \<open>rbac_client\<close>, \<open>host\<close>, \<open>rbac_host\<close>, \<open>startup\<close>, \<open>converter\<close>), each of which may fail at any time.  Go maps are association
  lists with distinct keys (\<open>gomap\<close>); where Go iterates over a map in any order, the order is an argument.
  The goroutines of a controller (informers, queue, worker) are a step relation, \<open>controller_step\<close>, whose state
  is the state of the reconciler with the queue, the worker and the events that are on their way.

  \<^bold>\<open>The theories.\<close>
  \<^item> \<open>Prelude\<close>, \<open>GoStrings\<close>: results, state transformers, the package \<open>strings\<close>.
  \<^item> \<open>Unstructured\<close>: JSON trees and the accessors of apimachinery's \<open>unstructured\<close>.
  \<^item> \<open>Flags\<close>: \<open>pkg/flag/flag.go\<close>.  \<open>CommandLine\<close>: its flag set, and the parser of pflag.  \<open>ConfigTypes\<close>: \<open>pkg/apis/operator/v1alpha1/config_types.go\<close>.
    \<open>RbacTypes\<close>: the API types of the rbac controller.
  \<^item> \<open>ConfigJson\<close>: the JSON of a \<open>Config\<close> and the schema of \<open>zz_generated.openapi.go\<close>.  \<open>DeepCopy\<close>: the copies of
    \<open>zz_generated.deepcopy.go\<close> on a memory of arrays, and the status \<open>updateStatus\<close> sends.
  \<^item> \<open>Manifestival\<close>, \<open>ManifestOps\<close>: manifests, filters and transformers of manifestival; its \<open>Apply\<close> and
    \<open>Delete\<close>; \<open>wait.PollImmediate\<close>.  \<open>MergePatch\<close>: the three-way JSON merge patch with which \<open>Apply\<close> updates
    custom resources.  \<open>Cluster\<close>: the client and the trace.
  \<^item> \<open>Images\<close>, \<open>Transform\<close>: \<open>pkg/utils/transform/transform.go\<close> and \<open>imagesFromEnv\<close>.
  \<^item> \<open>Validate\<close>: \<open>pkg/utils/validate/validate.go\<close>.
  \<^item> \<open>ConfigController\<close>, \<open>Handlers\<close>: \<open>config_controller.go\<close>, \<open>Reconcile\<close> and its handlers; the state machine
    \<open>install_step\<close> of the installation and what every handler keeps.
  \<^item> \<open>ConfigSetup\<close>: the start of the config controller.  \<open>Startup\<close>: \<open>main\<close> and the start of the rbac
    controller.  \<open>ApiScheme\<close>: \<open>pkg/apis\<close>, the registration of the types with a scheme.  \<open>Addons\<close>: \<open>pkg/utils/addons/addons.go\<close>.  \<open>Rbac\<close>: \<open>rbac_controller.go\<close>.
  \<^item> \<open>Watches\<close>: the calls of \<open>Watch\<close> in the two \<open>add\<close>, with the predicate and the event handlers.  \<open>WorkQueue\<close>: the
    queue of a controller.  \<open>Worker\<close>: a running controller.  \<open>ConfigLoop\<close>, \<open>RbacLoop\<close>: the two controllers of the
    operator as such.
  \<^item> \<open>Samples\<close>: a small API server that the witnesses run the operator against.

  \<^bold>\<open>What is proved.\<close>
  \<^item> \<open>Reconciliation\<close>: one call of \<open>Reconcile\<close> makes at most one status update, a step of the state machine;
    its result fits it; nothing is forgotten; an installed operator is left alone; the request for another
    name changes nothing; a stage counts as validated only when it is ready.
  \<^item> \<open>Installation\<close>: over all runs the stored conditions are a path of the state machine, so an installed
    Config has gone through every stage in order.  \<open>Progress\<close>: with a single writer the stages never go
    back, and six reconciliations that get through complete the installation.
  \<^item> \<open>Total\<close>, \<open>HealthyObjects\<close>, \<open>HealthyRuns\<close>, \<open>Completion\<close>: total correctness.  In a cluster that is well, with manifests
    that can be transformed, every handler returns without an error and writes the next status; so the
    controller's own steps lead from any stage to an installed Config.  \<open>RbacCompletion\<close>: likewise every namespace
    that is there and not ignored gets set up.
  \<^item> \<open>ManifestRuns\<close>: what \<open>Delete\<close>, \<open>Apply\<close>, the wait between them and the deletion of the Config do, call by call.
  \<^item> \<open>MergeFacts\<close>, \<open>ApplyFacts\<close>: the patch equals a recursive three-way merge, so \<open>Apply\<close> brings back what the
    manifest says, removes what only the last one said and keeps the rest; it writes nothing when that holds.
  \<^item> \<open>TransformFacts\<close>, \<open>DataFacts\<close>, \<open>ImageFacts\<close>: what the transformers set, keep and panic on; the loop that
    rewrites the arguments of a container while it ranges over them equals a recursive specification.
  \<^item> \<open>Addons\<close>: which pipelines are generated, and that no two share a name.
  \<^item> \<open>Rbac\<close>: what a reconciliation may change, that it does its work, that it is idempotent.
  \<^item> \<open>ConfigSetup\<close>, \<open>Startup\<close>: the order of the start and what it does to the cluster; a clientset or a pattern
    that is no good is found out late.  The operator runs with exactly the flags it is given, and a mistake on
    the command line ends the process (\<open>CommandLine\<close> has the lemmas).
  \<^item> \<open>ApiScheme\<close>: what \<open>AddToScheme\<close> registers, and that registering again changes nothing.
  \<^item> \<open>WorkQueue\<close>, \<open>Worker\<close>: in every interleaving a request is queued at most once, never while it is
    reconciled, and not lost before a reconciliation asks for nothing more; a request that is due is taken up.
    \<open>Advance\<close>: when each reconciliation gets nearer to the goal of its request, the controller reaches it.
  \<^item> \<open>ConfigLoop\<close>, \<open>RbacLoop\<close>: hence the installation is never forgotten, and every namespace that exists and
    is not ignored is set up or has its request before the controller.  A change of the spec of an
    installed Config is not among the things that are acted on.  \<open>WatchFacts\<close>: every deployment the operator
    applies names its Config as its controller, so its events wake the Config.
  \<^item> \<open>ConfigJson\<close>: a status survives the wire, and the schema admits what the operator writes and can read.
    \<open>DeepCopy\<close>: a copy shares no array with what it is made of, so a \<open>Config\<close> may be a value elsewhere.

  \<^bold>\<open>Interfaces.\<close>
  The locale \<open>step_relation\<close> lifts a reflexive and transitive relation on states through programs;
  \<open>client_steps\<close> extends it by the calls on objects and \<open>operator_steps\<close> by those of the config controller, and
  inside them every operation is shown to respect the relation.  They are interpreted for the events a
  program emits (\<open>em\<close>, \<open>st\<close>), the memory of the controller (\<open>mem\<close>), the rbac objects (\<open>rk\<close>, \<open>sec\<close>) and the
  steps of \<open>main\<close> (\<open>sp\<close>).  \<open>object_field\<close> is a field of an object's metadata (\<open>ns\<close>, \<open>nm\<close>, \<open>lb\<close>, \<open>an\<close>),
  \<open>stable_observation\<close> what a list of transformers leaves unchanged (\<open>rb\<close>).  The locale \<open>reconciler\<close> is what a
  reconciler promises to the loop of the controller: a run that asks for nothing more has reached the goal of
  its request, no run undoes it, and an event reports what others undo.  It is interpreted for both
  controllers (\<open>config\<close>, \<open>rbac\<close>), over what their runs leave alone (\<open>uw\<close>, \<open>ss\<close>, \<open>sn\<close>).  \<open>advancing\<close> extends it by an
  invariant and a rank that a reconciliation of the request makes smaller (\<open>course\<close>: the stages that are left; \<open>secures\<close>),
  and \<open>rbac_steps\<close> does for the rbac controller what \<open>operator_steps\<close> does for the other (\<open>rbac_memory\<close>, and \<open>stock\<close>, \<open>kg\<close> beside them).

  \<^bold>\<open>Bounds and termination.\<close>
  \<open>PollImmediate\<close> takes the number of ticks its ticker delivers from the client, at most \<open>timeout\<close> for an interval of one
  second, and evaluates the condition at most \<open>timeout + 2\<close> times; nothing else loops beyond the
  recursion on a list, but \<open>overlay\<close> and the functions of \<open>MergePatch\<close>, which end because a tree gets smaller, and the loops of the
  command line, which end because each step leaves fewer letters or arguments (their \<open>termination\<close> proofs).
  No definition uses fuel.

  \<^bold>\<open>Assumptions.\<close>
  \<open>status_store\<close> (resource versions are checked), \<open>single_writer\<close> (nobody else writes the status) and \<open>rbac_server\<close>
  (reads report what is stored, a write is applied or not) say what the API server promises, each with
  an instance.  \<open>config_server\<close> and \<open>namespace_server\<close> say the same of the status of the watched Config and of the
  existence of a namespace; \<open>config_env\<close> and \<open>rbac_env\<close> say what others may do to them without an event: nothing.
  \<open>healthy\<close> and \<open>healthy_rbac\<close> say of a cluster that is well that its calls do what they are asked: objects can be
  read, created, updated and deleted, the status of a fresh copy is accepted, and what is there is rolled out; only
  the theorems that something is reached rest on them, and each has an instance.
  Reads are of what is stored, as if the caches of the informers were never behind.
  \<open>converter_rereads\<close>, \<open>converter_keeps_kind\<close> and \<open>converter_keeps_owners\<close> are what is asked of the conversion to typed objects.

  \<^bold>\<open>Not modelled.\<close>
  YAML, fetching URLs, the API server, the strategic merge of the types client-go knows, the regular expression engine and
  the conversion of objects are parameters.  Logging is left out, with \<open>requestLogger\<close> and \<open>printVersion\<close>, and
  the flags of zap and of Go's package \<open>flag\<close> are arguments.  Of the controller runtime the informers and their
  caches are left out: which events there are is up to the environment.  \<open>filepath.Join\<close> is modelled for clean
  paths.  The text of an accessor's error leaves out the value it prints.
\<close>

end
